theory Spec2Isabelle
  imports Complex_Main "HOL-Library.Product_Lexorder" "HOL-Library.AList"
begin

section \<open>Block-sparse tensors of pyblock3 (tensor.py)\<close>

text \<open>
  The quantum label type of tensor.py (class SZ) is not part of the file; it is the type
  parameter \<open>'q\<close>, and its addition and its \<open>is_fermion\<close> property are parameters
  \<open>qadd\<close> and \<open>is_fermion\<close> of the functions that use them. Dense arrays
  (numpy.ndarray) are a shape with the elements in row-major order, over the reals.
\<close>

subsection \<open>Errors and dense arrays\<close>

datatype py_error = RuntimeError | AssertionError | IndexError | KeyError | ValueError | TypeError

record ndarray =
  shape :: "nat list"
  data :: "real list"

definition ndim :: "ndarray \<Rightarrow> nat" where
  "ndim a = length (shape a)"

text \<open>\<open>-a\<close> and \<open>c * a\<close> on an array: elementwise, same shape.\<close>

definition nd_neg :: "ndarray \<Rightarrow> ndarray" where
  "nd_neg a = \<lparr>shape = shape a, data = map uminus (data a)\<rparr>"

definition nd_scale :: "real \<Rightarrow> ndarray \<Rightarrow> ndarray" where
  "nd_scale c a = \<lparr>shape = shape a, data = map (\<lambda>x. c * x) (data a)\<rparr>"

text \<open>\<open>np.zeros(shape)\<close>.\<close>

definition nd_zeros :: "nat list \<Rightarrow> ndarray" where
  "nd_zeros sh = \<lparr>shape = sh, data = replicate (prod_list sh) 0\<rparr>"

text \<open>Running a fallible function over a list, stopping at the first error (a Python
  list comprehension whose element expression raises).\<close>

fun traverse :: "('a \<Rightarrow> 'e + 'b) \<Rightarrow> 'a list \<Rightarrow> 'e + 'b list" where
  "traverse f [] = Inr []"
| "traverse f (x # xs) =
     (case f x of Inl e \<Rightarrow> Inl e
      | Inr y \<Rightarrow> (case traverse f xs of Inl e \<Rightarrow> Inl e | Inr ys \<Rightarrow> Inr (y # ys)))"

subsection \<open>Indexing and numpy operations\<close>

text \<open>\<open>xs[i]\<close> on a tuple or list: a negative index counts from the end, and an
  index outside the sequence raises IndexError.\<close>

definition py_index :: "'a list \<Rightarrow> int \<Rightarrow> py_error + 'a" where
  "py_index xs i =
     (if 0 \<le> i \<and> i < int (length xs) then Inr (xs ! nat i)
      else if i < 0 \<and> - int (length xs) \<le> i then Inr (xs ! nat (int (length xs) + i))
      else Inl IndexError)"

text \<open>All index tuples of a shape in row-major order, the offset of an index tuple in
  the row-major data, and the element at an index tuple.\<close>

fun indices :: "nat list \<Rightarrow> nat list list" where
  "indices [] = [[]]"
| "indices (d # ds) = concat (map (\<lambda>i. map ((#) i) (indices ds)) [0..<d])"

definition ravel :: "nat list \<Rightarrow> nat list \<Rightarrow> nat" where
  "ravel sh ix = foldl (\<lambda>acc (d, i). acc * d + i) 0 (zip sh ix)"

definition nd_get :: "ndarray \<Rightarrow> nat list \<Rightarrow> real" where
  "nd_get a ix = data a ! ravel (shape a) ix"

text \<open>\<open>a.transpose(perm)\<close> has at the index tuple \<open>ix\<close> the element of \<open>a\<close> at
  the index tuple \<open>jx\<close> with \<open>jx[perm[t]] = ix[t]\<close>.\<close>

definition pos_of :: "nat list \<Rightarrow> nat \<Rightarrow> nat" where
  "pos_of perm p = length (takeWhile (\<lambda>q. q \<noteq> p) perm)"

definition transposed_index :: "nat list \<Rightarrow> nat list \<Rightarrow> nat list" where
  "transposed_index perm ix = map (\<lambda>p. ix ! pos_of perm p) [0..<length perm]"

text \<open>
  \<open>np.tensordot(a, b, axes=(axes_a, axes_b))\<close>. numpy first walks the two axis lists
  together: it reads the two dimensions (by tuple indexing), stops with ValueError
  (shape mismatch) when they differ, and replaces a negative axis by its position. It then
  transposes \<open>a\<close> to \<open>notin_a + axes_a\<close> and \<open>b\<close> to \<open>axes_b + notin_b\<close> (a
  repeated axis is a ValueError), reshapes both to matrices, multiplies them and reshapes
  the product to \<open>olda + oldb\<close>.
\<close>

definition axis_pos :: "nat \<Rightarrow> int \<Rightarrow> nat" where
  "axis_pos nd x = nat (if x < 0 then int nd + x else x)"

fun normalize_axes ::
  "nat list \<Rightarrow> nat list \<Rightarrow> int list \<Rightarrow> int list \<Rightarrow> py_error + (nat list \<times> nat list)" where
  "normalize_axes as bs [] [] = Inr ([], [])"
| "normalize_axes as bs (x # xs) (y # ys) =
     (case py_index as x of
        Inl e \<Rightarrow> Inl e
      | Inr da \<Rightarrow>
          (case py_index bs y of
             Inl e \<Rightarrow> Inl e
           | Inr db \<Rightarrow>
               if da \<noteq> db then Inl ValueError
               else (case normalize_axes as bs xs ys of
                       Inl e \<Rightarrow> Inl e
                     | Inr (xa, ya) \<Rightarrow>
                         Inr (axis_pos (length as) x # xa, axis_pos (length bs) y # ya))))"
| "normalize_axes as bs _ _ = Inl ValueError"

definition dense_contract :: "ndarray \<Rightarrow> ndarray \<Rightarrow> nat list \<Rightarrow> nat list \<Rightarrow> ndarray" where
  "dense_contract a b xa xb =
     (let notin_a = filter (\<lambda>k. k \<notin> set xa) [0..<ndim a];
          notin_b = filter (\<lambda>k. k \<notin> set xb) [0..<ndim b];
          olda = map ((!) (shape a)) notin_a;
          oldb = map ((!) (shape b)) notin_b;
          cs = map ((!) (shape a)) xa
      in \<lparr>shape = olda @ oldb,
          data = concat (map (\<lambda>i. map (\<lambda>j.
                   sum_list (map (\<lambda>c. nd_get a (transposed_index (notin_a @ xa) (i @ c))
                                      * nd_get b (transposed_index (xb @ notin_b) (c @ j)))
                             (indices cs)))
                   (indices oldb)) (indices olda))\<rparr>)"

definition tensordot :: "ndarray \<Rightarrow> ndarray \<Rightarrow> int list \<Rightarrow> int list \<Rightarrow> py_error + ndarray" where
  "tensordot a b axes_a axes_b =
     (if length axes_a \<noteq> length axes_b then Inl ValueError
      else (case normalize_axes (shape a) (shape b) axes_a axes_b of
              Inl e \<Rightarrow> Inl e
            | Inr (xa, xb) \<Rightarrow>
                if distinct xa \<and> distinct xb then Inr (dense_contract a b xa xb)
                else Inl ValueError))"

text \<open>
  \<open>a += b\<close> on arrays: elementwise for equal shapes; otherwise \<open>b\<close> is broadcast to
  the shape of \<open>a\<close> (its shape, aligned at the end, agrees with that of \<open>a\<close> or is 1
  in each dimension), and ValueError is raised when it cannot be.
\<close>

definition broadcastable :: "nat list \<Rightarrow> nat list \<Rightarrow> bool" where
  "broadcastable sa sb =
     (length sb \<le> length sa
      \<and> list_all2 (\<lambda>d e. e = d \<or> e = 1) (drop (length sa - length sb) sa) sb)"

definition broadcast_index :: "nat list \<Rightarrow> nat list \<Rightarrow> nat list \<Rightarrow> nat list" where
  "broadcast_index sa sb ix =
     map (\<lambda>(e, i). if e = 1 then 0 else i) (zip sb (drop (length sa - length sb) ix))"

definition nd_iadd :: "ndarray \<Rightarrow> ndarray \<Rightarrow> py_error + ndarray" where
  "nd_iadd a b =
     (if shape b = shape a then
        Inr \<lparr>shape = shape a, data = map (\<lambda>(x, y). x + y) (zip (data a) (data b))\<rparr>
      else if broadcastable (shape a) (shape b) then
        Inr \<lparr>shape = shape a,
             data = map (\<lambda>ix. nd_get a ix + nd_get b (broadcast_index (shape a) (shape b) ix))
                        (indices (shape a))\<rparr>
      else Inl ValueError)"

text \<open>\<open>a.item()\<close>: the element of an array of one element, ValueError otherwise.\<close>

definition nd_item :: "ndarray \<Rightarrow> py_error + real" where
  "nd_item a = (case data a of [x] \<Rightarrow> Inr x | _ \<Rightarrow> Inl ValueError)"

subsection \<open>FusingTypes, SubTensor, SparseTensor\<close>

datatype FusingTypes =
    Scalar
  | ThreeIndexMPSTensor
  | UnfusedThreeIndexMPSTensor
  | LeftFusedMPSTensor
  | RightFusedMPSTensor
  | TwoSiteMPSTensor
  | FourIndexMPOTensor
  | UnfusedFourIndexMPOTensor
  | TwoSiteMPOTensor

record 'q sub_tensor =
  q_labels :: "'q list"
  reduced :: ndarray

text \<open>\<open>self.rank = len(q_labels)\<close>, set once in \<open>SubTensor.__init__\<close>.\<close>

definition block_rank :: "'q sub_tensor \<Rightarrow> nat" where
  "block_rank b = length (q_labels b)"

text \<open>\<open>SubTensor.__init__\<close>: for a block of non-zero rank the assertion
  \<open>len(self.reduced.shape) == self.rank\<close> must hold.\<close>

definition SubTensor_init :: "'q list \<Rightarrow> ndarray \<Rightarrow> py_error + 'q sub_tensor" where
  "SubTensor_init ql r =
     (if length ql \<noteq> 0 \<and> ndim r \<noteq> length ql then Inl AssertionError
      else Inr \<lparr>q_labels = ql, reduced = r\<rparr>)"

text \<open>A block as the constructor leaves it.\<close>

definition block_ok :: "'q sub_tensor \<Rightarrow> bool" where
  "block_ok b = (block_rank b = 0 \<or> ndim (reduced b) = block_rank b)"

definition sub_mul :: "'q sub_tensor \<Rightarrow> real \<Rightarrow> py_error + 'q sub_tensor" where
  "sub_mul b other = SubTensor_init (q_labels b) (nd_scale other (reduced b))"

definition sub_neg :: "'q sub_tensor \<Rightarrow> py_error + 'q sub_tensor" where
  "sub_neg b = SubTensor_init (q_labels b) (nd_neg (reduced b))"

record 'q sparse_tensor =
  blocks :: "'q sub_tensor list"
  ftype :: FusingTypes
  delta_quantum :: "'q option"

text \<open>The property \<open>rank\<close>: 0 for no blocks, else the rank of the first block.\<close>

definition blocks_rank :: "'q sub_tensor list \<Rightarrow> nat" where
  "blocks_rank bs = (case bs of [] \<Rightarrow> 0 | b # _ \<Rightarrow> block_rank b)"

definition st_rank :: "'q sparse_tensor \<Rightarrow> nat" where
  "st_rank t = blocks_rank (blocks t)"

text \<open>\<open>SparseTensor.__init__(blocks, ftype, delta_quantum)\<close>; \<open>None\<close> for a tag
  that is not given.\<close>

definition SparseTensor_init ::
  "'q sub_tensor list \<Rightarrow> FusingTypes option \<Rightarrow> 'q option \<Rightarrow> py_error + 'q sparse_tensor" where
  "SparseTensor_init bs ft dq =
     (case ft of
        None \<Rightarrow>
          (if blocks_rank bs = 3 then
             Inr \<lparr>blocks = bs, ftype = ThreeIndexMPSTensor, delta_quantum = dq\<rparr>
           else if blocks_rank bs = 4 then
             Inr \<lparr>blocks = bs, ftype = FourIndexMPOTensor, delta_quantum = dq\<rparr>
           else Inl RuntimeError)
      | Some t \<Rightarrow> Inr \<lparr>blocks = bs, ftype = t, delta_quantum = dq\<rparr>)"

text \<open>\<open>__mul__\<close> passes the tag on, \<open>__neg__\<close> does not; neither passes
  \<open>delta_quantum\<close>.\<close>

definition sparse_mul :: "'q sparse_tensor \<Rightarrow> real \<Rightarrow> py_error + 'q sparse_tensor" where
  "sparse_mul t other =
     (case traverse (\<lambda>b. sub_mul b other) (blocks t) of
        Inl e \<Rightarrow> Inl e
      | Inr bs \<Rightarrow> SparseTensor_init bs (Some (ftype t)) None)"

definition sparse_neg :: "'q sparse_tensor \<Rightarrow> py_error + 'q sparse_tensor" where
  "sparse_neg t =
     (case traverse sub_neg (blocks t) of
        Inl e \<Rightarrow> Inl e
      | Inr bs \<Rightarrow> SparseTensor_init bs None None)"

subsection \<open>contract\<close>

text \<open>
  \<open>idxa = [x if x >= 0 else spta.rank + x for x in idxa]\<close>,
  \<open>out_idx_a = list(set(range(0, spta.rank)) - set(idxa))\<close> and
  \<open>tuple(block.q_labels[id] for id in idx)\<close>. The order in which \<open>list\<close>
  lists a set is that of the interpreter's hash table (ascending for the legs of a tensor
  of rank up to 8, not for every larger rank); it is the parameter \<open>listed\<close>, which
  takes the elements of the set in ascending order and gives them in the order of the
  listing.
\<close>

definition normalize_legs :: "nat \<Rightarrow> int list \<Rightarrow> int list" where
  "normalize_legs rank idx = map (\<lambda>x. if x \<ge> 0 then x else int rank + x) idx"

definition out_legs :: "(nat list \<Rightarrow> nat list) \<Rightarrow> nat \<Rightarrow> int list \<Rightarrow> int list" where
  "out_legs listed rank idx = map int (listed (filter (\<lambda>p. int p \<notin> set idx) [0..<rank]))"

definition labels_at :: "'q sub_tensor \<Rightarrow> int list \<Rightarrow> py_error + 'q list" where
  "labels_at block idx = traverse (py_index (q_labels block)) idx"

text \<open>\<open>map_idx_b\<close>: a dictionary from label tuples to lists of blocks, in insertion
  order. The body of the loop that fills it, and the loop.\<close>

type_synonym 'q block_index = "('q list \<times> 'q sub_tensor list) list"

definition index_block :: "'q block_index \<Rightarrow> 'q list \<Rightarrow> 'q sub_tensor \<Rightarrow> 'q block_index" where
  "index_block m subg block =
     (case map_of m subg of
        None \<Rightarrow> m @ [(subg, [block])]
      | Some bs \<Rightarrow> AList.update subg (bs @ [block]) m)"

fun build_map_idx_b ::
  "int list \<Rightarrow> 'q sub_tensor list \<Rightarrow> 'q block_index \<Rightarrow> py_error + 'q block_index" where
  "build_map_idx_b idxb [] m = Inr m"
| "build_map_idx_b idxb (block # bs) m =
     (case labels_at block idxb of
        Inl e \<Rightarrow> Inl e
      | Inr subg \<Rightarrow> build_map_idx_b idxb bs (index_block m subg block))"

text \<open>
  The fermionic phase factor. \<open>fermion\<close> is a function of the two label tuples; the
  default returns \<open>False\<close>, and the rule for an operator tensor on a one-site state
  tensor is \<open>(qa[1] + qa[2]).is_fermion and qb[0].is_fermion\<close>, where \<open>and\<close> does not
  evaluate its second operand when the first is false. \<open>sign_rule\<close> is the selection of
  \<open>fermion\<close> and \<open>out_ftype\<close> from the two tags and the normalized leg lists.
\<close>

type_synonym 'q fermion_fn = "'q list \<Rightarrow> 'q list \<Rightarrow> py_error + bool"

definition fermion_default :: "'q fermion_fn" where
  "fermion_default qa qb = Inr False"

definition fermion_op_mps :: "('q \<Rightarrow> 'q \<Rightarrow> 'q) \<Rightarrow> ('q \<Rightarrow> bool) \<Rightarrow> 'q fermion_fn" where
  "fermion_op_mps qadd is_fermion qa qb =
     (case py_index qa 1 of
        Inl e \<Rightarrow> Inl e
      | Inr a1 \<Rightarrow>
          (case py_index qa 2 of
             Inl e \<Rightarrow> Inl e
           | Inr a2 \<Rightarrow>
               if is_fermion (qadd a1 a2) then
                 (case py_index qb 0 of Inl e \<Rightarrow> Inl e | Inr b0 \<Rightarrow> Inr (is_fermion b0))
               else Inr False))"

definition sign_rule ::
  "('q \<Rightarrow> 'q \<Rightarrow> 'q) \<Rightarrow> ('q \<Rightarrow> bool) \<Rightarrow> FusingTypes \<Rightarrow> FusingTypes \<Rightarrow> int list \<Rightarrow> int list
     \<Rightarrow> 'q fermion_fn \<times> FusingTypes option" where
  "sign_rule qadd is_fermion fa fb idxa idxb =
     (if fa = FourIndexMPOTensor \<and> fb = ThreeIndexMPSTensor then
        (if idxa = [2] \<and> idxb = [1] then
           (fermion_op_mps qadd is_fermion, Some ThreeIndexMPSTensor)
         else (fermion_default, None))
      else (fermion_default, None))"

text \<open>
  The body of the inner loop, in two parts. First the output labels and the dense
  contribution of a pair of blocks: \<open>np.tensordot\<close>, then the two lines
  \<open>if fermion(block_a.q_labels, block_b.q_labels)\<close> and \<open>mat *= -1\<close>. The first
  of them has no colon and the second is not indented under it, so the source does not
  say for which values of the test \<open>mat *= -1\<close> runs (with the colon and the
  indentation: when the test holds; with the first line dropped: always). No reading is
  chosen here: the test is evaluated, and the values of the test for which the array is
  multiplied by \<open>-1\<close> are the parameter \<open>flips\<close> (the identity for the
  conditional, \<open>\<lambda>f. True\<close> for the unconditional reading). Then the update of
  \<open>map_idx_out\<close>, a dictionary in insertion order: a new block for a new key,
  \<open>+=\<close> on the stored array otherwise.
\<close>

record 'q contract_ctx =
  fermion :: "'q fermion_fn"
  flip_on :: "bool \<Rightarrow> bool"
  idxa :: "int list"
  idxb :: "int list"
  out_idx_a :: "int list"
  out_idx_b :: "int list"

definition pair_output ::
  "'q contract_ctx \<Rightarrow> 'q list \<Rightarrow> 'q sub_tensor \<Rightarrow> 'q sub_tensor \<Rightarrow> py_error + ('q list \<times> ndarray)" where
  "pair_output c outga block_a block_b =
     (case labels_at block_b (out_idx_b c) of
        Inl e \<Rightarrow> Inl e
      | Inr lb \<Rightarrow>
          (case tensordot (reduced block_a) (reduced block_b) (idxa c) (idxb c) of
             Inl e \<Rightarrow> Inl e
           | Inr mat \<Rightarrow>
               (case fermion c (q_labels block_a) (q_labels block_b) of
                  Inl e \<Rightarrow> Inl e
                | Inr f \<Rightarrow>
                    Inr (outga @ lb, if flip_on c f then nd_scale (- 1) mat else mat))))"

type_synonym 'q out_index = "('q list \<times> 'q sub_tensor) list"

definition store_output :: "'q out_index \<Rightarrow> 'q list \<times> ndarray \<Rightarrow> py_error + 'q out_index" where
  "store_output m p =
     (case p of (outg, mat) \<Rightarrow>
        (case map_of m outg of
           None \<Rightarrow>
             (case SubTensor_init outg mat of
                Inl e \<Rightarrow> Inl e
              | Inr blk \<Rightarrow> Inr (m @ [(outg, blk)]))
         | Some blk \<Rightarrow>
             (case nd_iadd (reduced blk) mat of
                Inl e \<Rightarrow> Inl e
              | Inr r \<Rightarrow> Inr (AList.update outg (blk\<lparr>reduced := r\<rparr>) m))))"

fun inner_loop ::
  "'q contract_ctx \<Rightarrow> 'q list \<Rightarrow> 'q sub_tensor \<Rightarrow> 'q sub_tensor list \<Rightarrow> 'q out_index
     \<Rightarrow> py_error + 'q out_index" where
  "inner_loop c outga block_a [] m = Inr m"
| "inner_loop c outga block_a (block_b # bs) m =
     (case pair_output c outga block_a block_b of
        Inl e \<Rightarrow> Inl e
      | Inr p \<Rightarrow>
          (case store_output m p of
             Inl e \<Rightarrow> Inl e
           | Inr m' \<Rightarrow> inner_loop c outga block_a bs m'))"

fun outer_loop ::
  "'q contract_ctx \<Rightarrow> 'q block_index \<Rightarrow> 'q sub_tensor list \<Rightarrow> 'q out_index
     \<Rightarrow> py_error + 'q out_index" where
  "outer_loop c map_idx_b [] m = Inr m"
| "outer_loop c map_idx_b (block_a # as) m =
     (case labels_at block_a (idxa c) of
        Inl e \<Rightarrow> Inl e
      | Inr subg \<Rightarrow>
          (case map_of map_idx_b subg of
             None \<Rightarrow> outer_loop c map_idx_b as m
           | Some bs \<Rightarrow>
               (case labels_at block_a (out_idx_a c) of
                  Inl e \<Rightarrow> Inl e
                | Inr outga \<Rightarrow>
                    (case inner_loop c outga block_a bs m of
                       Inl e \<Rightarrow> Inl e
                     | Inr m' \<Rightarrow> outer_loop c map_idx_b as m'))))"

text \<open>The context of the loops, and \<open>map_idx_out\<close> after them.\<close>

definition contract_ctx_of ::
  "('q \<Rightarrow> 'q \<Rightarrow> 'q) \<Rightarrow> ('q \<Rightarrow> bool) \<Rightarrow> (bool \<Rightarrow> bool) \<Rightarrow> (nat list \<Rightarrow> nat list)
     \<Rightarrow> 'q sparse_tensor \<Rightarrow> 'q sparse_tensor \<Rightarrow> int list \<Rightarrow> int list
     \<Rightarrow> 'q contract_ctx" where
  "contract_ctx_of qadd is_fermion flips listed spta sptb ia ib =
     (let na = normalize_legs (st_rank spta) ia;
          nb = normalize_legs (st_rank sptb) ib
      in \<lparr>fermion = fst (sign_rule qadd is_fermion (ftype spta) (ftype sptb) na nb),
          flip_on = flips,
          idxa = na, idxb = nb,
          out_idx_a = out_legs listed (st_rank spta) na,
          out_idx_b = out_legs listed (st_rank sptb) nb\<rparr>)"

definition contract_blocks ::
  "('q \<Rightarrow> 'q \<Rightarrow> 'q) \<Rightarrow> ('q \<Rightarrow> bool) \<Rightarrow> (bool \<Rightarrow> bool) \<Rightarrow> (nat list \<Rightarrow> nat list)
     \<Rightarrow> 'q sparse_tensor \<Rightarrow> 'q sparse_tensor \<Rightarrow> int list \<Rightarrow> int list
     \<Rightarrow> py_error + 'q out_index" where
  "contract_blocks qadd is_fermion flips listed spta sptb ia ib =
     (let c = contract_ctx_of qadd is_fermion flips listed spta sptb ia ib in
      case build_map_idx_b (idxb c) (blocks sptb) [] of
        Inl e \<Rightarrow> Inl e
      | Inr map_idx_b \<Rightarrow> outer_loop c map_idx_b (blocks spta) [])"

text \<open>The result of \<open>contract\<close> is a number or a collection.\<close>

datatype 'q contract_result = ScalarResult real | TensorResult "'q sparse_tensor"

definition contract ::
  "('q \<Rightarrow> 'q \<Rightarrow> 'q) \<Rightarrow> ('q \<Rightarrow> bool) \<Rightarrow> (bool \<Rightarrow> bool) \<Rightarrow> (nat list \<Rightarrow> nat list)
     \<Rightarrow> 'q sparse_tensor \<Rightarrow> 'q sparse_tensor \<Rightarrow> int list \<Rightarrow> int list
     \<Rightarrow> py_error + 'q contract_result" where
  "contract qadd is_fermion flips listed spta sptb ia ib =
     (if length ia \<noteq> length ib then Inl AssertionError
      else
        (let c = contract_ctx_of qadd is_fermion flips listed spta sptb ia ib;
             out_ftype = snd (sign_rule qadd is_fermion (ftype spta) (ftype sptb) (idxa c) (idxb c))
         in case contract_blocks qadd is_fermion flips listed spta sptb ia ib of
              Inl e \<Rightarrow> Inl e
            | Inr map_idx_out \<Rightarrow>
                if length (out_idx_a c) + length (out_idx_b c) = 0 then
                  (if length map_idx_out = 0 then Inr (ScalarResult 0)
                   else (case map_of map_idx_out [] of
                           None \<Rightarrow> Inl KeyError
                         | Some blk \<Rightarrow>
                             (case nd_item (reduced blk) of
                                Inl e \<Rightarrow> Inl e
                              | Inr x \<Rightarrow> Inr (ScalarResult x))))
                else
                  (case SparseTensor_init (map snd map_idx_out) out_ftype None of
                     Inl e \<Rightarrow> Inl e
                   | Inr t \<Rightarrow> Inr (TensorResult t))))"

text \<open>
  Notions used to state what the loops compute. The pairs of blocks that the loops visit,
  in their order: for each block of A, the blocks of B with the same labels on the
  contracted legs. The output labels and the contribution of a pair. The updates of
  \<open>map_idx_out\<close> for a list of contributions, and \<open>+=\<close> of a list of arrays onto
  an array.
\<close>

definition matching_pairs ::
  "'q contract_ctx \<Rightarrow> 'q sub_tensor list \<Rightarrow> 'q sub_tensor list \<Rightarrow> ('q sub_tensor \<times> 'q sub_tensor) list" where
  "matching_pairs c as bs =
     concat (map (\<lambda>a. map (Pair a) (filter (\<lambda>b. labels_at b (idxb c) = labels_at a (idxa c)) bs)) as)"

definition pair_result ::
  "'q contract_ctx \<Rightarrow> 'q sub_tensor \<times> 'q sub_tensor \<Rightarrow> py_error + ('q list \<times> ndarray)" where
  "pair_result c p =
     (case p of (a, b) \<Rightarrow>
        (case labels_at a (out_idx_a c) of
           Inl e \<Rightarrow> Inl e
         | Inr outga \<Rightarrow> pair_output c outga a b))"

fun store_all :: "'q out_index \<Rightarrow> ('q list \<times> ndarray) list \<Rightarrow> py_error + 'q out_index" where
  "store_all m [] = Inr m"
| "store_all m (p # ps) =
     (case store_output m p of Inl e \<Rightarrow> Inl e | Inr m' \<Rightarrow> store_all m' ps)"

fun add_all :: "ndarray \<Rightarrow> ndarray list \<Rightarrow> py_error + ndarray" where
  "add_all a [] = Inr a"
| "add_all a (b # bs) = (case nd_iadd a b of Inl e \<Rightarrow> Inl e | Inr r \<Rightarrow> add_all r bs)"

text \<open>The blocks stored for a key of \<open>map_idx_b\<close>; no key of it has an empty list.\<close>

definition block_lookup :: "'q block_index \<Rightarrow> 'q list \<Rightarrow> 'q sub_tensor list" where
  "block_lookup m k = (case map_of m k of None \<Rightarrow> [] | Some bs \<Rightarrow> bs)"

definition index_ok :: "'q block_index \<Rightarrow> bool" where
  "index_ok m = (\<forall>k bs. map_of m k = Some bs \<longrightarrow> bs \<noteq> [])"

text \<open>The contributions to an output label tuple, and the relation of \<open>map_idx_out\<close>
  to the contributions stored so far: one block for each output label tuple, holding the
  sum of the contributions to it.\<close>

definition contributions :: "'q list \<Rightarrow> ('q list \<times> ndarray) list \<Rightarrow> ndarray list" where
  "contributions outd ps = map snd (filter (\<lambda>p. fst p = outd) ps)"

definition accumulates :: "'q out_index \<Rightarrow> ('q list \<times> ndarray) list \<Rightarrow> bool" where
  "accumulates m ps =
     (distinct (map fst m) \<and> fst ` set m = fst ` set ps
      \<and> (\<forall>p\<in>set m. q_labels (snd p) = fst p
            \<and> (\<exists>x xs. contributions (fst p) ps = x # xs \<and> add_all x xs = Inr (reduced (snd p)))))"

text \<open>The contribution of a pair of blocks alone: the array \<open>mat\<close> as it is stored or
  added.\<close>

definition pair_contribution ::
  "'q contract_ctx \<Rightarrow> 'q sub_tensor \<Rightarrow> 'q sub_tensor \<Rightarrow> py_error + ndarray" where
  "pair_contribution c block_a block_b =
     (case pair_output c [] block_a block_b of Inl e \<Rightarrow> Inl e | Inr p \<Rightarrow> Inr (snd p))"

text \<open>The combination of tags and legs that has a sign rule, and the trigger of the
  sign flip in the words of the specification: the two parities disagree.\<close>

definition op_on_site :: "'q sparse_tensor \<Rightarrow> 'q sparse_tensor \<Rightarrow> int list \<Rightarrow> int list \<Rightarrow> bool" where
  "op_on_site spta sptb ia ib =
     (ftype spta = FourIndexMPOTensor \<and> ftype sptb = ThreeIndexMPSTensor
      \<and> normalize_legs (st_rank spta) ia = [2] \<and> normalize_legs (st_rank sptb) ib = [1])"

definition claimed_sign_flip :: "('q \<Rightarrow> 'q \<Rightarrow> 'q) \<Rightarrow> ('q \<Rightarrow> bool) \<Rightarrow> 'q list \<Rightarrow> 'q list \<Rightarrow> bool" where
  "claimed_sign_flip qadd is_fermion qa qb =
     (is_fermion (qadd (qa ! 1) (qa ! 2)) \<noteq> is_fermion (qb ! 0))"

text \<open>The leg list of a call covers all legs of an operand of the rank given: every
  position occurs in the list, as itself or counted from the end. And every leg of the
  list is a position of the operand, counted from the start or from the end.\<close>

definition covers_all_legs :: "nat \<Rightarrow> int list \<Rightarrow> bool" where
  "covers_all_legs rank idx =
     (\<forall>p\<in>set [0..<rank]. int p \<in> set idx \<or> int p - int rank \<in> set idx)"

definition legs_in_range :: "nat \<Rightarrow> int list \<Rightarrow> bool" where
  "legs_in_range rank idx = (\<forall>x\<in>set idx. - int rank \<le> x \<and> x < int rank)"

subsection \<open>left_multiply and right_multiply\<close>

text \<open>
  \<open>mats\<close> is a dictionary from labels to matrices. The body of the loop gives the
  blocks appended for one block: none when the label is not a key. The methods assign the
  new list to \<open>self.blocks\<close>; the model returns the collection with its new blocks.
\<close>

definition left_multiply_block ::
  "('q \<rightharpoonup> ndarray) \<Rightarrow> 'q sub_tensor \<Rightarrow> py_error + 'q sub_tensor list" where
  "left_multiply_block mats block =
     (case py_index (q_labels block) 0 of
        Inl e \<Rightarrow> Inl e
      | Inr q_label_r \<Rightarrow>
          (case mats q_label_r of
             None \<Rightarrow> Inr []
           | Some r \<Rightarrow>
               (case tensordot r (reduced block) [1] [0] of
                  Inl e \<Rightarrow> Inl e
                | Inr mat \<Rightarrow>
                    (case SubTensor_init (q_labels block) mat of
                       Inl e \<Rightarrow> Inl e
                     | Inr b \<Rightarrow> Inr [b]))))"

definition left_multiply ::
  "'q sparse_tensor \<Rightarrow> ('q \<rightharpoonup> ndarray) \<Rightarrow> py_error + 'q sparse_tensor" where
  "left_multiply t mats =
     (case traverse (left_multiply_block mats) (blocks t) of
        Inl e \<Rightarrow> Inl e
      | Inr bss \<Rightarrow> Inr (t\<lparr>blocks := concat bss\<rparr>))"

definition right_multiply_block ::
  "('q \<rightharpoonup> ndarray) \<Rightarrow> 'q sub_tensor \<Rightarrow> py_error + 'q sub_tensor list" where
  "right_multiply_block mats block =
     (case py_index (q_labels block) (- 1) of
        Inl e \<Rightarrow> Inl e
      | Inr q_label_l \<Rightarrow>
          (case mats q_label_l of
             None \<Rightarrow> Inr []
           | Some l \<Rightarrow>
               (case tensordot (reduced block) l [int (block_rank block) - 1] [0] of
                  Inl e \<Rightarrow> Inl e
                | Inr mat \<Rightarrow>
                    (case SubTensor_init (q_labels block) mat of
                       Inl e \<Rightarrow> Inl e
                     | Inr b \<Rightarrow> Inr [b]))))"

definition right_multiply ::
  "'q sparse_tensor \<Rightarrow> ('q \<rightharpoonup> ndarray) \<Rightarrow> py_error + 'q sparse_tensor" where
  "right_multiply t mats =
     (case traverse (right_multiply_block mats) (blocks t) of
        Inl e \<Rightarrow> Inl e
      | Inr bss \<Rightarrow> Inr (t\<lparr>blocks := concat bss\<rparr>))"

text \<open>The relation of an old block to the block that replaces it.\<close>

definition left_product :: "('q \<rightharpoonup> ndarray) \<Rightarrow> 'q sub_tensor \<Rightarrow> 'q sub_tensor \<Rightarrow> bool" where
  "left_product mats b b' =
     (q_labels b' = q_labels b
      \<and> (\<exists>r. mats (hd (q_labels b)) = Some r
             \<and> tensordot r (reduced b) [1] [0] = Inr (reduced b')))"

definition right_product :: "('q \<rightharpoonup> ndarray) \<Rightarrow> 'q sub_tensor \<Rightarrow> 'q sub_tensor \<Rightarrow> bool" where
  "right_product mats b b' =
     (q_labels b' = q_labels b
      \<and> (\<exists>l. mats (last (q_labels b)) = Some l
             \<and> tensordot (reduced b) l [int (length (q_labels b)) - 1] [0] = Inr (reduced b')))"

subsection \<open>init_from_state_info\<close>

text \<open>
  A StateInfo is read through its dictionary \<open>quanta\<close> from labels to dimensions, in
  insertion order: an association list. \<open>r[kr]\<close> looks the dimension up and raises
  KeyError for a label that is not a key.

  The source tests \<open>kr in r.quanta.items()\<close>. The items view of a dictionary holds
  its (key, value) pairs, and \<open>in\<close> compares the label \<open>kr\<close> with each of them by
  equality. The values compared are therefore of two kinds, labels and pairs, and a label
  is never equal to a pair.
\<close>

type_synonym 'q state_info = "('q \<times> nat) list"

datatype 'q py_value = Label 'q | Item 'q nat

definition quanta_items :: "'q state_info \<Rightarrow> 'q py_value list" where
  "quanta_items r = map (\<lambda>(k, v). Item k v) r"

definition state_info_get :: "'q state_info \<Rightarrow> 'q \<Rightarrow> py_error + nat" where
  "state_info_get r k = (case map_of r k of None \<Rightarrow> Inl KeyError | Some v \<Rightarrow> Inr v)"

text \<open>The body of the two nested loops: the blocks appended for one pair of entries.\<close>

definition init_pair ::
  "('q \<Rightarrow> 'q \<Rightarrow> 'q) \<Rightarrow> 'q state_info \<Rightarrow> ('q \<times> nat) \<times> ('q \<times> nat)
     \<Rightarrow> py_error + 'q sub_tensor list" where
  "init_pair qadd r p =
     (case p of ((kl, vl), (km, vm)) \<Rightarrow>
        (let kr = qadd kl km in
         if Label kr \<in> set (quanta_items r) then
           (case state_info_get r kr of
              Inl e \<Rightarrow> Inl e
            | Inr vr \<Rightarrow>
                (case SubTensor_init [kl, km, kr] (nd_zeros [vl, vm, vr]) of
                   Inl e \<Rightarrow> Inl e
                 | Inr b \<Rightarrow> Inr [b]))
         else Inr []))"

text \<open>\<open>sz0\<close> stands for the label \<open>SZ()\<close> passed as \<open>delta_quantum\<close>.\<close>

definition init_from_state_info ::
  "('q \<Rightarrow> 'q \<Rightarrow> 'q) \<Rightarrow> 'q \<Rightarrow> 'q state_info \<Rightarrow> 'q state_info \<Rightarrow> 'q state_info
     \<Rightarrow> py_error + 'q sparse_tensor" where
  "init_from_state_info qadd sz0 l m r =
     (case traverse (init_pair qadd r) (List.product l m) of
        Inl e \<Rightarrow> Inl e
      | Inr bss \<Rightarrow> SparseTensor_init (concat bss) (Some ThreeIndexMPSTensor) (Some sz0))"

text \<open>What the specification asks of \<open>init_from_state_info\<close>, in its words: for every
  pair \<open>(l, m)\<close> of labels whose sum \<open>r = l + m\<close> is present in the right map, a
  zero-filled block with labels \<open>(l, m, r)\<close> and shape \<open>(dim l, dim m, dim r)\<close>.\<close>

definition init_from_state_info_spec ::
  "('q \<Rightarrow> 'q \<Rightarrow> 'q) \<Rightarrow> 'q state_info \<Rightarrow> 'q state_info \<Rightarrow> 'q state_info
     \<Rightarrow> 'q sub_tensor list" where
  "init_from_state_info_spec qadd l m r =
     concat (map (\<lambda>((kl, vl), (km, vm)).
        (case map_of r (qadd kl km) of
           None \<Rightarrow> []
         | Some vr \<Rightarrow> [\<lparr>q_labels = [kl, km, qadd kl km], reduced = nd_zeros [vl, vm, vr]\<rparr>]))
       (List.product l m))"

subsection \<open>truncate_singular_values\<close>

text \<open>
  Singular values are real numbers; an array of them is a list. An entry of \<open>ss\<close> is
  the triple (group, index in the group, value).
\<close>

type_synonym sv_entry = "nat \<times> nat \<times> real"

definition sv_val :: "sv_entry \<Rightarrow> real" where
  "sv_val x = snd (snd x)"

definition sv_pos :: "sv_entry \<Rightarrow> nat \<times> nat" where
  "sv_pos x = (fst x, fst (snd x))"

text \<open>\<open>[(i, j, v) for i, ps in enumerate(svd_s) for j, v in enumerate(ps)]\<close>\<close>

definition enumerate_svd :: "real list list \<Rightarrow> sv_entry list" where
  "enumerate_svd svd_s =
     concat (map (\<lambda>(i, ps). map (\<lambda>(j, v). (i, j, v)) (enumerate 0 ps)) (enumerate 0 svd_s))"

text \<open>The slice \<open>xs[:k]\<close>: the first \<open>k\<close> elements for \<open>k \<ge> 0\<close>, and all but the
  last \<open>-k\<close> elements for a negative \<open>k\<close>.\<close>

definition py_slice_to :: "int \<Rightarrow> 'a list \<Rightarrow> 'a list" where
  "py_slice_to k xs = (if 0 \<le> k then take (nat k) xs else take (length xs - nat (- k)) xs)"

text \<open>\<open>ss.sort(key=lambda x: -x[2])\<close>, a stable sort, as \<open>sort_key\<close> is.\<close>

definition ss_sorted :: "real list list \<Rightarrow> sv_entry list" where
  "ss_sorted svd_s = sort_key (\<lambda>x. - sv_val x) (enumerate_svd svd_s)"

text \<open>\<open>ss_trunc\<close> after the filter and the slice, before it is sorted again.\<close>

definition ss_kept :: "real list list \<Rightarrow> int \<Rightarrow> real \<Rightarrow> sv_entry list" where
  "ss_kept svd_s k cutoff =
     (let t = filter (\<lambda>x. sv_val x \<ge> cutoff) (ss_sorted svd_s)
      in if k \<noteq> - 1 then py_slice_to k t else t)"

text \<open>\<open>ss_trunc.sort(key=lambda x: (x[0], x[1]))\<close>\<close>

definition ss_trunc :: "real list list \<Rightarrow> int \<Rightarrow> real \<Rightarrow> sv_entry list" where
  "ss_trunc svd_s k cutoff = sort_key sv_pos (ss_kept svd_s k cutoff)"

text \<open>\<open>itertools.groupby\<close>: the maximal runs of consecutive elements with equal key.\<close>

function groupby :: "('a \<Rightarrow> 'k) \<Rightarrow> 'a list \<Rightarrow> ('k \<times> 'a list) list" where
  "groupby f [] = []"
| "groupby f (x # xs) =
     (f x, x # takeWhile (\<lambda>y. f y = f x) xs) # groupby f (dropWhile (\<lambda>y. f y = f x) xs)"
  by pat_completeness auto
termination
  by (relation "measure (\<lambda>(f, xs). length xs)") (auto simp: length_dropWhile_le le_imp_less_Suc)

text \<open>The state of the two loops: \<open>svd_r\<close>, \<open>gls\<close> (both start as lists of
  \<open>None\<close>) and \<open>error\<close>. The body of the first loop, for the group \<open>g\<close> of key
  \<open>ik\<close>; \<open>ik\<close> is the first component of an entry of \<open>ss\<close> and so below
  \<open>len(svd_s)\<close>, and the indices of \<open>gl\<close> are below \<open>len(svd_s[ik])\<close>.\<close>

type_synonym trunc_state = "real list option list \<times> nat list option list \<times> real"

definition group_step :: "real list list \<Rightarrow> trunc_state \<Rightarrow> nat \<times> sv_entry list \<Rightarrow> trunc_state" where
  "group_step svd_s st p =
     (case st of (svd_r, gls, err) \<Rightarrow>
      case p of (ik, g) \<Rightarrow>
        (let gl = map (\<lambda>ig. fst (snd ig)) g;
             gl_inv = filter (\<lambda>j. j \<notin> set gl) [0..<length (svd_s ! ik)]
         in (svd_r[ik := Some (map (\<lambda>j. svd_s ! ik ! j) gl)],
             gls[ik := Some gl],
             err + sum_list (map (\<lambda>j. (svd_s ! ik ! j)\<^sup>2) gl_inv))))"

text \<open>The body of the second loop.\<close>

definition rest_step :: "real list list \<Rightarrow> nat list option list \<Rightarrow> real \<Rightarrow> nat \<Rightarrow> real" where
  "rest_step svd_s gls err ik =
     (if gls ! ik = None then err + sum_list (map (\<lambda>v. v\<^sup>2) (svd_s ! ik)) else err)"

text \<open>The two loops; \<open>error\<close> is returned here as it stands before the square root.\<close>

definition truncate_loops ::
  "real list list \<Rightarrow> int \<Rightarrow> real \<Rightarrow> real list option list \<times> nat list option list \<times> real" where
  "truncate_loops svd_s k cutoff =
     (case foldl (group_step svd_s)
             (replicate (length svd_s) None, replicate (length svd_s) None, 0)
             (groupby fst (ss_trunc svd_s k cutoff)) of
        (svd_r, gls, err) \<Rightarrow>
          (svd_r, gls, foldl (rest_step svd_s gls) err [0..<length svd_s]))"

definition truncate_singular_values ::
  "real list list \<Rightarrow> int \<Rightarrow> real \<Rightarrow> real list option list \<times> nat list option list \<times> real" where
  "truncate_singular_values svd_s k cutoff =
     (case truncate_loops svd_s k cutoff of (svd_r, gls, err) \<Rightarrow> (svd_r, gls, sqrt err))"

text \<open>Notions used to state what the loops compute: the entries of group \<open>i\<close>, the
  indices of group \<open>i\<close> whose entry is in a set \<open>K\<close> of entries, in ascending order,
  and the sum of squares that the first loop adds for a group.\<close>

definition sv_row :: "real list list \<Rightarrow> nat \<Rightarrow> sv_entry list" where
  "sv_row svd_s i = map (\<lambda>j. (i, j, svd_s ! i ! j)) [0..<length (svd_s ! i)]"

definition kept_idx :: "real list list \<Rightarrow> sv_entry set \<Rightarrow> nat \<Rightarrow> nat list" where
  "kept_idx svd_s K i = filter (\<lambda>j. (i, j, svd_s ! i ! j) \<in> K) [0..<length (svd_s ! i)]"

definition discarded_sq :: "real list list \<Rightarrow> nat \<Rightarrow> nat list \<Rightarrow> real" where
  "discarded_sq svd_s ik gl =
     sum_list (map (\<lambda>j. (svd_s ! ik ! j)\<^sup>2) (filter (\<lambda>j. j \<notin> set gl) [0..<length (svd_s ! ik)]))"

text \<open>The claims about the truncation, in the words of the specification: a set \<open>S\<close>
  is a top \<open>k\<close> of the entries \<open>xs\<close> when it holds \<open>min k (length xs)\<close> of them and
  no entry outside \<open>S\<close> has a larger value than an entry in \<open>S\<close>. The global top
  \<open>k\<close> of the source is the first \<open>k\<close> entries of the sorted \<open>ss\<close>; the entries
  kept are those of them with a value of at least \<open>cutoff\<close>.\<close>

definition is_top_k :: "nat \<Rightarrow> sv_entry set \<Rightarrow> sv_entry list \<Rightarrow> bool" where
  "is_top_k k S xs =
     (S \<subseteq> set xs \<and> card S = min k (length xs)
      \<and> (\<forall>a\<in>S. \<forall>b\<in>set xs - S. sv_val b \<le> sv_val a))"

definition global_top :: "real list list \<Rightarrow> int \<Rightarrow> sv_entry set" where
  "global_top svd_s k =
     (if k = - 1 then set (enumerate_svd svd_s) else set (take (nat k) (ss_sorted svd_s)))"

definition kept_entries :: "real list list \<Rightarrow> int \<Rightarrow> real \<Rightarrow> sv_entry set" where
  "kept_entries svd_s k cutoff = {x \<in> global_top svd_s k. sv_val x \<ge> cutoff}"

text \<open>The third component of the result.\<close>

definition truncation_error :: "real list list \<Rightarrow> int \<Rightarrow> real \<Rightarrow> real" where
  "truncation_error svd_s k cutoff = snd (snd (truncate_singular_values svd_s k cutoff))"

section \<open>Construction and the shape tag\<close>

lemma traverse_sub_neg:
  "list_all block_ok bs \<Longrightarrow>
   traverse sub_neg bs =
     Inr (map (\<lambda>b. \<lparr>q_labels = q_labels b, reduced = nd_neg (reduced b)\<rparr>) bs)"
  by (induction bs)
     (auto simp: sub_neg_def SubTensor_init_def block_ok_def block_rank_def ndim_def nd_neg_def)

lemma traverse_sub_mul:
  "list_all block_ok bs \<Longrightarrow>
   traverse (\<lambda>b. sub_mul b c) bs =
     Inr (map (\<lambda>b. \<lparr>q_labels = q_labels b, reduced = nd_scale c (reduced b)\<rparr>) bs)"
  by (induction bs)
     (auto simp: sub_mul_def SubTensor_init_def block_ok_def block_rank_def ndim_def nd_scale_def)

lemma blocks_rank_map_labels:
  "blocks_rank (map (\<lambda>b. \<lparr>q_labels = q_labels b, reduced = f (reduced b)\<rparr>) bs) = blocks_rank bs"
  by (cases bs) (simp_all add: blocks_rank_def block_rank_def)

text \<open>
  C9. Constructing a collection with no shape tag gives the three-index state-tensor tag when
  the rank of the blocks (read off the first block) is 3, the four-index operator-tensor tag
  when it is 4, and raises the construction error for every other rank; with no blocks the
  rank reads as 0, so the construction fails as well.
\<close>

theorem construct_without_tag:
  "SparseTensor_init bs None dq =
     (if blocks_rank bs = 3 then
        Inr \<lparr>blocks = bs, ftype = ThreeIndexMPSTensor, delta_quantum = dq\<rparr>
      else if blocks_rank bs = 4 then
        Inr \<lparr>blocks = bs, ftype = FourIndexMPOTensor, delta_quantum = dq\<rparr>
      else Inl RuntimeError)
   \<and> SparseTensor_init [] None dq = Inl RuntimeError
   \<and> SparseTensor_init [] (Some t) dq = Inr \<lparr>blocks = [], ftype = t, delta_quantum = dq\<rparr>"
  by (simp add: SparseTensor_init_def blocks_rank_def)

theorem construct_without_tag_witness:
  "SparseTensor_init [\<lparr>q_labels = [0, 1, 1 :: int], reduced = \<lparr>shape = [1, 1, 1], data = [2]\<rparr>\<rparr>]
     None None =
     Inr \<lparr>blocks = [\<lparr>q_labels = [0, 1, 1], reduced = \<lparr>shape = [1, 1, 1], data = [2]\<rparr>\<rparr>],
          ftype = ThreeIndexMPSTensor, delta_quantum = None\<rparr>
   \<and> SparseTensor_init [\<lparr>q_labels = [0, 1 :: int], reduced = \<lparr>shape = [1, 1], data = [2]\<rparr>\<rparr>]
     None None = Inl RuntimeError
   \<and> SparseTensor_init ([] :: int sub_tensor list) None None = Inl RuntimeError"
  using construct_without_tag
    [of "[\<lparr>q_labels = [0, 1, 1 :: int], reduced = \<lparr>shape = [1, 1, 1], data = [2]\<rparr>\<rparr>]" None]
    construct_without_tag
    [of "[\<lparr>q_labels = [0, 1 :: int], reduced = \<lparr>shape = [1, 1], data = [2]\<rparr>\<rparr>]" None]
  by (simp add: blocks_rank_def block_rank_def)

text \<open>
  C10. For a collection of well-formed blocks, scalar multiplication keeps the shape tag.
  Negation builds its result with no tag: when the rank is neither 3 nor 4 (also with no
  blocks) it raises the construction error, whatever tag the collection carries, and for
  rank 3 or 4 the negated collection carries the default tag of that rank, whatever tag the
  original carried.
\<close>

theorem neg_drops_tag:
  assumes "list_all block_ok (blocks t)"
  shows "(\<exists>t'. sparse_mul t c = Inr t' \<and> ftype t' = ftype t)
    \<and> (st_rank t \<noteq> 3 \<and> st_rank t \<noteq> 4 \<longrightarrow> sparse_neg t = Inl RuntimeError)
    \<and> (st_rank t = 3 \<longrightarrow>
         (\<exists>t'. sparse_neg t = Inr t' \<and> ftype t' = ThreeIndexMPSTensor
            \<and> map q_labels (blocks t') = map q_labels (blocks t)
            \<and> map reduced (blocks t') = map (nd_neg \<circ> reduced) (blocks t)))
    \<and> (st_rank t = 4 \<longrightarrow>
         (\<exists>t'. sparse_neg t = Inr t' \<and> ftype t' = FourIndexMPOTensor
            \<and> map q_labels (blocks t') = map q_labels (blocks t)
            \<and> map reduced (blocks t') = map (nd_neg \<circ> reduced) (blocks t)))"
proof -
  have m: "\<exists>t'. sparse_mul t c = Inr t' \<and> ftype t' = ftype t"
    using assms by (simp add: sparse_mul_def traverse_sub_mul SparseTensor_init_def)
  have n: "sparse_neg t =
      SparseTensor_init (map (\<lambda>b. \<lparr>q_labels = q_labels b, reduced = nd_neg (reduced b)\<rparr>) (blocks t))
        None None"
    using assms by (simp add: sparse_neg_def traverse_sub_neg)
  have r: "blocks_rank (map (\<lambda>b. \<lparr>q_labels = q_labels b, reduced = nd_neg (reduced b)\<rparr>) (blocks t))
      = st_rank t"
    by (simp add: blocks_rank_map_labels st_rank_def)
  have e: "st_rank t \<noteq> 3 \<and> st_rank t \<noteq> 4 \<longrightarrow> sparse_neg t = Inl RuntimeError"
    by (simp add: n SparseTensor_init_def r)
  have t3: "st_rank t = 3 \<longrightarrow>
         (\<exists>t'. sparse_neg t = Inr t' \<and> ftype t' = ThreeIndexMPSTensor
            \<and> map q_labels (blocks t') = map q_labels (blocks t)
            \<and> map reduced (blocks t') = map (nd_neg \<circ> reduced) (blocks t))"
    by (simp add: n SparseTensor_init_def r comp_def)
  have t4: "st_rank t = 4 \<longrightarrow>
         (\<exists>t'. sparse_neg t = Inr t' \<and> ftype t' = FourIndexMPOTensor
            \<and> map q_labels (blocks t') = map q_labels (blocks t)
            \<and> map reduced (blocks t') = map (nd_neg \<circ> reduced) (blocks t))"
    by (simp add: n SparseTensor_init_def r comp_def)
  from m e t3 t4 show ?thesis by blast
qed

theorem neg_drops_tag_witness:
  "sparse_neg \<lparr>blocks = [\<lparr>q_labels = [0, 1 :: int], reduced = \<lparr>shape = [1, 1], data = [2]\<rparr>\<rparr>],
       ftype = LeftFusedMPSTensor, delta_quantum = None\<rparr> = Inl RuntimeError
   \<and> sparse_neg \<lparr>blocks = ([] :: int sub_tensor list), ftype = Scalar, delta_quantum = None\<rparr>
       = Inl RuntimeError
   \<and> (\<exists>t'. sparse_neg \<lparr>blocks = [\<lparr>q_labels = [0, 1, 1 :: int],
                                   reduced = \<lparr>shape = [1, 1, 1], data = [2]\<rparr>\<rparr>],
       ftype = RightFusedMPSTensor, delta_quantum = None\<rparr> = Inr t'
       \<and> ftype t' = ThreeIndexMPSTensor)
   \<and> (\<exists>t'. sparse_neg \<lparr>blocks = [\<lparr>q_labels = [0, 1, 1, 0 :: int],
                                   reduced = \<lparr>shape = [1, 1, 1, 1], data = [2]\<rparr>\<rparr>],
       ftype = TwoSiteMPSTensor, delta_quantum = None\<rparr> = Inr t'
       \<and> ftype t' = FourIndexMPOTensor)"
proof -
  have a: "sparse_neg \<lparr>blocks = [\<lparr>q_labels = [0, 1 :: int], reduced = \<lparr>shape = [1, 1], data = [2]\<rparr>\<rparr>],
       ftype = LeftFusedMPSTensor, delta_quantum = None\<rparr> = Inl RuntimeError"
    using neg_drops_tag
      [of "\<lparr>blocks = [\<lparr>q_labels = [0, 1 :: int], reduced = \<lparr>shape = [1, 1], data = [2]\<rparr>\<rparr>],
         ftype = LeftFusedMPSTensor, delta_quantum = None\<rparr>" 1]
    by (simp add: block_ok_def block_rank_def ndim_def st_rank_def blocks_rank_def)
  have b: "sparse_neg \<lparr>blocks = ([] :: int sub_tensor list), ftype = Scalar, delta_quantum = None\<rparr>
       = Inl RuntimeError"
    using neg_drops_tag
      [of "\<lparr>blocks = ([] :: int sub_tensor list), ftype = Scalar, delta_quantum = None\<rparr>" 1]
    by (simp add: st_rank_def blocks_rank_def)
  have c: "\<exists>t'. sparse_neg \<lparr>blocks = [\<lparr>q_labels = [0, 1, 1 :: int],
                                   reduced = \<lparr>shape = [1, 1, 1], data = [2]\<rparr>\<rparr>],
       ftype = RightFusedMPSTensor, delta_quantum = None\<rparr> = Inr t'
       \<and> ftype t' = ThreeIndexMPSTensor"
    using neg_drops_tag
      [of "\<lparr>blocks = [\<lparr>q_labels = [0, 1, 1 :: int],
                                   reduced = \<lparr>shape = [1, 1, 1], data = [2]\<rparr>\<rparr>],
         ftype = RightFusedMPSTensor, delta_quantum = None\<rparr>" 1]
    by (auto simp: block_ok_def block_rank_def ndim_def st_rank_def blocks_rank_def)
  have d: "\<exists>t'. sparse_neg \<lparr>blocks = [\<lparr>q_labels = [0, 1, 1, 0 :: int],
                                   reduced = \<lparr>shape = [1, 1, 1, 1], data = [2]\<rparr>\<rparr>],
       ftype = TwoSiteMPSTensor, delta_quantum = None\<rparr> = Inr t'
       \<and> ftype t' = FourIndexMPOTensor"
    using neg_drops_tag
      [of "\<lparr>blocks = [\<lparr>q_labels = [0, 1, 1, 0 :: int],
                                   reduced = \<lparr>shape = [1, 1, 1, 1], data = [2]\<rparr>\<rparr>],
         ftype = TwoSiteMPSTensor, delta_quantum = None\<rparr>" 1]
    by (auto simp: block_ok_def block_rank_def ndim_def st_rank_def blocks_rank_def)
  from a b c d show ?thesis by blast
qed

section \<open>Allocation from leg-shape maps\<close>

lemma label_not_in_items: "Label k \<notin> set (quanta_items r)"
  by (auto simp: quanta_items_def)

lemma traverse_init_pair: "traverse (init_pair qadd r) ps = Inr (map (\<lambda>_. []) ps)"
  by (induction ps) (auto simp: init_pair_def label_not_in_items split: prod.splits)

lemma init_from_state_info_empty:
  "init_from_state_info qadd sz0 l m r =
     Inr \<lparr>blocks = [], ftype = ThreeIndexMPSTensor, delta_quantum = Some sz0\<rparr>"
  by (simp add: init_from_state_info_def traverse_init_pair SparseTensor_init_def)

text \<open>
  C8. The claim asks for a zero-filled block for every pair \<open>(l, m)\<close> whose sum is a
  label of the right map. With integer labels under addition and the maps
  \<open>left = mid = right = {0: 1}\<close> the pair \<open>(0, 0)\<close> has the sum \<open>0\<close>, a label of
  the right map, so one block with labels \<open>(0, 0, 0)\<close> and shape \<open>(1, 1, 1)\<close> is due.
  The source's membership test compares the sum with the (label, dimension) pairs of the
  right map and never holds: the collection returned has no block.
\<close>

theorem init_from_state_info_allocates_nothing:
  "init_from_state_info (+) 0 [(0 :: int, 1)] [(0, 1)] [(0, 1)] =
     Inr \<lparr>blocks = [], ftype = ThreeIndexMPSTensor, delta_quantum = Some 0\<rparr>
   \<and> init_from_state_info_spec (+) [(0 :: int, 1)] [(0, 1)] [(0, 1)] =
     [\<lparr>q_labels = [0, 0, 0], reduced = \<lparr>shape = [1, 1, 1], data = [0]\<rparr>\<rparr>]"
  by (simp add: init_from_state_info_empty init_from_state_info_spec_def nd_zeros_def)

section \<open>Truncation of singular values\<close>

lemma takeWhile_eq_filter_sorted:
  fixes f :: "'a \<Rightarrow> 'k::linorder"
  assumes "sorted (map f xs)" "\<forall>y\<in>set xs. k \<le> f y"
  shows "takeWhile (\<lambda>y. f y = k) xs = filter (\<lambda>y. f y = k) xs"
  using assms
proof (induction xs)
  case Nil then show ?case by simp
next
  case (Cons x xs)
  show ?case
  proof (cases "f x = k")
    case True
    with Cons show ?thesis by simp
  next
    case False
    with Cons.prems have "k < f x" by auto
    with Cons.prems have "\<forall>y\<in>set xs. f y \<noteq> k" by fastforce
    then have "filter (\<lambda>y. f y = k) xs = []" by (simp add: filter_empty_conv)
    with False show ?thesis by simp
  qed
qed

lemma dropWhile_eq_filter_sorted:
  fixes f :: "'a \<Rightarrow> 'k::linorder"
  assumes "sorted (map f xs)" "\<forall>y\<in>set xs. k \<le> f y"
  shows "dropWhile (\<lambda>y. f y = k) xs = filter (\<lambda>y. f y \<noteq> k) xs"
  using assms
proof (induction xs)
  case Nil then show ?case by simp
next
  case (Cons x xs)
  show ?case
  proof (cases "f x = k")
    case True
    with Cons show ?thesis by simp
  next
    case False
    with Cons.prems have "k < f x" by auto
    with Cons.prems have "\<forall>y\<in>set xs. f y \<noteq> k" by fastforce
    then have "filter (\<lambda>y. f y \<noteq> k) xs = xs" by (simp add: filter_id_conv)
    with False show ?thesis by simp
  qed
qed

lemma groupby_sorted_map_of:
  fixes f :: "'a \<Rightarrow> 'k::linorder"
  shows "sorted (map f xs) \<Longrightarrow>
    map_of (groupby f xs) k =
      (if k \<in> f ` set xs then Some (filter (\<lambda>y. f y = k) xs) else None)"
proof (induction f xs rule: groupby.induct)
  case (1 f) then show ?case by simp
next
  case (2 f x xs)
  let ?d = "dropWhile (\<lambda>y. f y = f x) xs"
  from "2.prems" have s: "sorted (map f xs)" and lb: "\<forall>y\<in>set xs. f x \<le> f y" by auto
  have d: "?d = filter (\<lambda>y. f y \<noteq> f x) xs"
    using dropWhile_eq_filter_sorted[OF s lb] .
  have t: "takeWhile (\<lambda>y. f y = f x) xs = filter (\<lambda>y. f y = f x) xs"
    using takeWhile_eq_filter_sorted[OF s lb] .
  have sd: "sorted (map f ?d)" unfolding d using s by (simp add: sorted_filter)
  note ih = "2.IH"[OF sd]
  show ?case
  proof (cases "k = f x")
    case True
    then show ?thesis by (simp add: t)
  next
    case False
    have "filter (\<lambda>y. f y = k) (filter (\<lambda>y. f y \<noteq> f x) xs) = filter (\<lambda>y. f y = k) xs"
      using False by (auto intro: filter_cong)
    moreover have "k \<in> f ` set (filter (\<lambda>y. f y \<noteq> f x) xs) \<longleftrightarrow> k \<in> f ` set xs"
      using False by auto
    ultimately show ?thesis using False ih by (simp add: d)
  qed
qed

lemma groupby_sorted_keys:
  fixes f :: "'a \<Rightarrow> 'k::linorder"
  shows "sorted (map f xs) \<Longrightarrow>
    distinct (map fst (groupby f xs)) \<and> set (map fst (groupby f xs)) = f ` set xs"
proof (induction f xs rule: groupby.induct)
  case (1 f) then show ?case by simp
next
  case (2 f x xs)
  let ?d = "dropWhile (\<lambda>y. f y = f x) xs"
  from "2.prems" have s: "sorted (map f xs)" and lb: "\<forall>y\<in>set xs. f x \<le> f y" by auto
  have d: "?d = filter (\<lambda>y. f y \<noteq> f x) xs"
    using dropWhile_eq_filter_sorted[OF s lb] .
  have sd: "sorted (map f ?d)" unfolding d using s by (simp add: sorted_filter)
  note ih = "2.IH"[OF sd]
  have "f ` set ?d = f ` set xs - {f x}" unfolding d by auto
  with ih show ?case by auto
qed

lemma map_upt_update:
  "ik < n \<Longrightarrow> (map F [0..<n])[ik := v] = map (F(ik := v)) [0..<n]"
  by (rule nth_equalityI) (auto simp: nth_list_update)

lemma group_step_fold:
  assumes "distinct (map fst gs)" "\<forall>i\<in>set (map fst gs). i < n"
  shows "foldl (group_step svd_s) (replicate n None, replicate n None, 0) gs =
     (map (\<lambda>i. map_option (\<lambda>g. map (\<lambda>j. svd_s ! i ! j) (map (\<lambda>ig. fst (snd ig)) g)) (map_of gs i)) [0..<n],
      map (\<lambda>i. map_option (map (\<lambda>ig. fst (snd ig))) (map_of gs i)) [0..<n],
      sum_list (map (\<lambda>p. discarded_sq svd_s (fst p) (map (\<lambda>ig. fst (snd ig)) (snd p))) gs))"
  using assms
proof (induction gs rule: rev_induct)
  case Nil
  show ?case by (simp add: map_replicate_const)
next
  case (snoc p gs)
  obtain ik g where p: "p = (ik, g)" by (cases p)
  from snoc.prems p have ik: "ik < n" and nk: "ik \<notin> fst ` set gs" and
    d: "distinct (map fst gs)" and b: "\<forall>i\<in>set (map fst gs). i < n" by auto
  have mo: "\<And>i. map_of (gs @ [(ik, g)]) i = (if i = ik then Some g else map_of gs i)"
  proof -
    fix i
    have "map_of gs ik = None" using nk by (simp add: map_of_eq_None_iff)
    then show "map_of (gs @ [(ik, g)]) i = (if i = ik then Some g else map_of gs i)"
      by (auto simp: map_add_def split: option.splits)
  qed
  show ?case
    unfolding foldl_append snoc.IH[OF d b] p
    by (simp add: group_step_def Let_def map_upt_update[OF ik] mo discarded_sq_def fun_upd_def
        del: map_of_append cong: map_cong)
qed

lemma enumerate_row:
  "map (Pair i) (enumerate 0 ps) = map (\<lambda>j. (i, j, ps ! j)) [0..<length ps]"
  by (rule nth_equalityI) (auto simp: nth_enumerate_eq)

lemma enumerate_svd_rows:
  "enumerate_svd svd_s = concat (map (sv_row svd_s) [0..<length svd_s])"
proof -
  have "map (\<lambda>(i, ps). map (\<lambda>(j, v). (i, j, v)) (enumerate 0 ps)) (enumerate 0 svd_s)
      = map (sv_row svd_s) [0..<length svd_s]"
    by (rule nth_equalityI) (auto simp: nth_enumerate_eq enumerate_row sv_row_def)
  then show ?thesis by (simp add: enumerate_svd_def)
qed

lemma in_sv_row:
  "x \<in> set (sv_row svd_s i) \<longleftrightarrow>
     fst x = i \<and> fst (snd x) < length (svd_s ! i) \<and> snd (snd x) = svd_s ! i ! fst (snd x)"
  by (cases x) (auto simp: sv_row_def)

lemma in_enumerate_svd:
  "x \<in> set (enumerate_svd svd_s) \<longleftrightarrow>
     fst x < length svd_s \<and> fst (snd x) < length (svd_s ! fst x)
     \<and> snd (snd x) = svd_s ! fst x ! fst (snd x)"
  by (auto simp: enumerate_svd_rows in_sv_row)

lemma distinct_concat_map:
  "distinct is \<Longrightarrow> (\<And>i. i \<in> set is \<Longrightarrow> distinct (f i)) \<Longrightarrow>
   (\<And>i j. i \<in> set is \<Longrightarrow> j \<in> set is \<Longrightarrow> i \<noteq> j \<Longrightarrow> set (f i) \<inter> set (f j) = {}) \<Longrightarrow>
   distinct (concat (map f is))"
  by (induction "is") fastforce+

lemma distinct_enumerate_svd: "distinct (enumerate_svd svd_s)"
  unfolding enumerate_svd_rows
proof (rule distinct_concat_map)
  show "distinct [0..<length svd_s]" by simp
  show "distinct (sv_row svd_s i)" for i
    by (auto simp: sv_row_def distinct_map inj_on_def)
  show "set (sv_row svd_s i) \<inter> set (sv_row svd_s j) = {}" if "i \<noteq> j" for i j
    using that by (auto simp: in_sv_row)
qed

lemma set_ss_kept: "set (ss_kept svd_s k cutoff) \<subseteq> set (enumerate_svd svd_s)"
  by (auto simp: ss_kept_def ss_sorted_def py_slice_to_def Let_def dest: in_set_takeD)

lemma distinct_ss_kept: "distinct (ss_kept svd_s k cutoff)"
  by (simp add: ss_kept_def ss_sorted_def py_slice_to_def Let_def distinct_enumerate_svd)

lemma set_ss_trunc: "set (ss_trunc svd_s k cutoff) = set (ss_kept svd_s k cutoff)"
  by (simp add: ss_trunc_def)

lemma distinct_ss_trunc: "distinct (ss_trunc svd_s k cutoff)"
  by (simp add: ss_trunc_def distinct_ss_kept)

lemma sorted_pos_ss_trunc: "sorted (map sv_pos (ss_trunc svd_s k cutoff))"
  by (simp add: ss_trunc_def)

lemma sorted_fst_of_pos:
  "sorted (map sv_pos xs) \<Longrightarrow> sorted (map fst xs)"
  unfolding sorted_map
  by (erule sorted_wrt_mono_rel[rotated]) (auto simp: sv_pos_def less_eq_prod_def)

lemma sorted_idx_of_pos:
  "sorted (map sv_pos xs) \<Longrightarrow>
   sorted (map (\<lambda>ig. fst (snd ig)) (filter (\<lambda>x. fst x = i) xs))"
proof -
  assume "sorted (map sv_pos xs)"
  then have "sorted (map sv_pos (filter (\<lambda>x. fst x = i) xs))"
    by (simp add: sorted_map sorted_wrt_filter)
  then show ?thesis
    unfolding sorted_map
    by (rule sorted_wrt_mono_rel[rotated]) (auto simp: sv_pos_def less_eq_prod_def)
qed

lemma group_indices:
  assumes s: "sorted (map sv_pos T)" and d: "distinct T"
    and v: "set T \<subseteq> set (enumerate_svd svd_s)"
  shows "map (\<lambda>ig. fst (snd ig)) (filter (\<lambda>x. fst x = i) T) = kept_idx svd_s (set T) i"
proof (rule sorted_distinct_set_unique)
  show "sorted (map (\<lambda>ig. fst (snd ig)) (filter (\<lambda>x. fst x = i) T))"
    using s by (rule sorted_idx_of_pos)
  have "inj_on (\<lambda>ig. fst (snd ig)) (set (filter (\<lambda>x. fst x = i) T))"
  proof (rule inj_onI)
    fix x y
    assume x: "x \<in> set (filter (\<lambda>x. fst x = i) T)" and y: "y \<in> set (filter (\<lambda>x. fst x = i) T)"
      and e: "fst (snd x) = fst (snd y)"
    from x y v have "x \<in> set (enumerate_svd svd_s)" "y \<in> set (enumerate_svd svd_s)"
      "fst x = i" "fst y = i" by auto
    with e show "x = y" by (simp add: in_enumerate_svd prod_eq_iff)
  qed
  then show "distinct (map (\<lambda>ig. fst (snd ig)) (filter (\<lambda>x. fst x = i) T))"
    using d by (simp add: distinct_map)
  show "sorted (kept_idx svd_s (set T) i)" by (simp add: kept_idx_def sorted_wrt_filter)
  show "distinct (kept_idx svd_s (set T) i)" by (simp add: kept_idx_def)
  show "set (map (\<lambda>ig. fst (snd ig)) (filter (\<lambda>x. fst x = i) T)) = set (kept_idx svd_s (set T) i)"
  proof (intro set_eqI iffI)
    fix j assume "j \<in> set (map (\<lambda>ig. fst (snd ig)) (filter (\<lambda>x. fst x = i) T))"
    then obtain x where x: "x \<in> set T" "fst x = i" "fst (snd x) = j" by auto
    with v have "x \<in> set (enumerate_svd svd_s)" by auto
    with x have "j < length (svd_s ! i)" "x = (i, j, svd_s ! i ! j)"
      by (auto simp: in_enumerate_svd prod_eq_iff)
    with x show "j \<in> set (kept_idx svd_s (set T) i)" by (auto simp: kept_idx_def)
  next
    fix j assume "j \<in> set (kept_idx svd_s (set T) i)"
    then have "(i, j, svd_s ! i ! j) \<in> set T" by (simp add: kept_idx_def)
    then show "j \<in> set (map (\<lambda>ig. fst (snd ig)) (filter (\<lambda>x. fst x = i) T))" by force
  qed
qed

lemma kept_idx_empty:
  assumes v: "K \<subseteq> set (enumerate_svd svd_s)"
  shows "kept_idx svd_s K i = [] \<longleftrightarrow> i \<notin> fst ` K"
proof
  assume e: "kept_idx svd_s K i = []"
  show "i \<notin> fst ` K"
  proof
    assume "i \<in> fst ` K"
    then obtain x where x: "x \<in> K" "fst x = i" by auto
    with v have "x \<in> set (enumerate_svd svd_s)" by auto
    with x have "fst (snd x) < length (svd_s ! i)" "x = (i, fst (snd x), svd_s ! i ! fst (snd x))"
      by (auto simp: in_enumerate_svd prod_eq_iff)
    with x have "fst (snd x) \<in> set (kept_idx svd_s K i)" by (auto simp: kept_idx_def)
    with e show False by simp
  qed
next
  assume "i \<notin> fst ` K"
  then have "\<And>j. (i, j, svd_s ! i ! j) \<notin> K" by force
  then show "kept_idx svd_s K i = []" by (simp add: kept_idx_def)
qed

lemma rest_step_fold:
  "foldl (rest_step svd_s gls) e js =
     e + sum_list (map (\<lambda>i. if gls ! i = None then sum_list (map (\<lambda>v. v\<^sup>2) (svd_s ! i)) else 0) js)"
  by (induction js arbitrary: e) (simp_all add: rest_step_def)

lemma row_sum_as_discarded:
  "sum_list (map (\<lambda>v. v\<^sup>2) (svd_s ! i)) = discarded_sq svd_s i []"
proof -
  have "map (\<lambda>v. v\<^sup>2) (svd_s ! i) = map (\<lambda>j. (svd_s ! i ! j)\<^sup>2) [0..<length (svd_s ! i)]"
    by (rule nth_equalityI) auto
  then show ?thesis by (simp add: discarded_sq_def)
qed

lemma discarded_row:
  "discarded_sq svd_s i (kept_idx svd_s K i) =
     sum_list (map (\<lambda>x. (sv_val x)\<^sup>2) (filter (\<lambda>x. x \<notin> K) (sv_row svd_s i)))"
proof -
  have "filter (\<lambda>j. j \<notin> set (kept_idx svd_s K i)) [0..<length (svd_s ! i)] =
      filter (\<lambda>j. (i, j, svd_s ! i ! j) \<notin> K) [0..<length (svd_s ! i)]"
    by (rule filter_cong) (auto simp: kept_idx_def)
  then show ?thesis
    by (simp add: discarded_sq_def sv_row_def filter_map comp_def sv_val_def)
qed

lemma sum_list_concat_map:
  "sum_list (map f (concat xss)) = sum_list (map (\<lambda>xs. sum_list (map f xs)) xss)"
  for f :: "'a \<Rightarrow> real"
  by (induction xss) simp_all

lemma discarded_all:
  "sum_list (map (\<lambda>x. (sv_val x)\<^sup>2) (filter (\<lambda>x. x \<notin> K) (enumerate_svd svd_s))) =
     (\<Sum>i = 0..<length svd_s. discarded_sq svd_s i (kept_idx svd_s K i))"
  by (simp add: enumerate_svd_rows filter_concat sum_list_concat_map comp_def
      discarded_row interv_sum_list_conv_sum_set_nat)

lemma sum_outside:
  "finite S \<Longrightarrow> (\<Sum>i\<in>S. if i \<in> A then 0 else D i) = sum D (S - A)"
  for D :: "nat \<Rightarrow> real"
  by (rule sum.mono_neutral_cong_right) auto

lemma truncate_loops_eq:
  fixes svd_s k cutoff
  defines "K \<equiv> set (ss_kept svd_s k cutoff)"
  shows "truncate_loops svd_s k cutoff =
     (map (\<lambda>i. if kept_idx svd_s K i = [] then None
               else Some (map ((!) (svd_s ! i)) (kept_idx svd_s K i))) [0..<length svd_s],
      map (\<lambda>i. if kept_idx svd_s K i = [] then None else Some (kept_idx svd_s K i))
        [0..<length svd_s],
      sum_list (map (\<lambda>x. (sv_val x)\<^sup>2) (filter (\<lambda>x. x \<notin> K) (enumerate_svd svd_s))))"
proof -
  let ?T = "ss_trunc svd_s k cutoff"
  let ?gs = "groupby fst ?T"
  let ?n = "length svd_s"
  let ?idx = "\<lambda>ig :: sv_entry. fst (snd ig)"
  let ?D = "\<lambda>i. discarded_sq svd_s i (kept_idx svd_s K i)"
  have KT: "set ?T = K" by (simp add: K_def set_ss_trunc)
  have v: "set ?T \<subseteq> set (enumerate_svd svd_s)"
    using set_ss_kept[of svd_s k cutoff] by (simp add: set_ss_trunc)
  have vK: "K \<subseteq> set (enumerate_svd svd_s)" using v KT by simp
  have sp: "sorted (map sv_pos ?T)" by (rule sorted_pos_ss_trunc)
  have sf: "sorted (map fst ?T)" using sp by (rule sorted_fst_of_pos)
  have dT: "distinct ?T" by (rule distinct_ss_trunc)
  have keys: "distinct (map fst ?gs)" "set (map fst ?gs) = fst ` K"
    using groupby_sorted_keys[OF sf] KT by auto
  have kb: "\<forall>i\<in>set (map fst ?gs). i < ?n"
    using keys(2) vK by (auto simp: in_enumerate_svd subset_iff)
  have gi: "\<And>i. map ?idx (filter (\<lambda>x. fst x = i) ?T) = kept_idx svd_s K i"
    using group_indices[OF sp dT v] KT by simp
  have mo: "\<And>i. map_of ?gs i = (if i \<in> fst ` K then Some (filter (\<lambda>x. fst x = i) ?T) else None)"
    using groupby_sorted_map_of[OF sf] KT by simp
  have ke: "\<And>i. kept_idx svd_s K i = [] \<longleftrightarrow> i \<notin> fst ` K"
    using kept_idx_empty[OF vK] .
  have r: "map (\<lambda>i. map_option (\<lambda>g. map (\<lambda>j. svd_s ! i ! j) (map ?idx g)) (map_of ?gs i)) [0..<?n]
      = map (\<lambda>i. if kept_idx svd_s K i = [] then None
               else Some (map ((!) (svd_s ! i)) (kept_idx svd_s K i))) [0..<?n]"
    by (rule map_cong) (auto simp: mo gi ke simp del: map_map)
  have g: "map (\<lambda>i. map_option (map ?idx) (map_of ?gs i)) [0..<?n]
      = map (\<lambda>i. if kept_idx svd_s K i = [] then None else Some (kept_idx svd_s K i)) [0..<?n]"
    by (rule map_cong) (auto simp: mo gi ke)
  have mq: "map (\<lambda>p. discarded_sq svd_s (fst p) (map ?idx (snd p))) ?gs = map (\<lambda>p. ?D (fst p)) ?gs"
  proof (rule map_cong)
    fix p assume p: "p \<in> set ?gs"
    then have "map_of ?gs (fst p) = Some (snd p)"
      using keys(1) by (simp add: map_of_eq_Some_iff)
    then have "snd p = filter (\<lambda>x. fst x = fst p) ?T" by (simp add: mo split: if_splits)
    then show "discarded_sq svd_s (fst p) (map ?idx (snd p)) = ?D (fst p)" using gi by simp
  qed simp
  have "sum_list (map (\<lambda>p. discarded_sq svd_s (fst p) (map ?idx (snd p))) ?gs)
      = sum_list (map ?D (map fst ?gs))"
    by (simp only: mq map_map comp_def)
  also have "\<dots> = sum ?D (fst ` K)"
    using keys by (metis sum_list_distinct_conv_sum_set)
  finally have e1: "sum_list (map (\<lambda>p. discarded_sq svd_s (fst p) (map ?idx (snd p))) ?gs)
      = sum ?D (fst ` K)" .
  have m2: "map (\<lambda>i. if (map (\<lambda>i. if kept_idx svd_s K i = [] then None else Some (kept_idx svd_s K i))
                [0..<?n]) ! i = None
              then sum_list (map (\<lambda>v. v\<^sup>2) (svd_s ! i)) else 0) [0..<?n]
      = map (\<lambda>i. if i \<in> fst ` K then 0 else ?D i) [0..<?n]"
  proof (rule map_cong)
    fix i assume "i \<in> set [0..<?n]"
    then have i: "i < ?n" by simp
    show "(if (map (\<lambda>i. if kept_idx svd_s K i = [] then None else Some (kept_idx svd_s K i))
                [0..<?n]) ! i = None
              then sum_list (map (\<lambda>v. v\<^sup>2) (svd_s ! i)) else 0)
        = (if i \<in> fst ` K then 0 else ?D i)"
    proof (cases "i \<in> fst ` K")
      case True
      then show ?thesis using i ke by simp
    next
      case False
      then have "kept_idx svd_s K i = []" using ke by simp
      then show ?thesis using i False by (simp add: row_sum_as_discarded)
    qed
  qed simp
  have e2: "sum_list (map (\<lambda>i. if (map (\<lambda>i. if kept_idx svd_s K i = [] then None
                  else Some (kept_idx svd_s K i)) [0..<?n]) ! i = None
              then sum_list (map (\<lambda>v. v\<^sup>2) (svd_s ! i)) else 0) [0..<?n])
      = sum ?D ({0..<?n} - fst ` K)"
    unfolding m2 by (simp only: interv_sum_list_conv_sum_set_nat set_upt sum_outside finite_atLeastLessThan)
  have sub: "fst ` K \<subseteq> {0..<?n}"
    using vK by (auto simp: in_enumerate_svd subset_iff)
  have tot: "sum ?D (fst ` K) + sum ?D ({0..<?n} - fst ` K) = sum ?D {0..<?n}"
    using sum.subset_diff[OF sub, of ?D] by simp
  show ?thesis
    unfolding truncate_loops_def group_step_fold[OF keys(1) kb] r g e1 prod.case
      rest_step_fold e2 tot discarded_all ..
qed

lemma filter_eq_takeWhile_sorted:
  fixes f :: "'a \<Rightarrow> 'k::linorder"
  assumes "sorted (map f xs)" "\<And>x y. f x \<le> f y \<Longrightarrow> P y \<Longrightarrow> P x"
  shows "filter P xs = takeWhile P xs"
  using assms(1)
proof (induction xs)
  case Nil then show ?case by simp
next
  case (Cons x xs)
  show ?case
  proof (cases "P x")
    case True with Cons show ?thesis by simp
  next
    case False
    have "\<forall>y\<in>set xs. \<not> P y"
    proof
      fix y assume "y \<in> set xs"
      with Cons.prems have "f x \<le> f y" by auto
      with False assms(2) show "\<not> P y" by blast
    qed
    then have "filter P xs = []" by (simp add: filter_empty_conv)
    with False show ?thesis by simp
  qed
qed

lemma take_takeWhile_swap: "take n (takeWhile P xs) = takeWhile P (take n xs)"
proof (induction xs arbitrary: n)
  case Nil then show ?case by simp
next
  case (Cons x xs) then show ?case by (cases n) simp_all
qed

lemma sorted_ss_sorted: "sorted (map (\<lambda>x. - sv_val x) (ss_sorted svd_s))"
  by (simp add: ss_sorted_def)

lemma take_filter_cutoff:
  "take n (filter (\<lambda>x. sv_val x \<ge> cutoff) (ss_sorted svd_s)) =
     filter (\<lambda>x. sv_val x \<ge> cutoff) (take n (ss_sorted svd_s))"
proof -
  let ?P = "\<lambda>x. sv_val x \<ge> cutoff"
  let ?f = "\<lambda>x. - sv_val x"
  have m: "\<And>x y. ?f x \<le> ?f y \<Longrightarrow> ?P y \<Longrightarrow> ?P x" by simp
  have s: "sorted (map ?f (ss_sorted svd_s))" by (rule sorted_ss_sorted)
  have "sorted (map ?f (take n (ss_sorted svd_s)))"
    using s by (simp add: take_map[symmetric] sorted_wrt_take)
  then have "filter ?P (take n (ss_sorted svd_s)) = takeWhile ?P (take n (ss_sorted svd_s))"
    using m by (rule filter_eq_takeWhile_sorted)
  moreover have "filter ?P (ss_sorted svd_s) = takeWhile ?P (ss_sorted svd_s)"
    using s m by (rule filter_eq_takeWhile_sorted)
  ultimately show ?thesis by (simp add: take_takeWhile_swap)
qed

lemma set_ss_kept_eq:
  assumes "k = - 1 \<or> 0 \<le> k"
  shows "set (ss_kept svd_s k cutoff) = kept_entries svd_s k cutoff"
proof (cases "k = - 1")
  case True
  then show ?thesis
    by (auto simp: ss_kept_def kept_entries_def global_top_def ss_sorted_def)
next
  case False
  with assms have "0 \<le> k" by simp
  with False show ?thesis
    by (auto simp: ss_kept_def kept_entries_def global_top_def py_slice_to_def take_filter_cutoff)
qed

lemma global_top_is_top_k:
  assumes "0 \<le> k"
  shows "is_top_k (nat k) (global_top svd_s k) (enumerate_svd svd_s)"
proof -
  let ?xs = "ss_sorted svd_s"
  let ?n = "nat k"
  have g: "global_top svd_s k = set (take ?n ?xs)" using assms by (simp add: global_top_def)
  have sx: "set ?xs = set (enumerate_svd svd_s)" and lx: "length ?xs = length (enumerate_svd svd_s)"
    and dx: "distinct ?xs"
    by (simp_all add: ss_sorted_def distinct_enumerate_svd)
  have a: "set (take ?n ?xs) \<subseteq> set (enumerate_svd svd_s)"
    using sx by (auto dest: in_set_takeD)
  have "card (set (take ?n ?xs)) = length (take ?n ?xs)"
    using dx by (simp add: distinct_card)
  then have b: "card (set (take ?n ?xs)) = min ?n (length (enumerate_svd svd_s))"
    using lx by (simp add: min.commute)
  have "sorted (map (\<lambda>x. - sv_val x) (take ?n ?xs @ drop ?n ?xs))"
    using sorted_ss_sorted[of svd_s] by simp
  then have o: "\<forall>a\<in>set (take ?n ?xs). \<forall>b\<in>set (drop ?n ?xs). sv_val b \<le> sv_val a"
    unfolding map_append sorted_append by auto
  have "set ?xs = set (take ?n ?xs) \<union> set (drop ?n ?xs)"
    by (metis append_take_drop_id set_append)
  then have c: "\<forall>a\<in>set (take ?n ?xs). \<forall>b\<in>set (enumerate_svd svd_s) - set (take ?n ?xs).
      sv_val b \<le> sv_val a"
    using o sx by auto
  show ?thesis unfolding is_top_k_def g using a b c by blast
qed

lemma example_loops:
  "truncate_loops [[5, 3, 1], [4, 2]] 3 0 = ([Some [5, 3], Some [4]], [Some [0, 1], Some [0]], 5)"
  by code_simp

lemma truncate_singular_values_eq:
  "truncate_singular_values svd_s k cutoff =
     (map (\<lambda>i. if kept_idx svd_s (set (ss_kept svd_s k cutoff)) i = [] then None
               else Some (map ((!) (svd_s ! i)) (kept_idx svd_s (set (ss_kept svd_s k cutoff)) i)))
        [0..<length svd_s],
      map (\<lambda>i. if kept_idx svd_s (set (ss_kept svd_s k cutoff)) i = [] then None
               else Some (kept_idx svd_s (set (ss_kept svd_s k cutoff)) i))
        [0..<length svd_s],
      sqrt (sum_list (map (\<lambda>x. (sv_val x)\<^sup>2)
        (filter (\<lambda>x. x \<notin> set (ss_kept svd_s k cutoff)) (enumerate_svd svd_s)))))"
  unfolding truncate_singular_values_def truncate_loops_eq prod.case ..

lemma truncation_error_eq:
  "truncation_error svd_s k cutoff =
     sqrt (sum_list (map (\<lambda>x. (sv_val x)\<^sup>2)
        (filter (\<lambda>x. x \<notin> set (ss_kept svd_s k cutoff)) (enumerate_svd svd_s))))"
  unfolding truncation_error_def truncate_singular_values_eq snd_conv ..

lemma sum_sq_filter_mono:
  "(\<And>x. P x \<Longrightarrow> Q x) \<Longrightarrow>
   sum_list (map (\<lambda>x. (sv_val x)\<^sup>2) (filter P xs)) \<le> sum_list (map (\<lambda>x. (sv_val x)\<^sup>2) (filter Q xs))"
proof (induction xs)
  case Nil then show ?case by simp
next
  case (Cons x xs)
  then have "sum_list (map (\<lambda>x. (sv_val x)\<^sup>2) (filter P xs))
      \<le> sum_list (map (\<lambda>x. (sv_val x)\<^sup>2) (filter Q xs))" by simp
  moreover from this have "sum_list (map (\<lambda>x. (sv_val x)\<^sup>2) (filter P xs))
      \<le> (sv_val x)\<^sup>2 + sum_list (map (\<lambda>x. (sv_val x)\<^sup>2) (filter Q xs))"
    by (rule add_increasing[OF zero_le_power2])
  ultimately show ?case using Cons.prems[of x] by (cases "P x"; cases "Q x") simp_all
qed

lemma ss_kept_mono:
  assumes "k1 = - 1 \<or> (0 \<le> k2 \<and> k2 \<le> k1)"
  shows "set (ss_kept svd_s k2 cutoff) \<subseteq> set (ss_kept svd_s k1 cutoff)"
proof (cases "k1 = - 1")
  case True
  then show ?thesis
    by (auto simp: ss_kept_def py_slice_to_def Let_def dest: in_set_takeD)
next
  case False
  with assms have k: "0 \<le> k2" "k2 \<le> k1" by auto
  then have "nat k2 \<le> nat k1" by simp
  then have "set (take (nat k2) (filter (\<lambda>x. cutoff \<le> sv_val x) (ss_sorted svd_s)))
      \<subseteq> set (take (nat k1) (filter (\<lambda>x. cutoff \<le> sv_val x) (ss_sorted svd_s)))"
    by (rule set_take_subset_set_take)
  with k False show ?thesis
    by (auto simp: ss_kept_def py_slice_to_def Let_def)
qed

lemma ss_kept_all:
  assumes "\<forall>ps\<in>set svd_s. \<forall>v\<in>set ps. 0 \<le> v"
  shows "set (ss_kept svd_s (- 1) 0) = set (enumerate_svd svd_s)"
proof -
  have "\<forall>x\<in>set (enumerate_svd svd_s). 0 \<le> sv_val x"
    using assms by (auto simp: in_enumerate_svd sv_val_def dest!: bspec[OF _ nth_mem])
  then show ?thesis by (auto simp: ss_kept_def ss_sorted_def)
qed

text \<open>
  C1. For \<open>k = -1\<close> or \<open>k \<ge> 0\<close> (a bond dimension, or \<open>-1\<close> for no bound),
  \<open>truncate_singular_values\<close> keeps exactly the entries (group, index, value) whose value
  is at least \<open>cutoff\<close> and that are among the global top \<open>k\<close> entries over all
  groups (\<open>k = -1\<close>: all entries): for each group the kept indices, in ascending order, and
  the values at them, and \<open>None\<close> for a group with no kept entry. The global top \<open>k\<close>
  is a set of \<open>min k n\<close> of the \<open>n\<close> entries none of which is smaller than an entry
  outside the set. The error returned is the square root of the sum of the squares of all
  entries that are not kept, over all groups. For the groups \<open>[5, 3, 1]\<close> and
  \<open>[4, 2]\<close> with \<open>k = 3\<close> and \<open>cutoff = 0\<close> the values kept are 5, 3 and 4, and
  the error is \<open>sqrt 5\<close>.
\<close>

theorem truncate_keeps_global_top:
  assumes "k = - 1 \<or> 0 \<le> k"
  shows "(0 \<le> k \<longrightarrow> is_top_k (nat k) (global_top svd_s k) (enumerate_svd svd_s))
    \<and> truncate_singular_values svd_s k cutoff =
        (map (\<lambda>i. if kept_idx svd_s (kept_entries svd_s k cutoff) i = [] then None
                  else Some (map ((!) (svd_s ! i)) (kept_idx svd_s (kept_entries svd_s k cutoff) i)))
           [0..<length svd_s],
         map (\<lambda>i. if kept_idx svd_s (kept_entries svd_s k cutoff) i = [] then None
                  else Some (kept_idx svd_s (kept_entries svd_s k cutoff) i))
           [0..<length svd_s],
         sqrt (sum_list (map (\<lambda>x. (sv_val x)\<^sup>2)
           (filter (\<lambda>x. x \<notin> kept_entries svd_s k cutoff) (enumerate_svd svd_s)))))
    \<and> truncate_singular_values [[5, 3, 1], [4, 2]] 3 0 =
        ([Some [5, 3], Some [4]], [Some [0, 1], Some [0]], sqrt 5)"
proof -
  have a: "0 \<le> k \<longrightarrow> is_top_k (nat k) (global_top svd_s k) (enumerate_svd svd_s)"
    by (simp add: global_top_is_top_k)
  have b: "truncate_singular_values svd_s k cutoff =
        (map (\<lambda>i. if kept_idx svd_s (kept_entries svd_s k cutoff) i = [] then None
                  else Some (map ((!) (svd_s ! i)) (kept_idx svd_s (kept_entries svd_s k cutoff) i)))
           [0..<length svd_s],
         map (\<lambda>i. if kept_idx svd_s (kept_entries svd_s k cutoff) i = [] then None
                  else Some (kept_idx svd_s (kept_entries svd_s k cutoff) i))
           [0..<length svd_s],
         sqrt (sum_list (map (\<lambda>x. (sv_val x)\<^sup>2)
           (filter (\<lambda>x. x \<notin> kept_entries svd_s k cutoff) (enumerate_svd svd_s)))))"
    unfolding truncate_singular_values_eq set_ss_kept_eq[OF assms] ..
  have c: "truncate_singular_values [[5, 3, 1], [4, 2]] 3 0 =
        ([Some [5, 3], Some [4]], [Some [0, 1], Some [0]], sqrt 5)"
    by (simp add: truncate_singular_values_def example_loops)
  from a b c show ?thesis by blast
qed

text \<open>
  C4. With \<open>cutoff = 0\<close> the truncation error does not increase when the bound \<open>k\<close>
  is loosened (from \<open>k2 \<ge> 0\<close> to a larger \<open>k1\<close>, or to \<open>k1 = -1\<close>, no bound): a
  smaller \<open>k\<close> never gives a smaller error. With \<open>k = -1\<close> and \<open>cutoff = 0\<close> the
  error of a list of singular-value arrays (values that are not negative) is exactly 0.
\<close>

theorem truncation_error_monotone:
  "(k1 = - 1 \<or> (0 \<le> k2 \<and> k2 \<le> k1) \<longrightarrow>
      truncation_error svd_s k1 0 \<le> truncation_error svd_s k2 0)
   \<and> ((\<forall>ps\<in>set svd_s. \<forall>v\<in>set ps. 0 \<le> v) \<longrightarrow> truncation_error svd_s (- 1) 0 = 0)"
proof (intro conjI impI)
  assume "k1 = - 1 \<or> (0 \<le> k2 \<and> k2 \<le> k1)"
  then have "set (ss_kept svd_s k2 0) \<subseteq> set (ss_kept svd_s k1 0)" by (rule ss_kept_mono)
  then have "sum_list (map (\<lambda>x. (sv_val x)\<^sup>2)
        (filter (\<lambda>x. x \<notin> set (ss_kept svd_s k1 0)) (enumerate_svd svd_s)))
      \<le> sum_list (map (\<lambda>x. (sv_val x)\<^sup>2)
        (filter (\<lambda>x. x \<notin> set (ss_kept svd_s k2 0)) (enumerate_svd svd_s)))"
    by (intro sum_sq_filter_mono) auto
  then show "truncation_error svd_s k1 0 \<le> truncation_error svd_s k2 0"
    by (simp add: truncation_error_eq)
next
  assume "\<forall>ps\<in>set svd_s. \<forall>v\<in>set ps. 0 \<le> v"
  then have "set (ss_kept svd_s (- 1) 0) = set (enumerate_svd svd_s)" by (rule ss_kept_all)
  then show "truncation_error svd_s (- 1) 0 = 0"
    by (simp add: truncation_error_eq)
qed

lemma example_loops_1:
  "truncate_loops [[5, 3, 1], [4, 2]] 1 0 = ([Some [5], None], [Some [0], None], 30)"
  by code_simp

lemma example_loops_all:
  "truncate_loops [[5, 3, 1], [4, 2]] (- 1) 0 =
     ([Some [5, 3, 1], Some [4, 2]], [Some [0, 1, 2], Some [0, 1]], 0)"
  by code_simp

theorem truncation_error_monotone_witness:
  "truncation_error [[5, 3, 1], [4, 2]] 3 0 = sqrt 5
   \<and> truncation_error [[5, 3, 1], [4, 2]] 1 0 = sqrt 30
   \<and> truncation_error [[5, 3, 1], [4, 2]] 3 0 \<le> truncation_error [[5, 3, 1], [4, 2]] 1 0
   \<and> truncation_error [[5, 3, 1], [4, 2]] (- 1) 0 = 0"
  using truncation_error_monotone[of 3 1 "[[5, 3, 1], [4, 2]]"]
  by (simp add: truncation_error_def truncate_singular_values_def example_loops example_loops_1)

theorem truncate_keeps_global_top_witness:
  "truncate_singular_values [[5, 3, 1], [4, 2]] 3 0 =
        ([Some [5, 3], Some [4]], [Some [0, 1], Some [0]], sqrt 5)
   \<and> is_top_k 3 (global_top [[5, 3, 1], [4, 2]] 3) (enumerate_svd [[5, 3, 1], [4, 2]])
   \<and> truncate_singular_values [[5, 3, 1], [4, 2]] (- 1) 0 =
        ([Some [5, 3, 1], Some [4, 2]], [Some [0, 1, 2], Some [0, 1]], 0)"
  using truncate_keeps_global_top[of 3 "[[5, 3, 1], [4, 2]]" 0]
    truncate_keeps_global_top[of "- 1" "[[5, 3, 1], [4, 2]]" 0]
  by (simp add: truncate_singular_values_def example_loops_all)

section \<open>Contraction: the fermionic sign\<close>

lemma py_index_Inr:
  "py_index xs (int n) = Inr v \<Longrightarrow> n < length xs \<and> v = xs ! n"
  by (auto simp: py_index_def split: if_splits)

lemma py_index_in_range: "n < length xs \<Longrightarrow> py_index xs (int n) = Inr (xs ! n)"
  by (simp add: py_index_def)

lemma fermion_op_mps_Inr:
  assumes "fermion_op_mps qadd is_fermion qa qb = Inr f"
  shows "f = (is_fermion (qadd (qa ! 1) (qa ! 2)) \<and> is_fermion (qb ! 0))"
proof -
  from assms obtain a1 a2 where a: "py_index qa 1 = Inr a1" "py_index qa 2 = Inr a2"
    by (auto simp: fermion_op_mps_def split: sum.splits)
  from a(1) py_index_Inr[of qa 1 a1] have a1: "a1 = qa ! 1" by simp
  from a(2) py_index_Inr[of qa 2 a2] have a2: "a2 = qa ! 2" by simp
  show ?thesis
  proof (cases "is_fermion (qadd a1 a2)")
    case True
    with assms a obtain b0 where b: "py_index qb 0 = Inr b0" "f = is_fermion b0"
      by (auto simp: fermion_op_mps_def split: sum.splits)
    from b(1) py_index_Inr[of qb 0 b0] have "b0 = qb ! 0" by simp
    with b True a1 a2 show ?thesis by simp
  next
    case False
    with assms a have "f = False" by (auto simp: fermion_op_mps_def)
    with False a1 a2 show ?thesis by simp
  qed
qed

lemma fermion_op_mps_total:
  assumes "3 \<le> length qa" "1 \<le> length qb"
  shows "fermion_op_mps qadd is_fermion qa qb
         = Inr (is_fermion (qadd (qa ! 1) (qa ! 2)) \<and> is_fermion (qb ! 0))"
proof -
  from assms have "py_index qa 1 = Inr (qa ! 1)" "py_index qa 2 = Inr (qa ! 2)"
    "py_index qb 0 = Inr (qb ! 0)"
    by (auto simp: py_index_def)
  then show ?thesis by (simp add: fermion_op_mps_def)
qed

lemma fermion_of_ctx:
  "fermion (contract_ctx_of qadd is_fermion flips listed spta sptb ia ib) =
     (if op_on_site spta sptb ia ib then fermion_op_mps qadd is_fermion else fermion_default)"
  by (auto simp: contract_ctx_of_def Let_def sign_rule_def op_on_site_def)

text \<open>
  C2. As the claim states it, the sign of a contribution would flip when the parity of the
  fused label \<open>qa[1] + qa[2]\<close> of the A block differs from the parity of \<open>qb[0]\<close>.
  The sign test of the source is the conjunction: for a four-leg operator tensor
  contracted on position 2 with a three-leg state tensor on position 1, the test
  \<open>fermion\<close> that \<open>contract\<close> evaluates for a pair of blocks holds exactly when
  \<open>qa[1] + qa[2]\<close> is fermionic and \<open>qb[0]\<close> is fermionic; for every other
  combination of tags and legs the test is the default and never holds. The contribution
  of a pair is the dense contraction \<open>np.tensordot(...)\<close>, multiplied by \<open>-1\<close> or
  not, by the value of this test alone. For which value of the test the source multiplies
  is what its lines 192 and 193 leave open, and it is left open here.
\<close>

theorem sign_test_rule:
  "(op_on_site spta sptb ia ib \<and> 3 \<le> length qa \<and> 1 \<le> length qb \<longrightarrow>
      fermion (contract_ctx_of qadd is_fermion flips listed spta sptb ia ib) qa qb
        = Inr (is_fermion (qadd (qa ! 1) (qa ! 2)) \<and> is_fermion (qb ! 0)))
   \<and> (\<not> op_on_site spta sptb ia ib \<longrightarrow>
      fermion (contract_ctx_of qadd is_fermion flips listed spta sptb ia ib) qa qb = Inr False)
   \<and> (\<forall>f. fermion (contract_ctx_of qadd is_fermion flips listed spta sptb ia ib) qa qb = Inr f
        \<longrightarrow> f = (op_on_site spta sptb ia ib
                  \<and> is_fermion (qadd (qa ! 1) (qa ! 2)) \<and> is_fermion (qb ! 0)))
   \<and> (\<forall>outg mat.
        pair_output (contract_ctx_of qadd is_fermion flips listed spta sptb ia ib)
          outga block_a block_b = Inr (outg, mat) \<longrightarrow>
        (\<exists>td f. tensordot (reduced block_a) (reduced block_b)
                   (normalize_legs (st_rank spta) ia) (normalize_legs (st_rank sptb) ib) = Inr td
           \<and> fermion (contract_ctx_of qadd is_fermion flips listed spta sptb ia ib)
                 (q_labels block_a) (q_labels block_b) = Inr f
           \<and> mat = (if flips f then nd_scale (- 1) td else td)))"
proof (intro conjI impI allI)
  assume "op_on_site spta sptb ia ib \<and> 3 \<le> length qa \<and> 1 \<le> length qb"
  then show "fermion (contract_ctx_of qadd is_fermion flips listed spta sptb ia ib) qa qb
        = Inr (is_fermion (qadd (qa ! 1) (qa ! 2)) \<and> is_fermion (qb ! 0))"
    by (simp add: fermion_of_ctx fermion_op_mps_total)
next
  assume "\<not> op_on_site spta sptb ia ib"
  then show "fermion (contract_ctx_of qadd is_fermion flips listed spta sptb ia ib) qa qb
      = Inr False"
    by (simp add: fermion_of_ctx fermion_default_def)
next
  fix f
  assume f: "fermion (contract_ctx_of qadd is_fermion flips listed spta sptb ia ib) qa qb = Inr f"
  show "f = (op_on_site spta sptb ia ib
                  \<and> is_fermion (qadd (qa ! 1) (qa ! 2)) \<and> is_fermion (qb ! 0))"
  proof (cases "op_on_site spta sptb ia ib")
    case True
    with f have "fermion_op_mps qadd is_fermion qa qb = Inr f" by (simp add: fermion_of_ctx)
    from fermion_op_mps_Inr[OF this] True show ?thesis by simp
  next
    case False
    with f show ?thesis by (simp add: fermion_of_ctx fermion_default_def)
  qed
next
  fix outg mat
  let ?c = "contract_ctx_of qadd is_fermion flips listed spta sptb ia ib"
  assume p: "pair_output ?c outga block_a block_b = Inr (outg, mat)"
  have c: "idxa ?c = normalize_legs (st_rank spta) ia"
    "idxb ?c = normalize_legs (st_rank sptb) ib" "flip_on ?c = flips"
    by (simp_all add: contract_ctx_of_def Let_def)
  from p obtain lb where lb: "labels_at block_b (out_idx_b ?c) = Inr lb"
    unfolding pair_output_def by (cases "labels_at block_b (out_idx_b ?c)") simp_all
  from p lb obtain td where td: "tensordot (reduced block_a) (reduced block_b) (idxa ?c) (idxb ?c) = Inr td"
    unfolding pair_output_def
    by (cases "tensordot (reduced block_a) (reduced block_b) (idxa ?c) (idxb ?c)") simp_all
  from p lb td obtain f where f: "fermion ?c (q_labels block_a) (q_labels block_b) = Inr f"
    unfolding pair_output_def
    by (cases "fermion ?c (q_labels block_a) (q_labels block_b)") simp_all
  from p lb td f have "mat = (if flip_on ?c f then nd_scale (- 1) td else td)"
    unfolding pair_output_def by simp
  then have m: "mat = (if flips f then nd_scale (- 1) td else td)"
    unfolding c .
  from td have t: "tensordot (reduced block_a) (reduced block_b)
                   (normalize_legs (st_rank spta) ia) (normalize_legs (st_rank sptb) ib) = Inr td"
    unfolding c .
  from t f m show "\<exists>td f. tensordot (reduced block_a) (reduced block_b)
                   (normalize_legs (st_rank spta) ia) (normalize_legs (st_rank sptb) ib) = Inr td
           \<and> fermion ?c (q_labels block_a) (q_labels block_b) = Inr f
           \<and> mat = (if flips f then nd_scale (- 1) td else td)"
    by blast
qed

lemma sign_example_test_both:
  "fermion (contract_ctx_of (+) odd (\<lambda>f. f) (\<lambda>xs. xs)
      \<lparr>blocks = [\<lparr>q_labels = [0, 1, 0, 1 :: int], reduced = \<lparr>shape = [1, 1, 1, 1], data = [2]\<rparr>\<rparr>],
        ftype = FourIndexMPOTensor, delta_quantum = None\<rparr>
      \<lparr>blocks = [\<lparr>q_labels = [1, 0, 1], reduced = \<lparr>shape = [1, 1, 1], data = [3]\<rparr>\<rparr>],
        ftype = ThreeIndexMPSTensor, delta_quantum = None\<rparr> [- 2] [- 2])
     [0, 1, 0, 1] [1, 0, 1] = Inr True"
  by code_simp

lemma pair_contribution_flips:
  "pair_contribution (contract_ctx_of qadd is_fermion flips listed spta sptb ia ib) block_a block_b
   = (case pair_contribution (contract_ctx_of qadd is_fermion (\<lambda>f. False) listed spta sptb ia ib)
             block_a block_b of
        Inl e \<Rightarrow> Inl e
      | Inr td \<Rightarrow>
          (case fermion (contract_ctx_of qadd is_fermion (\<lambda>f. False) listed spta sptb ia ib)
                  (q_labels block_a) (q_labels block_b) of
             Inl e \<Rightarrow> Inl e
           | Inr f \<Rightarrow> Inr (if flips f then nd_scale (- 1) td else td)))"
  by (simp add: pair_contribution_def pair_output_def contract_ctx_of_def Let_def
           split: sum.splits)

lemma sign_example_unflipped:
  "pair_contribution (contract_ctx_of (+) odd (\<lambda>f. False) (\<lambda>xs. xs)
       \<lparr>blocks = [\<lparr>q_labels = [0, 1, 0, 1 :: int], reduced = \<lparr>shape = [1, 1, 1, 1], data = [2]\<rparr>\<rparr>,
                \<lparr>q_labels = [0, 0, 0, 0], reduced = \<lparr>shape = [1, 1, 1, 1], data = [2]\<rparr>\<rparr>],
      ftype = FourIndexMPOTensor, delta_quantum = None\<rparr>
       \<lparr>blocks = [\<lparr>q_labels = [0, 0, 0], reduced = \<lparr>shape = [1, 1, 1], data = [3]\<rparr>\<rparr>],
      ftype = ThreeIndexMPSTensor, delta_quantum = None\<rparr> [2] [1]) 
       \<lparr>q_labels = [0, 1, 0, 1], reduced = \<lparr>shape = [1, 1, 1, 1], data = [2]\<rparr>\<rparr> 
       \<lparr>q_labels = [0, 0, 0], reduced = \<lparr>shape = [1, 1, 1], data = [3]\<rparr>\<rparr>
     = Inr \<lparr>shape = [1, 1, 1, 1, 1], data = [6]\<rparr>"
  "pair_contribution (contract_ctx_of (+) odd (\<lambda>f. False) (\<lambda>xs. xs)
       \<lparr>blocks = [\<lparr>q_labels = [0, 1, 0, 1 :: int], reduced = \<lparr>shape = [1, 1, 1, 1], data = [2]\<rparr>\<rparr>,
                \<lparr>q_labels = [0, 0, 0, 0], reduced = \<lparr>shape = [1, 1, 1, 1], data = [2]\<rparr>\<rparr>],
      ftype = FourIndexMPOTensor, delta_quantum = None\<rparr>
       \<lparr>blocks = [\<lparr>q_labels = [0, 0, 0], reduced = \<lparr>shape = [1, 1, 1], data = [3]\<rparr>\<rparr>],
      ftype = ThreeIndexMPSTensor, delta_quantum = None\<rparr> [2] [1]) 
       \<lparr>q_labels = [0, 0, 0, 0], reduced = \<lparr>shape = [1, 1, 1, 1], data = [2]\<rparr>\<rparr> 
       \<lparr>q_labels = [0, 0, 0], reduced = \<lparr>shape = [1, 1, 1], data = [3]\<rparr>\<rparr>
     = Inr \<lparr>shape = [1, 1, 1, 1, 1], data = [6]\<rparr>"
  "fermion (contract_ctx_of (+) odd (\<lambda>f. False) (\<lambda>xs. xs)
       \<lparr>blocks = [\<lparr>q_labels = [0, 1, 0, 1 :: int], reduced = \<lparr>shape = [1, 1, 1, 1], data = [2]\<rparr>\<rparr>,
                \<lparr>q_labels = [0, 0, 0, 0], reduced = \<lparr>shape = [1, 1, 1, 1], data = [2]\<rparr>\<rparr>],
      ftype = FourIndexMPOTensor, delta_quantum = None\<rparr>
       \<lparr>blocks = [\<lparr>q_labels = [0, 0, 0], reduced = \<lparr>shape = [1, 1, 1], data = [3]\<rparr>\<rparr>],
      ftype = ThreeIndexMPSTensor, delta_quantum = None\<rparr> [2] [1]) 
       (q_labels \<lparr>q_labels = [0, 1, 0, 1], reduced = \<lparr>shape = [1, 1, 1, 1], data = [2]\<rparr>\<rparr>) 
       (q_labels \<lparr>q_labels = [0, 0, 0], reduced = \<lparr>shape = [1, 1, 1], data = [3]\<rparr>\<rparr>)
     = Inr False"
  "fermion (contract_ctx_of (+) odd (\<lambda>f. False) (\<lambda>xs. xs)
       \<lparr>blocks = [\<lparr>q_labels = [0, 1, 0, 1 :: int], reduced = \<lparr>shape = [1, 1, 1, 1], data = [2]\<rparr>\<rparr>,
                \<lparr>q_labels = [0, 0, 0, 0], reduced = \<lparr>shape = [1, 1, 1, 1], data = [2]\<rparr>\<rparr>],
      ftype = FourIndexMPOTensor, delta_quantum = None\<rparr>
       \<lparr>blocks = [\<lparr>q_labels = [0, 0, 0], reduced = \<lparr>shape = [1, 1, 1], data = [3]\<rparr>\<rparr>],
      ftype = ThreeIndexMPSTensor, delta_quantum = None\<rparr> [2] [1]) 
       (q_labels \<lparr>q_labels = [0, 0, 0, 0], reduced = \<lparr>shape = [1, 1, 1, 1], data = [2]\<rparr>\<rparr>) 
       (q_labels \<lparr>q_labels = [0, 0, 0], reduced = \<lparr>shape = [1, 1, 1], data = [3]\<rparr>\<rparr>)
     = Inr False"
  "nd_scale (- 1) \<lparr>shape = [1, 1, 1, 1, 1], data = [6]\<rparr>
     = \<lparr>shape = [1, 1, 1, 1, 1], data = [- 6]\<rparr>"
  by code_simp+

lemma sign_example_contribution:
  "pair_contribution (contract_ctx_of (+) odd flips (\<lambda>xs. xs)
       \<lparr>blocks = [\<lparr>q_labels = [0, 1, 0, 1 :: int], reduced = \<lparr>shape = [1, 1, 1, 1], data = [2]\<rparr>\<rparr>,
                \<lparr>q_labels = [0, 0, 0, 0], reduced = \<lparr>shape = [1, 1, 1, 1], data = [2]\<rparr>\<rparr>],
      ftype = FourIndexMPOTensor, delta_quantum = None\<rparr>
       \<lparr>blocks = [\<lparr>q_labels = [0, 0, 0], reduced = \<lparr>shape = [1, 1, 1], data = [3]\<rparr>\<rparr>],
      ftype = ThreeIndexMPSTensor, delta_quantum = None\<rparr> [2] [1]) 
       \<lparr>q_labels = [0, 1, 0, 1], reduced = \<lparr>shape = [1, 1, 1, 1], data = [2]\<rparr>\<rparr> 
       \<lparr>q_labels = [0, 0, 0], reduced = \<lparr>shape = [1, 1, 1], data = [3]\<rparr>\<rparr>
     = Inr (if flips False then \<lparr>shape = [1, 1, 1, 1, 1], data = [- 6]\<rparr>
                         else \<lparr>shape = [1, 1, 1, 1, 1], data = [6]\<rparr>)"
  "pair_contribution (contract_ctx_of (+) odd flips (\<lambda>xs. xs)
       \<lparr>blocks = [\<lparr>q_labels = [0, 1, 0, 1 :: int], reduced = \<lparr>shape = [1, 1, 1, 1], data = [2]\<rparr>\<rparr>,
                \<lparr>q_labels = [0, 0, 0, 0], reduced = \<lparr>shape = [1, 1, 1, 1], data = [2]\<rparr>\<rparr>],
      ftype = FourIndexMPOTensor, delta_quantum = None\<rparr>
       \<lparr>blocks = [\<lparr>q_labels = [0, 0, 0], reduced = \<lparr>shape = [1, 1, 1], data = [3]\<rparr>\<rparr>],
      ftype = ThreeIndexMPSTensor, delta_quantum = None\<rparr> [2] [1]) 
       \<lparr>q_labels = [0, 0, 0, 0], reduced = \<lparr>shape = [1, 1, 1, 1], data = [2]\<rparr>\<rparr> 
       \<lparr>q_labels = [0, 0, 0], reduced = \<lparr>shape = [1, 1, 1], data = [3]\<rparr>\<rparr>
     = Inr (if flips False then \<lparr>shape = [1, 1, 1, 1, 1], data = [- 6]\<rparr>
                         else \<lparr>shape = [1, 1, 1, 1, 1], data = [6]\<rparr>)"
  unfolding pair_contribution_flips[of _ _ flips] sign_example_unflipped sum.case
  by (rule refl)+

theorem sign_flip_counterexample:
  "(\<forall>flips.
      pair_contribution (contract_ctx_of (+) odd flips (\<lambda>xs. xs)
       \<lparr>blocks = [\<lparr>q_labels = [0, 1, 0, 1 :: int], reduced = \<lparr>shape = [1, 1, 1, 1], data = [2]\<rparr>\<rparr>,
                \<lparr>q_labels = [0, 0, 0, 0], reduced = \<lparr>shape = [1, 1, 1, 1], data = [2]\<rparr>\<rparr>],
      ftype = FourIndexMPOTensor, delta_quantum = None\<rparr>
       \<lparr>blocks = [\<lparr>q_labels = [0, 0, 0], reduced = \<lparr>shape = [1, 1, 1], data = [3]\<rparr>\<rparr>],
      ftype = ThreeIndexMPSTensor, delta_quantum = None\<rparr> [2] [1]) 
       \<lparr>q_labels = [0, 1, 0, 1], reduced = \<lparr>shape = [1, 1, 1, 1], data = [2]\<rparr>\<rparr> 
       \<lparr>q_labels = [0, 0, 0], reduced = \<lparr>shape = [1, 1, 1], data = [3]\<rparr>\<rparr>
        = Inr (if flips False then \<lparr>shape = [1, 1, 1, 1, 1], data = [- 6]\<rparr>
                         else \<lparr>shape = [1, 1, 1, 1, 1], data = [6]\<rparr>)
      \<and> pair_contribution (contract_ctx_of (+) odd flips (\<lambda>xs. xs)
       \<lparr>blocks = [\<lparr>q_labels = [0, 1, 0, 1 :: int], reduced = \<lparr>shape = [1, 1, 1, 1], data = [2]\<rparr>\<rparr>,
                \<lparr>q_labels = [0, 0, 0, 0], reduced = \<lparr>shape = [1, 1, 1, 1], data = [2]\<rparr>\<rparr>],
      ftype = FourIndexMPOTensor, delta_quantum = None\<rparr>
       \<lparr>blocks = [\<lparr>q_labels = [0, 0, 0], reduced = \<lparr>shape = [1, 1, 1], data = [3]\<rparr>\<rparr>],
      ftype = ThreeIndexMPSTensor, delta_quantum = None\<rparr> [2] [1]) 
       \<lparr>q_labels = [0, 0, 0, 0], reduced = \<lparr>shape = [1, 1, 1, 1], data = [2]\<rparr>\<rparr> 
       \<lparr>q_labels = [0, 0, 0], reduced = \<lparr>shape = [1, 1, 1], data = [3]\<rparr>\<rparr>
        = Inr (if flips False then \<lparr>shape = [1, 1, 1, 1, 1], data = [- 6]\<rparr>
                         else \<lparr>shape = [1, 1, 1, 1, 1], data = [6]\<rparr>))
   \<and> claimed_sign_flip (+) odd [0, 1, 0, 1 :: int] [0, 0, 0]
   \<and> \<not> claimed_sign_flip (+) odd [0, 0, 0, 0 :: int] [0, 0, 0]
   \<and> fermion (contract_ctx_of (+) odd (\<lambda>f. f) (\<lambda>xs. xs)
      \<lparr>blocks = [\<lparr>q_labels = [0, 1, 0, 1 :: int], reduced = \<lparr>shape = [1, 1, 1, 1], data = [2]\<rparr>\<rparr>],
        ftype = FourIndexMPOTensor, delta_quantum = None\<rparr>
      \<lparr>blocks = [\<lparr>q_labels = [1, 0, 1], reduced = \<lparr>shape = [1, 1, 1], data = [3]\<rparr>\<rparr>],
        ftype = ThreeIndexMPSTensor, delta_quantum = None\<rparr> [- 2] [- 2])
     [0, 1, 0, 1] [1, 0, 1] = Inr True
   \<and> \<not> claimed_sign_flip (+) odd [0, 1, 0, 1 :: int] [1, 0, 1]"
proof -
  have d: "claimed_sign_flip (+) odd [0, 1, 0, 1 :: int] [0, 0, 0]"
    by (simp add: claimed_sign_flip_def)
  have a: "\<not> claimed_sign_flip (+) odd [0, 0, 0, 0 :: int] [0, 0, 0]"
    by (simp add: claimed_sign_flip_def)
  have b: "\<not> claimed_sign_flip (+) odd [0, 1, 0, 1 :: int] [1, 0, 1]"
    by (simp add: claimed_sign_flip_def)
  show ?thesis
    by (intro conjI allI)
       (rule sign_example_contribution d a sign_example_test_both b)+
qed

lemma sign_example_pair_output:
  "pair_output (contract_ctx_of (+) odd (\<lambda>f. f) (\<lambda>xs. xs)
      \<lparr>blocks = [\<lparr>q_labels = [0, 1, 0, 1 :: int], reduced = \<lparr>shape = [1, 1, 1, 1], data = [2]\<rparr>\<rparr>],
        ftype = FourIndexMPOTensor, delta_quantum = None\<rparr>
      \<lparr>blocks = [\<lparr>q_labels = [1, 0, 1], reduced = \<lparr>shape = [1, 1, 1], data = [3]\<rparr>\<rparr>],
        ftype = ThreeIndexMPSTensor, delta_quantum = None\<rparr> [- 2] [- 2]) []
      \<lparr>q_labels = [0, 1, 0, 1], reduced = \<lparr>shape = [1, 1, 1, 1], data = [2]\<rparr>\<rparr>
      \<lparr>q_labels = [1, 0, 1], reduced = \<lparr>shape = [1, 1, 1], data = [3]\<rparr>\<rparr>
   = Inr ([1, 1], \<lparr>shape = [1, 1, 1, 1, 1], data = [- 6]\<rparr>)"
  by code_simp

theorem sign_test_rule_witness:
  "fermion (contract_ctx_of (+) odd (\<lambda>f. f) (\<lambda>xs. xs)
      \<lparr>blocks = [\<lparr>q_labels = [0, 1, 0, 1 :: int], reduced = \<lparr>shape = [1, 1, 1, 1], data = [2]\<rparr>\<rparr>],
        ftype = FourIndexMPOTensor, delta_quantum = None\<rparr>
      \<lparr>blocks = [\<lparr>q_labels = [1, 0, 1], reduced = \<lparr>shape = [1, 1, 1], data = [3]\<rparr>\<rparr>],
        ftype = ThreeIndexMPSTensor, delta_quantum = None\<rparr> [- 2] [- 2])
     [0, 1, 0, 1] [1, 0, 1]
     = Inr (odd ([0, 1, 0, 1 :: int] ! 1 + [0, 1, 0, 1] ! 2) \<and> odd ([1, 0, 1 :: int] ! 0))
   \<and> fermion (contract_ctx_of (+) odd (\<lambda>f. f) (\<lambda>xs. xs)
      \<lparr>blocks = [\<lparr>q_labels = [0, 1, 0, 1 :: int], reduced = \<lparr>shape = [1, 1, 1, 1], data = [2]\<rparr>\<rparr>],
        ftype = FourIndexMPOTensor, delta_quantum = None\<rparr>
      \<lparr>blocks = [\<lparr>q_labels = [1, 0, 1], reduced = \<lparr>shape = [1, 1, 1], data = [3]\<rparr>\<rparr>],
        ftype = ThreeIndexMPSTensor, delta_quantum = None\<rparr> [2] [0])
     [0, 1, 0, 1] [1, 0, 1] = Inr False
   \<and> (\<exists>td f. tensordot \<lparr>shape = [1, 1, 1, 1], data = [2]\<rparr> \<lparr>shape = [1, 1, 1], data = [3]\<rparr>
                 [2] [1] = Inr td
          \<and> fermion (contract_ctx_of (+) odd (\<lambda>f. f) (\<lambda>xs. xs)
      \<lparr>blocks = [\<lparr>q_labels = [0, 1, 0, 1 :: int], reduced = \<lparr>shape = [1, 1, 1, 1], data = [2]\<rparr>\<rparr>],
        ftype = FourIndexMPOTensor, delta_quantum = None\<rparr>
      \<lparr>blocks = [\<lparr>q_labels = [1, 0, 1], reduced = \<lparr>shape = [1, 1, 1], data = [3]\<rparr>\<rparr>],
        ftype = ThreeIndexMPSTensor, delta_quantum = None\<rparr> [- 2] [- 2])
               [0, 1, 0, 1] [1, 0, 1] = Inr f
          \<and> \<lparr>shape = [1, 1, 1, 1, 1], data = [- 6]\<rparr> = (if f then nd_scale (- 1) td else td))"
proof -
  have o: "op_on_site
      \<lparr>blocks = [\<lparr>q_labels = [0, 1, 0, 1 :: int], reduced = \<lparr>shape = [1, 1, 1, 1], data = [2]\<rparr>\<rparr>],
        ftype = FourIndexMPOTensor, delta_quantum = None\<rparr>
      \<lparr>blocks = [\<lparr>q_labels = [1, 0, 1], reduced = \<lparr>shape = [1, 1, 1], data = [3]\<rparr>\<rparr>],
        ftype = ThreeIndexMPSTensor, delta_quantum = None\<rparr> [- 2] [- 2]"
    by (simp add: op_on_site_def normalize_legs_def st_rank_def blocks_rank_def block_rank_def)
  have n: "\<not> op_on_site
      \<lparr>blocks = [\<lparr>q_labels = [0, 1, 0, 1 :: int], reduced = \<lparr>shape = [1, 1, 1, 1], data = [2]\<rparr>\<rparr>],
        ftype = FourIndexMPOTensor, delta_quantum = None\<rparr>
      \<lparr>blocks = [\<lparr>q_labels = [1, 0, 1], reduced = \<lparr>shape = [1, 1, 1], data = [3]\<rparr>\<rparr>],
        ftype = ThreeIndexMPSTensor, delta_quantum = None\<rparr> [2] [0]"
    by (simp add: op_on_site_def normalize_legs_def st_rank_def blocks_rank_def block_rank_def)
  have l: "3 \<le> length [0, 1, 0, 1 :: int]" "1 \<le> length [1, 0, 1 :: int]" by simp_all
  have r: "normalize_legs (st_rank
      \<lparr>blocks = [\<lparr>q_labels = [0, 1, 0, 1 :: int], reduced = \<lparr>shape = [1, 1, 1, 1], data = [2]\<rparr>\<rparr>],
        ftype = FourIndexMPOTensor, delta_quantum = None\<rparr>) [- 2] = [2]"
    "normalize_legs (st_rank
      \<lparr>blocks = [\<lparr>q_labels = [1, 0, 1 :: int], reduced = \<lparr>shape = [1, 1, 1], data = [3]\<rparr>\<rparr>],
        ftype = ThreeIndexMPSTensor, delta_quantum = None\<rparr>) [- 2] = [1]"
    by (simp_all add: normalize_legs_def st_rank_def blocks_rank_def block_rank_def)
  have s: "reduced (\<lparr>q_labels = [0, 1, 0, 1], reduced = \<lparr>shape = [1, 1, 1, 1], data = [2]\<rparr>\<rparr> :: int sub_tensor) = \<lparr>shape = [1, 1, 1, 1], data = [2]\<rparr>"
    "reduced (\<lparr>q_labels = [1, 0, 1], reduced = \<lparr>shape = [1, 1, 1], data = [3]\<rparr>\<rparr> :: int sub_tensor) = \<lparr>shape = [1, 1, 1], data = [3]\<rparr>"
    "q_labels (\<lparr>q_labels = [0, 1, 0, 1], reduced = \<lparr>shape = [1, 1, 1, 1], data = [2]\<rparr>\<rparr> :: int sub_tensor) = [0, 1, 0, 1]"
    "q_labels (\<lparr>q_labels = [1, 0, 1], reduced = \<lparr>shape = [1, 1, 1], data = [3]\<rparr>\<rparr> :: int sub_tensor) = [1, 0, 1]"
    by (rule sub_tensor.simps)+
  from sign_test_rule[THEN conjunct2, THEN conjunct2, THEN conjunct2, rule_format,
      OF sign_example_pair_output]
  have p: "\<exists>td f. tensordot \<lparr>shape = [1, 1, 1, 1], data = [2]\<rparr> \<lparr>shape = [1, 1, 1], data = [3]\<rparr>
                 [2] [1] = Inr td
          \<and> fermion (contract_ctx_of (+) odd (\<lambda>f. f) (\<lambda>xs. xs)
      \<lparr>blocks = [\<lparr>q_labels = [0, 1, 0, 1 :: int], reduced = \<lparr>shape = [1, 1, 1, 1], data = [2]\<rparr>\<rparr>],
        ftype = FourIndexMPOTensor, delta_quantum = None\<rparr>
      \<lparr>blocks = [\<lparr>q_labels = [1, 0, 1], reduced = \<lparr>shape = [1, 1, 1], data = [3]\<rparr>\<rparr>],
        ftype = ThreeIndexMPSTensor, delta_quantum = None\<rparr> [- 2] [- 2])
               [0, 1, 0, 1] [1, 0, 1] = Inr f
          \<and> \<lparr>shape = [1, 1, 1, 1, 1], data = [- 6]\<rparr> = (if f then nd_scale (- 1) td else td)"
    unfolding r s .
  from sign_test_rule[THEN conjunct1, rule_format, OF conjI[OF o conjI[OF l]]]
    sign_test_rule[THEN conjunct2, THEN conjunct1, rule_format, OF n] p
  show ?thesis by (intro conjI)
qed

section \<open>Contraction: accumulation of the contributions\<close>

lemma map_of_update_alist:
  "map_of (AList.update k v m) k' = (if k' = k then Some v else map_of m k')"
  by (simp add: update_conv')

lemma map_of_snoc_fresh:
  "map_of m k = None \<Longrightarrow> map_of (m @ [(k, v)]) k' = (if k' = k then Some v else map_of m k')"
  by (auto simp: map_add_def split: option.splits)

lemma index_block_lookup:
  "block_lookup (index_block m subg b) k = block_lookup m k @ (if k = subg then [b] else [])"
  by (auto simp: block_lookup_def index_block_def map_of_update_alist map_of_snoc_fresh
      split: option.splits)

lemma index_block_ok: "index_ok m \<Longrightarrow> index_ok (index_block m subg b)"
  by (auto simp: index_ok_def index_block_def map_of_update_alist map_of_snoc_fresh
      split: option.splits if_splits)

lemma build_map_idx_b_lookup:
  "build_map_idx_b ib bs m = Inr mb \<Longrightarrow> index_ok m \<Longrightarrow>
   index_ok mb
   \<and> (\<forall>b\<in>set bs. \<exists>l. labels_at b ib = Inr l)
   \<and> (\<forall>k. block_lookup mb k = block_lookup m k @ filter (\<lambda>b. labels_at b ib = Inr k) bs)"
proof (induction bs arbitrary: m)
  case Nil
  then show ?case by simp
next
  case (Cons b bs)
  from Cons.prems(1) obtain subg where s: "labels_at b ib = Inr subg"
    and r: "build_map_idx_b ib bs (index_block m subg b) = Inr mb"
    by (auto split: sum.splits)
  from Cons.IH[OF r index_block_ok[OF Cons.prems(2)]] s
  show ?case by (auto simp: index_block_lookup)
qed

lemma map_of_block_lookup:
  "index_ok m \<Longrightarrow> map_of m k = (if block_lookup m k = [] then None else Some (block_lookup m k))"
  by (auto simp: index_ok_def block_lookup_def split: option.splits)

lemma traverse_append:
  "traverse f (xs @ ys) =
     (case traverse f xs of
        Inl e \<Rightarrow> Inl e
      | Inr us \<Rightarrow> (case traverse f ys of Inl e \<Rightarrow> Inl e | Inr vs \<Rightarrow> Inr (us @ vs)))"
  by (induction xs) (auto split: sum.splits)

lemma traverse_map:
  "traverse f (map g xs) = traverse (\<lambda>x. f (g x)) xs"
  by (induction xs) (auto split: sum.splits)

lemma store_all_append:
  "store_all m (ps @ qs) =
     (case store_all m ps of Inl e \<Rightarrow> Inl e | Inr m' \<Rightarrow> store_all m' qs)"
  by (induction ps arbitrary: m) (auto split: sum.splits)

lemma inner_loop_store:
  "inner_loop c outga a bs m = Inr m' \<Longrightarrow>
   \<exists>ps. traverse (pair_output c outga a) bs = Inr ps \<and> store_all m ps = Inr m'"
proof (induction bs arbitrary: m)
  case Nil
  then show ?case by simp
next
  case (Cons b bs)
  from Cons.prems obtain p m1 where p: "pair_output c outga a b = Inr p"
    and s: "store_output m p = Inr m1" and r: "inner_loop c outga a bs m1 = Inr m'"
    by (auto split: sum.splits)
  from Cons.IH[OF r] obtain ps where "traverse (pair_output c outga a) bs = Inr ps"
    "store_all m1 ps = Inr m'" by blast
  with p s show ?case by simp
qed

lemma outer_loop_store:
  assumes ok: "index_ok mb"
    and lk: "\<And>k. block_lookup mb k = filter (\<lambda>b. labels_at b (idxb c) = Inr k) bs"
  shows "outer_loop c mb as m = Inr m' \<Longrightarrow>
   \<exists>ps. traverse (pair_result c) (matching_pairs c as bs) = Inr ps \<and> store_all m ps = Inr m'"
proof (induction as arbitrary: m)
  case Nil
  then show ?case by (simp add: matching_pairs_def)
next
  case (Cons a as)
  from Cons.prems obtain subg where sg: "labels_at a (idxa c) = Inr subg"
    by (auto split: sum.splits)
  let ?bs = "filter (\<lambda>b. labels_at b (idxb c) = labels_at a (idxa c)) bs"
  have fb: "?bs = block_lookup mb subg" by (simp add: lk sg)
  have mp: "matching_pairs c (a # as) bs = map (Pair a) ?bs @ matching_pairs c as bs"
    by (simp add: matching_pairs_def)
  show ?case
  proof (cases "?bs = []")
    case True
    then have "map_of mb subg = None" using fb map_of_block_lookup[OF ok, of subg] by simp
    with Cons.prems sg have "outer_loop c mb as m = Inr m'" by simp
    from Cons.IH[OF this] True show ?thesis by (simp add: mp)
  next
    case False
    then have mo: "map_of mb subg = Some ?bs" using fb map_of_block_lookup[OF ok, of subg] by simp
    with Cons.prems sg obtain outga m1 where og: "labels_at a (out_idx_a c) = Inr outga"
      and il: "inner_loop c outga a ?bs m = Inr m1" and r: "outer_loop c mb as m1 = Inr m'"
      by (auto split: sum.splits)
    from inner_loop_store[OF il] obtain ps where ps: "traverse (pair_output c outga a) ?bs = Inr ps"
      "store_all m ps = Inr m1" by blast
    from Cons.IH[OF r] obtain qs where qs: "traverse (pair_result c) (matching_pairs c as bs) = Inr qs"
      "store_all m1 qs = Inr m'" by blast
    have "traverse (pair_result c) (map (Pair a) ?bs) = Inr ps"
      using ps(1) og by (simp add: traverse_map pair_result_def)
    with qs ps show ?thesis by (auto simp: mp traverse_append store_all_append)
  qed
qed

lemma contract_blocks_store:
  assumes "contract_blocks qadd is_fermion flips listed spta sptb ia ib = Inr m"
  shows "\<exists>ps. traverse (pair_result (contract_ctx_of qadd is_fermion flips listed spta sptb ia ib))
             (matching_pairs (contract_ctx_of qadd is_fermion flips listed spta sptb ia ib)
                (blocks spta) (blocks sptb)) = Inr ps
           \<and> store_all [] ps = Inr m"
proof -
  let ?c = "contract_ctx_of qadd is_fermion flips listed spta sptb ia ib"
  from assms obtain mb where b: "build_map_idx_b (idxb ?c) (blocks sptb) [] = Inr mb"
    and o: "outer_loop ?c mb (blocks spta) [] = Inr m"
    by (auto simp: contract_blocks_def Let_def split: sum.splits)
  have e: "index_ok ([] :: 'a block_index)" by (simp add: index_ok_def)
  from build_map_idx_b_lookup[OF b e] have ok: "index_ok mb"
    and lk: "\<And>k. block_lookup mb k = filter (\<lambda>b. labels_at b (idxb ?c) = Inr k) (blocks sptb)"
    by (auto simp: block_lookup_def)
  from outer_loop_store[OF ok lk o] show ?thesis .
qed

lemma add_all_snoc:
  "add_all a (bs @ [b]) = (case add_all a bs of Inl e \<Rightarrow> Inl e | Inr r \<Rightarrow> nd_iadd r b)"
  by (induction bs arbitrary: a) (auto split: sum.splits)

lemma contributions_snoc:
  "contributions k (ps @ [(outg, mat)]) =
     (if k = outg then contributions k ps @ [mat] else contributions k ps)"
  by (simp add: contributions_def)

lemma contributions_empty: "k \<notin> fst ` set ps \<Longrightarrow> contributions k ps = []"
  by (auto simp: contributions_def filter_empty_conv)

lemma set_alist_update: "set (AList.update k v m) \<subseteq> insert (k, v) (set m)"
  by (induction m) auto

lemma accumulatesI:
  assumes "distinct (map fst m)" "fst ` set m = fst ` set ps"
    and "\<And>q. q \<in> set m \<Longrightarrow> q_labels (snd q) = fst q
            \<and> (\<exists>x xs. contributions (fst q) ps = x # xs \<and> add_all x xs = Inr (reduced (snd q)))"
  shows "accumulates m ps"
  unfolding accumulates_def using assms by blast

lemma store_output_accumulates:
  assumes inv: "accumulates m ps" and st: "store_output m p = Inr m'"
  shows "accumulates m' (ps @ [p])"
proof -
  obtain outg mat where p: "p = (outg, mat)" by (cases p)
  from inv have d: "distinct (map fst m)" and ks: "fst ` set m = fst ` set ps"
    and vs: "\<And>q. q \<in> set m \<Longrightarrow> q_labels (snd q) = fst q
            \<and> (\<exists>x xs. contributions (fst q) ps = x # xs \<and> add_all x xs = Inr (reduced (snd q)))"
    unfolding accumulates_def by blast+
  show ?thesis
  proof (cases "map_of m outg")
    case None
    with st p have m': "m' = m @ [(outg, \<lparr>q_labels = outg, reduced = mat\<rparr>)]"
      by (auto simp: store_output_def SubTensor_init_def split: if_splits)
    from None have nk: "outg \<notin> fst ` set m" by (simp add: map_of_eq_None_iff)
    then have ce: "contributions outg ps = []" using ks by (simp add: contributions_empty)
    show ?thesis unfolding p
    proof (rule accumulatesI)
      show "distinct (map fst m')" using d nk by (simp add: m')
      show "fst ` set m' = fst ` set (ps @ [(outg, mat)])" using ks by (simp add: m')
      fix q assume q: "q \<in> set m'"
      show "q_labels (snd q) = fst q
            \<and> (\<exists>x xs. contributions (fst q) (ps @ [(outg, mat)]) = x # xs
                  \<and> add_all x xs = Inr (reduced (snd q)))"
      proof (cases "q \<in> set m")
        case True
        then have "fst q \<noteq> outg" using nk by auto
        with vs[OF True] show ?thesis by (simp add: contributions_snoc)
      next
        case False
        with q have "q = (outg, \<lparr>q_labels = outg, reduced = mat\<rparr>)" by (simp add: m')
        then show ?thesis by (simp add: contributions_snoc ce)
      qed
    qed
  next
    case (Some blk)
    with st p obtain r where r: "nd_iadd (reduced blk) mat = Inr r"
      and m': "m' = AList.update outg (blk\<lparr>reduced := r\<rparr>) m"
      by (auto simp: store_output_def split: sum.splits)
    from Some have mem: "(outg, blk) \<in> set m" by (rule map_of_SomeD)
    then have ik: "outg \<in> fst ` set m" by force
    from vs[OF mem] obtain x xs where ql: "q_labels blk = outg"
      and cx: "contributions outg ps = x # xs" and ax: "add_all x xs = Inr (reduced blk)"
      by auto
    have keys: "map fst m' = map fst m"
      unfolding m' using ik by (simp add: update_keys)
    have sm: "set m' \<subseteq> set m \<union> {(outg, blk\<lparr>reduced := r\<rparr>)}"
      unfolding m' using set_alist_update[of outg "blk\<lparr>reduced := r\<rparr>" m] by auto
    show ?thesis unfolding p
    proof (rule accumulatesI)
      show "distinct (map fst m')" using d keys by simp
      have "fst ` set m' = set (map fst m')" by simp
      also have "\<dots> = fst ` set m" unfolding keys by simp
      finally show "fst ` set m' = fst ` set (ps @ [(outg, mat)])" using ks ik by auto
      fix q assume q: "q \<in> set m'"
      show "q_labels (snd q) = fst q
            \<and> (\<exists>x xs. contributions (fst q) (ps @ [(outg, mat)]) = x # xs
                  \<and> add_all x xs = Inr (reduced (snd q)))"
      proof (cases "fst q = outg")
        case True
        from q have "map_of m' (fst q) = Some (snd q)"
          using d keys by (simp add: map_of_eq_Some_iff)
        with True have sq: "snd q = blk\<lparr>reduced := r\<rparr>"
          by (simp add: m' map_of_update_alist)
        have c1: "contributions outg (ps @ [(outg, mat)]) = x # (xs @ [mat])"
          by (simp add: contributions_snoc cx)
        have c2: "add_all x (xs @ [mat]) = Inr r"
          by (simp add: add_all_snoc ax r)
        show ?thesis unfolding True sq using c1 c2 ql by simp
      next
        case False
        with q sm have "q \<in> set m" by (cases q) auto
        from vs[OF this] False show ?thesis by (simp add: contributions_snoc)
      qed
    qed
  qed
qed

lemma store_all_accumulates:
  "accumulates m qs \<Longrightarrow> store_all m ps = Inr m' \<Longrightarrow> accumulates m' (qs @ ps)"
proof (induction ps arbitrary: m qs)
  case Nil
  then show ?case by simp
next
  case (Cons p ps)
  from Cons.prems(2) obtain m1 where s: "store_output m p = Inr m1"
    and r: "store_all m1 ps = Inr m'" by (auto split: sum.splits)
  from Cons.IH[OF store_output_accumulates[OF Cons.prems(1) s] r] show ?case by simp
qed

lemma accumulates_empty: "accumulates [] []"
  by (simp add: accumulates_def)

lemma nd_iadd_same_shape:
  "shape y = shape x \<Longrightarrow>
   nd_iadd x y = Inr \<lparr>shape = shape x, data = map (\<lambda>(u, v). u + v) (zip (data x) (data y))\<rparr>"
  by (simp add: nd_iadd_def)

lemma add_all_elementwise:
  "add_all x xs = Inr r \<Longrightarrow>
   \<forall>y\<in>set xs. shape y = shape x \<and> length (data y) = length (data x) \<Longrightarrow>
   shape r = shape x
   \<and> data r = map (\<lambda>i. data x ! i + sum_list (map (\<lambda>y. data y ! i) xs)) [0..<length (data x)]"
proof (induction xs arbitrary: x)
  case Nil
  then show ?case by (simp add: map_nth)
next
  case (Cons y ys)
  define r1 where "r1 = \<lparr>shape = shape x, data = map (\<lambda>(u, v). u + v) (zip (data x) (data y))\<rparr>"
  from Cons.prems(2) have sy: "shape y = shape x" and ly: "length (data y) = length (data x)"
    and ys: "\<forall>z\<in>set ys. shape z = shape x \<and> length (data z) = length (data x)"
    by simp_all
  have i1: "nd_iadd x y = Inr r1" unfolding r1_def using sy by (rule nd_iadd_same_shape)
  with Cons.prems(1) have a: "add_all r1 ys = Inr r" by simp
  have s1: "shape r1 = shape x" and l1: "length (data r1) = length (data x)"
    using ly by (simp_all add: r1_def)
  have n1: "\<And>i. i < length (data x) \<Longrightarrow> data r1 ! i = data x ! i + data y ! i"
    using ly by (simp add: r1_def)
  have b: "\<forall>z\<in>set ys. shape z = shape r1 \<and> length (data z) = length (data r1)"
    using ys s1 l1 by simp
  from Cons.IH[OF a b] have s: "shape r = shape r1"
    and dr: "data r = map (\<lambda>i. data r1 ! i + sum_list (map (\<lambda>y. data y ! i) ys))
                [0..<length (data r1)]" by blast+
  have "map (\<lambda>i. data r1 ! i + sum_list (map (\<lambda>y. data y ! i) ys)) [0..<length (data x)]
      = map (\<lambda>i. data x ! i + sum_list (map (\<lambda>y. data y ! i) (y # ys))) [0..<length (data x)]"
    by (rule map_cong) (simp_all add: n1)
  with s dr s1 l1 show ?case by simp
qed

lemma traverse_length: "traverse f xs = Inr ys \<Longrightarrow> length ys = length xs"
  by (induction xs arbitrary: ys) (auto split: sum.splits)

lemma traverse_all_Inr: "traverse f xs = Inr ys \<Longrightarrow> \<forall>x\<in>set xs. \<exists>y. f x = Inr y \<and> y \<in> set ys"
  by (induction xs arbitrary: ys) (auto split: sum.splits)

lemma traverse_set: "traverse f xs = Inr ys \<Longrightarrow> \<forall>y\<in>set ys. \<exists>x\<in>set xs. f x = Inr y"
  by (induction xs arbitrary: ys) (auto split: sum.splits)

text \<open>
  C3. When \<open>contract\<close> gets through its loops, every block of the output is keyed by
  its label tuple, the keys are the output label tuples of the matching pairs of blocks,
  and the array of the block keyed by a tuple is the first contribution to that tuple
  with every later contribution to it added by \<open>+=\<close>, in the order of the loops: for
  contributions of one shape, the elementwise sum of all of them, not the last one. The
  blocks of the collection returned are these blocks.
\<close>

theorem contract_accumulates:
  assumes "contract_blocks qadd is_fermion flips listed spta sptb ia ib = Inr m"
  shows "\<exists>ps. traverse (pair_result (contract_ctx_of qadd is_fermion flips listed spta sptb ia ib))
             (matching_pairs (contract_ctx_of qadd is_fermion flips listed spta sptb ia ib)
                (blocks spta) (blocks sptb)) = Inr ps
      \<and> accumulates m ps
      \<and> (\<forall>p\<in>set m. \<forall>x xs. contributions (fst p) ps = x # xs
            \<and> (\<forall>y\<in>set xs. shape y = shape x \<and> length (data y) = length (data x)) \<longrightarrow>
            data (reduced (snd p)) =
              map (\<lambda>i. sum_list (map (\<lambda>y. data y ! i) (x # xs))) [0..<length (data x)])
      \<and> (\<forall>t. contract qadd is_fermion flips listed spta sptb ia ib = Inr (TensorResult t) \<longrightarrow>
            blocks t = map snd m)"
proof -
  from contract_blocks_store[OF assms] obtain ps where
    ps: "traverse (pair_result (contract_ctx_of qadd is_fermion flips listed spta sptb ia ib))
             (matching_pairs (contract_ctx_of qadd is_fermion flips listed spta sptb ia ib)
                (blocks spta) (blocks sptb)) = Inr ps"
    and st: "store_all [] ps = Inr m" by blast
  from store_all_accumulates[OF accumulates_empty st] have acc: "accumulates m ps" by simp
  have el: "\<forall>p\<in>set m. \<forall>x xs. contributions (fst p) ps = x # xs
            \<and> (\<forall>y\<in>set xs. shape y = shape x \<and> length (data y) = length (data x)) \<longrightarrow>
            data (reduced (snd p)) =
              map (\<lambda>i. sum_list (map (\<lambda>y. data y ! i) (x # xs))) [0..<length (data x)]"
  proof (intro ballI allI impI)
    fix p x xs
    assume p: "p \<in> set m" and h: "contributions (fst p) ps = x # xs
            \<and> (\<forall>y\<in>set xs. shape y = shape x \<and> length (data y) = length (data x))"
    from acc p obtain x' xs' where "contributions (fst p) ps = x' # xs'"
      "add_all x' xs' = Inr (reduced (snd p))" unfolding accumulates_def by blast
    with h have a: "add_all x xs = Inr (reduced (snd p))" by simp
    from h have s: "\<forall>y\<in>set xs. shape y = shape x \<and> length (data y) = length (data x)" by simp
    from add_all_elementwise[OF a s]
    show "data (reduced (snd p)) =
              map (\<lambda>i. sum_list (map (\<lambda>y. data y ! i) (x # xs))) [0..<length (data x)]"
      by simp
  qed
  have tr: "\<forall>t. contract qadd is_fermion flips listed spta sptb ia ib = Inr (TensorResult t) \<longrightarrow>
            blocks t = map snd m"
    using assms
    by (auto simp: contract_def Let_def SparseTensor_init_def split: if_splits sum.splits option.splits)
  from ps acc el tr show ?thesis by blast
qed

lemma accumulate_example_blocks:
  "contract_blocks (+) odd (\<lambda>f. f) (\<lambda>xs. xs)
     \<lparr>blocks = [\<lparr>q_labels = [0, 1 :: int], reduced = \<lparr>shape = [1, 1], data = [2]\<rparr>\<rparr>,
                \<lparr>q_labels = [0, 2], reduced = \<lparr>shape = [1, 1], data = [5]\<rparr>\<rparr>],
      ftype = LeftFusedMPSTensor, delta_quantum = None\<rparr>
     \<lparr>blocks = [\<lparr>q_labels = [1, 5, 6], reduced = \<lparr>shape = [1, 1, 1], data = [3]\<rparr>\<rparr>,
                \<lparr>q_labels = [2, 5, 6], reduced = \<lparr>shape = [1, 1, 1], data = [7]\<rparr>\<rparr>],
      ftype = ThreeIndexMPSTensor, delta_quantum = None\<rparr> [1] [0]
   = Inr [([0, 5, 6], \<lparr>q_labels = [0, 5, 6], reduced = \<lparr>shape = [1, 1, 1], data = [41]\<rparr>\<rparr>)]"
  by code_simp

lemma accumulate_example_pairs:
  "traverse (pair_result (contract_ctx_of (+) odd (\<lambda>f. f) (\<lambda>xs. xs)
     \<lparr>blocks = [\<lparr>q_labels = [0, 1 :: int], reduced = \<lparr>shape = [1, 1], data = [2]\<rparr>\<rparr>,
                \<lparr>q_labels = [0, 2], reduced = \<lparr>shape = [1, 1], data = [5]\<rparr>\<rparr>],
      ftype = LeftFusedMPSTensor, delta_quantum = None\<rparr>
     \<lparr>blocks = [\<lparr>q_labels = [1, 5, 6], reduced = \<lparr>shape = [1, 1, 1], data = [3]\<rparr>\<rparr>,
                \<lparr>q_labels = [2, 5, 6], reduced = \<lparr>shape = [1, 1, 1], data = [7]\<rparr>\<rparr>],
      ftype = ThreeIndexMPSTensor, delta_quantum = None\<rparr> [1] [0]))
    (matching_pairs (contract_ctx_of (+) odd (\<lambda>f. f) (\<lambda>xs. xs)
     \<lparr>blocks = [\<lparr>q_labels = [0, 1 :: int], reduced = \<lparr>shape = [1, 1], data = [2]\<rparr>\<rparr>,
                \<lparr>q_labels = [0, 2], reduced = \<lparr>shape = [1, 1], data = [5]\<rparr>\<rparr>],
      ftype = LeftFusedMPSTensor, delta_quantum = None\<rparr>
     \<lparr>blocks = [\<lparr>q_labels = [1, 5, 6], reduced = \<lparr>shape = [1, 1, 1], data = [3]\<rparr>\<rparr>,
                \<lparr>q_labels = [2, 5, 6], reduced = \<lparr>shape = [1, 1, 1], data = [7]\<rparr>\<rparr>],
      ftype = ThreeIndexMPSTensor, delta_quantum = None\<rparr> [1] [0])
      [\<lparr>q_labels = [0, 1 :: int], reduced = \<lparr>shape = [1, 1], data = [2]\<rparr>\<rparr>,
       \<lparr>q_labels = [0, 2], reduced = \<lparr>shape = [1, 1], data = [5]\<rparr>\<rparr>]
      [\<lparr>q_labels = [1, 5, 6], reduced = \<lparr>shape = [1, 1, 1], data = [3]\<rparr>\<rparr>,
       \<lparr>q_labels = [2, 5, 6], reduced = \<lparr>shape = [1, 1, 1], data = [7]\<rparr>\<rparr>])
   = Inr [([0, 5, 6], \<lparr>shape = [1, 1, 1], data = [6]\<rparr>),
          ([0, 5, 6], \<lparr>shape = [1, 1, 1], data = [35]\<rparr>)]"
  by code_simp

lemma accumulate_example_contract:
  "contract (+) odd (\<lambda>f. f) (\<lambda>xs. xs)
     \<lparr>blocks = [\<lparr>q_labels = [0, 1 :: int], reduced = \<lparr>shape = [1, 1], data = [2]\<rparr>\<rparr>,
                \<lparr>q_labels = [0, 2], reduced = \<lparr>shape = [1, 1], data = [5]\<rparr>\<rparr>],
      ftype = LeftFusedMPSTensor, delta_quantum = None\<rparr>
     \<lparr>blocks = [\<lparr>q_labels = [1, 5, 6], reduced = \<lparr>shape = [1, 1, 1], data = [3]\<rparr>\<rparr>,
                \<lparr>q_labels = [2, 5, 6], reduced = \<lparr>shape = [1, 1, 1], data = [7]\<rparr>\<rparr>],
      ftype = ThreeIndexMPSTensor, delta_quantum = None\<rparr> [1] [0]
   = Inr (TensorResult
       \<lparr>blocks = [\<lparr>q_labels = [0, 5, 6], reduced = \<lparr>shape = [1, 1, 1], data = [41]\<rparr>\<rparr>],
        ftype = ThreeIndexMPSTensor, delta_quantum = None\<rparr>)"
  by code_simp

theorem contract_accumulates_witness:
  "accumulates
     [([0, 5, 6 :: int], \<lparr>q_labels = [0, 5, 6], reduced = \<lparr>shape = [1, 1, 1], data = [41]\<rparr>\<rparr>)]
     [([0, 5, 6], \<lparr>shape = [1, 1, 1], data = [6]\<rparr>), ([0, 5, 6], \<lparr>shape = [1, 1, 1], data = [35]\<rparr>)]
   \<and> data \<lparr>shape = [1, 1, 1], data = [41 :: real]\<rparr> =
       map (\<lambda>i. sum_list (map (\<lambda>y. data y ! i)
             [\<lparr>shape = [1, 1, 1], data = [6]\<rparr>, \<lparr>shape = [1, 1, 1], data = [35]\<rparr>])) [0..<1]
   \<and> contract (+) odd (\<lambda>f. f) (\<lambda>xs. xs)
     \<lparr>blocks = [\<lparr>q_labels = [0, 1 :: int], reduced = \<lparr>shape = [1, 1], data = [2]\<rparr>\<rparr>,
                \<lparr>q_labels = [0, 2], reduced = \<lparr>shape = [1, 1], data = [5]\<rparr>\<rparr>],
      ftype = LeftFusedMPSTensor, delta_quantum = None\<rparr>
     \<lparr>blocks = [\<lparr>q_labels = [1, 5, 6], reduced = \<lparr>shape = [1, 1, 1], data = [3]\<rparr>\<rparr>,
                \<lparr>q_labels = [2, 5, 6], reduced = \<lparr>shape = [1, 1, 1], data = [7]\<rparr>\<rparr>],
      ftype = ThreeIndexMPSTensor, delta_quantum = None\<rparr> [1] [0]
   = Inr (TensorResult
       \<lparr>blocks = [\<lparr>q_labels = [0, 5, 6], reduced = \<lparr>shape = [1, 1, 1], data = [41]\<rparr>\<rparr>],
        ftype = ThreeIndexMPSTensor, delta_quantum = None\<rparr>)"
proof -
  from contract_accumulates[OF accumulate_example_blocks] obtain ps where
    t: "traverse (pair_result (contract_ctx_of (+) odd (\<lambda>f. f) (\<lambda>xs. xs)
     \<lparr>blocks = [\<lparr>q_labels = [0, 1 :: int], reduced = \<lparr>shape = [1, 1], data = [2]\<rparr>\<rparr>,
                \<lparr>q_labels = [0, 2], reduced = \<lparr>shape = [1, 1], data = [5]\<rparr>\<rparr>],
      ftype = LeftFusedMPSTensor, delta_quantum = None\<rparr>
     \<lparr>blocks = [\<lparr>q_labels = [1, 5, 6], reduced = \<lparr>shape = [1, 1, 1], data = [3]\<rparr>\<rparr>,
                \<lparr>q_labels = [2, 5, 6], reduced = \<lparr>shape = [1, 1, 1], data = [7]\<rparr>\<rparr>],
      ftype = ThreeIndexMPSTensor, delta_quantum = None\<rparr> [1] [0]))
    (matching_pairs (contract_ctx_of (+) odd (\<lambda>f. f) (\<lambda>xs. xs)
     \<lparr>blocks = [\<lparr>q_labels = [0, 1 :: int], reduced = \<lparr>shape = [1, 1], data = [2]\<rparr>\<rparr>,
                \<lparr>q_labels = [0, 2], reduced = \<lparr>shape = [1, 1], data = [5]\<rparr>\<rparr>],
      ftype = LeftFusedMPSTensor, delta_quantum = None\<rparr>
     \<lparr>blocks = [\<lparr>q_labels = [1, 5, 6], reduced = \<lparr>shape = [1, 1, 1], data = [3]\<rparr>\<rparr>,
                \<lparr>q_labels = [2, 5, 6], reduced = \<lparr>shape = [1, 1, 1], data = [7]\<rparr>\<rparr>],
      ftype = ThreeIndexMPSTensor, delta_quantum = None\<rparr> [1] [0])
      [\<lparr>q_labels = [0, 1 :: int], reduced = \<lparr>shape = [1, 1], data = [2]\<rparr>\<rparr>,
       \<lparr>q_labels = [0, 2], reduced = \<lparr>shape = [1, 1], data = [5]\<rparr>\<rparr>]
      [\<lparr>q_labels = [1, 5, 6], reduced = \<lparr>shape = [1, 1, 1], data = [3]\<rparr>\<rparr>,
       \<lparr>q_labels = [2, 5, 6], reduced = \<lparr>shape = [1, 1, 1], data = [7]\<rparr>\<rparr>]) = Inr ps"
    and ac: "accumulates
     [([0, 5, 6 :: int], \<lparr>q_labels = [0, 5, 6], reduced = \<lparr>shape = [1, 1, 1], data = [41]\<rparr>\<rparr>)]
     ps"
    unfolding sparse_tensor.select_convs by blast
  from t have "ps = [([0, 5, 6], \<lparr>shape = [1, 1, 1], data = [6]\<rparr>),
      ([0, 5, 6], \<lparr>shape = [1, 1, 1], data = [35]\<rparr>)]"
    unfolding accumulate_example_pairs by simp
  with ac have a: "accumulates
     [([0, 5, 6 :: int], \<lparr>q_labels = [0, 5, 6], reduced = \<lparr>shape = [1, 1, 1], data = [41]\<rparr>\<rparr>)]
     [([0, 5, 6], \<lparr>shape = [1, 1, 1], data = [6]\<rparr>), ([0, 5, 6], \<lparr>shape = [1, 1, 1], data = [35]\<rparr>)]"
    by simp
  have b: "data \<lparr>shape = [1, 1, 1], data = [41 :: real]\<rparr> =
       map (\<lambda>i. sum_list (map (\<lambda>y. data y ! i)
             [\<lparr>shape = [1, 1, 1], data = [6]\<rparr>, \<lparr>shape = [1, 1, 1], data = [35]\<rparr>])) [0..<1]"
    by simp
  from a b accumulate_example_contract show ?thesis by (intro conjI)
qed

section \<open>Contraction on all legs\<close>

lemma pair_result_no_out_legs:
  assumes "out_idx_a c = []" "out_idx_b c = []" "pair_result c p = Inr q"
  shows "fst q = []"
  using assms
  by (cases p) (auto simp: pair_result_def pair_output_def labels_at_def split: sum.splits)

lemma contributions_all: "\<forall>q\<in>set ps. fst q = k \<Longrightarrow> contributions k ps = map snd ps"
  by (simp add: contributions_def)

lemma full_contraction_returned:
  assumes no_out: "length (out_idx_a (contract_ctx_of qadd is_fermion flips listed spta sptb ia ib))
      + length (out_idx_b (contract_ctx_of qadd is_fermion flips listed spta sptb ia ib)) = 0"
    and ret: "contract qadd is_fermion flips listed spta sptb ia ib = Inr r"
  shows "(\<exists>v. r = ScalarResult v)
    \<and> (matching_pairs (contract_ctx_of qadd is_fermion flips listed spta sptb ia ib)
          (blocks spta) (blocks sptb) = [] \<longrightarrow> r = ScalarResult 0)
    \<and> (matching_pairs (contract_ctx_of qadd is_fermion flips listed spta sptb ia ib)
          (blocks spta) (blocks sptb) \<noteq> [] \<longrightarrow>
        (\<exists>ps x xs acc v.
           traverse (pair_result (contract_ctx_of qadd is_fermion flips listed spta sptb ia ib))
             (matching_pairs (contract_ctx_of qadd is_fermion flips listed spta sptb ia ib)
                (blocks spta) (blocks sptb)) = Inr ps
           \<and> map snd ps = x # xs \<and> add_all x xs = Inr acc \<and> nd_item acc = Inr v
           \<and> r = ScalarResult v))"
proof -
  let ?c = "contract_ctx_of qadd is_fermion flips listed spta sptb ia ib"
  let ?pairs = "matching_pairs ?c (blocks spta) (blocks sptb)"
  from no_out have oa: "out_idx_a ?c = []" and ob: "out_idx_b ?c = []" by simp_all
  from ret obtain m where cb: "contract_blocks qadd is_fermion flips listed spta sptb ia ib = Inr m"
    by (auto simp: contract_def Let_def split: if_splits sum.splits)
  from ret cb no_out have res:
    "(if length m = 0 then Inr (ScalarResult 0)
      else (case map_of m [] of
              None \<Rightarrow> Inl KeyError
            | Some blk \<Rightarrow> (case nd_item (reduced blk) of
                             Inl e \<Rightarrow> Inl e
                           | Inr x \<Rightarrow> Inr (ScalarResult x)))) = Inr r"
    by (simp add: contract_def Let_def split: if_splits)
  from contract_blocks_store[OF cb] obtain ps where
    ps: "traverse (pair_result ?c) ?pairs = Inr ps" and st: "store_all [] ps = Inr m" by blast
  from store_all_accumulates[OF accumulates_empty st] have acc: "accumulates m ps" by simp
  have len: "length ps = length ?pairs" using ps by (rule traverse_length)
  have em: "m = [] \<longleftrightarrow> ps = []"
    using acc unfolding accumulates_def by (metis image_is_empty set_empty)
  have sc: "\<exists>v. r = ScalarResult v"
    using res by (auto split: if_splits option.splits sum.splits)
  have z: "?pairs = [] \<longrightarrow> r = ScalarResult 0"
    using res em len by auto
  have nz: "?pairs \<noteq> [] \<longrightarrow>
        (\<exists>ps x xs acc v. traverse (pair_result ?c) ?pairs = Inr ps
           \<and> map snd ps = x # xs \<and> add_all x xs = Inr acc \<and> nd_item acc = Inr v
           \<and> r = ScalarResult v)"
  proof
    assume "?pairs \<noteq> []"
    with len em have mne: "m \<noteq> []" by auto
    with res obtain blk v where mo: "map_of m [] = Some blk" and it: "nd_item (reduced blk) = Inr v"
      and rv: "r = ScalarResult v"
      by (auto split: if_splits option.splits sum.splits)
    from mo have mem: "([], blk) \<in> set m" by (rule map_of_SomeD)
    have "\<forall>q\<in>set ps. fst q = []"
      using traverse_set[OF ps] pair_result_no_out_legs[OF oa ob] by blast
    then have "contributions [] ps = map snd ps" by (rule contributions_all)
    with acc mem obtain x xs where "map snd ps = x # xs" "add_all x xs = Inr (reduced blk)"
      unfolding accumulates_def by force
    with ps it rv have "traverse (pair_result ?c) ?pairs = Inr ps
           \<and> map snd ps = x # xs \<and> add_all x xs = Inr (reduced blk)
           \<and> nd_item (reduced blk) = Inr v \<and> r = ScalarResult v" by simp
    then show "\<exists>ps x xs acc v. traverse (pair_result ?c) ?pairs = Inr ps
           \<and> map snd ps = x # xs \<and> add_all x xs = Inr acc \<and> nd_item acc = Inr v
           \<and> r = ScalarResult v" by (intro exI)
  qed
  from sc z nz show ?thesis by blast
qed

lemma build_map_idx_b_total:
  "\<forall>b\<in>set bs. \<exists>l. labels_at b ib = Inr l \<Longrightarrow> \<exists>mb. build_map_idx_b ib bs m = Inr mb"
  by (induction bs arbitrary: m) auto

lemma outer_loop_no_match:
  assumes ok: "index_ok mb"
    and lk: "\<And>k. block_lookup mb k = filter (\<lambda>b. labels_at b (idxb c) = Inr k) bs"
  shows "\<forall>a\<in>set as. \<exists>l. labels_at a (idxa c) = Inr l \<Longrightarrow> matching_pairs c as bs = [] \<Longrightarrow>
    outer_loop c mb as m = Inr m"
proof (induction as)
  case Nil
  then show ?case by simp
next
  case (Cons a as)
  from Cons.prems(1) obtain subg where sg: "labels_at a (idxa c) = Inr subg" by auto
  from Cons.prems(2) have f: "filter (\<lambda>b. labels_at b (idxb c) = labels_at a (idxa c)) bs = []"
    and r: "matching_pairs c as bs = []"
    by (simp_all add: matching_pairs_def)
  from f have "block_lookup mb subg = []" by (simp add: lk sg)
  then have "map_of mb subg = None" using map_of_block_lookup[OF ok, of subg] by simp
  with sg Cons.IH[OF _ r] Cons.prems(1) show ?case by simp
qed

lemma contract_no_match:
  assumes len: "length ia = length ib"
    and no_out: "length (out_idx_a (contract_ctx_of qadd is_fermion flips listed spta sptb ia ib))
      + length (out_idx_b (contract_ctx_of qadd is_fermion flips listed spta sptb ia ib)) = 0"
    and la: "\<forall>a\<in>set (blocks spta).
      \<exists>l. labels_at a (idxa (contract_ctx_of qadd is_fermion flips listed spta sptb ia ib)) = Inr l"
    and lb: "\<forall>b\<in>set (blocks sptb).
      \<exists>l. labels_at b (idxb (contract_ctx_of qadd is_fermion flips listed spta sptb ia ib)) = Inr l"
    and nm: "matching_pairs (contract_ctx_of qadd is_fermion flips listed spta sptb ia ib)
          (blocks spta) (blocks sptb) = []"
  shows "contract qadd is_fermion flips listed spta sptb ia ib = Inr (ScalarResult 0)"
proof -
  let ?c = "contract_ctx_of qadd is_fermion flips listed spta sptb ia ib"
  from build_map_idx_b_total[OF lb] obtain mb where
    b: "build_map_idx_b (idxb ?c) (blocks sptb) [] = Inr mb" by blast
  have e: "index_ok ([] :: 'a block_index)" by (simp add: index_ok_def)
  from build_map_idx_b_lookup[OF b e] have ok: "index_ok mb"
    and lk: "\<And>k. block_lookup mb k = filter (\<lambda>b. labels_at b (idxb ?c) = Inr k) (blocks sptb)"
    by (auto simp: block_lookup_def)
  from outer_loop_no_match[OF ok lk la nm] have "outer_loop ?c mb (blocks spta) [] = Inr []" .
  with b have "contract_blocks qadd is_fermion flips listed spta sptb ia ib = Inr []"
    by (simp add: contract_blocks_def Let_def)
  with len no_out show ?thesis by (simp add: contract_def Let_def)
qed

lemma covers_normalized:
  assumes "covers_all_legs rank idx" "p < rank"
  shows "int p \<in> set (normalize_legs rank idx)"
proof -
  from assms have "int p \<in> set idx \<or> int p - int rank \<in> set idx"
    by (simp add: covers_all_legs_def)
  then show ?thesis
  proof
    assume "int p \<in> set idx"
    then have "(\<lambda>x. if x \<ge> 0 then x else int rank + x) (int p) \<in> set (normalize_legs rank idx)"
      unfolding normalize_legs_def set_map by (rule imageI)
    then show ?thesis by simp
  next
    assume "int p - int rank \<in> set idx"
    then have "(\<lambda>x. if x \<ge> 0 then x else int rank + x) (int p - int rank)
        \<in> set (normalize_legs rank idx)"
      unfolding normalize_legs_def set_map by (rule imageI)
    with assms(2) show ?thesis by simp
  qed
qed

lemma covers_no_out_legs:
  assumes "listed [] = []" "covers_all_legs rank idx"
  shows "out_legs listed rank (normalize_legs rank idx) = []"
proof -
  have "filter (\<lambda>p. int p \<notin> set (normalize_legs rank idx)) [0..<rank] = []"
    using covers_normalized[OF assms(2)] by (simp add: filter_empty_conv)
  with assms(1) show ?thesis by (simp add: out_legs_def)
qed

lemma normalize_axes_pos:
  "normalize_axes as bs xs ys = Inr (xa, xb) \<Longrightarrow>
   xa = map (axis_pos (length as)) xs \<and> xb = map (axis_pos (length bs)) ys"
proof (induction as bs xs ys arbitrary: xa xb rule: normalize_axes.induct)
  case (1 as bs)
  then show ?case by simp
next
  case (2 as bs x xs y ys)
  from "2.prems" obtain da db xa' xb' where
    "py_index as x = Inr da" "py_index bs y = Inr db" "da = db"
    "normalize_axes as bs xs ys = Inr (xa', xb')"
    "xa = axis_pos (length as) x # xa'" "xb = axis_pos (length bs) y # xb'"
    by (auto split: sum.splits if_splits)
  with "2.IH"[of da db xa' xb'] show ?case by simp
qed simp_all

lemma tensordot_all_axes:
  assumes td: "tensordot a b na nb = Inr td"
    and ca: "\<And>p. p < ndim a \<Longrightarrow> int p \<in> set na"
    and cb: "\<And>p. p < ndim b \<Longrightarrow> int p \<in> set nb"
  shows "shape td = [] \<and> length (data td) = 1"
proof -
  from td obtain xa xb where n: "normalize_axes (shape a) (shape b) na nb = Inr (xa, xb)"
    and d: "td = dense_contract a b xa xb"
    by (auto simp: tensordot_def split: if_splits sum.splits)
  from normalize_axes_pos[OF n] have xa: "xa = map (axis_pos (ndim a)) na"
    and xb: "xb = map (axis_pos (ndim b)) nb" by (simp_all add: ndim_def)
  have "\<And>p. p < ndim a \<Longrightarrow> p \<in> set xa"
  proof -
    fix p assume "p < ndim a"
    from ca[OF this] have "axis_pos (ndim a) (int p) \<in> set xa" unfolding xa set_map by (rule imageI)
    then show "p \<in> set xa" by (simp add: axis_pos_def)
  qed
  then have fa: "filter (\<lambda>k. k \<notin> set xa) [0..<ndim a] = []" by (simp add: filter_empty_conv)
  have "\<And>p. p < ndim b \<Longrightarrow> p \<in> set xb"
  proof -
    fix p assume "p < ndim b"
    from cb[OF this] have "axis_pos (ndim b) (int p) \<in> set xb" unfolding xb set_map by (rule imageI)
    then show "p \<in> set xb" by (simp add: axis_pos_def)
  qed
  then have fb: "filter (\<lambda>k. k \<notin> set xb) [0..<ndim b] = []" by (simp add: filter_empty_conv)
  show ?thesis unfolding d dense_contract_def Let_def fa fb by simp
qed

lemma full_contribution_scalar:
  assumes pr: "pair_result c (a, b) = Inr q"
    and ca: "\<And>p. p < ndim (reduced a) \<Longrightarrow> int p \<in> set (idxa c)"
    and cb: "\<And>p. p < ndim (reduced b) \<Longrightarrow> int p \<in> set (idxb c)"
  shows "shape (snd q) = [] \<and> length (data (snd q)) = 1"
proof -
  from pr obtain td f where td: "tensordot (reduced a) (reduced b) (idxa c) (idxb c) = Inr td"
    and q: "snd q = (if flip_on c f then nd_scale (- 1) td else td)"
    by (auto simp: pair_result_def pair_output_def split: sum.splits)
  from tensordot_all_axes[OF td ca cb] show ?thesis unfolding q by (simp add: nd_scale_def)
qed

lemma nd_item_single: "length (data a) = 1 \<Longrightarrow> nd_item a = Inr (data a ! 0)"
  by (cases "data a") (auto simp: nd_item_def split: list.splits)

lemma traverse_items:
  "\<forall>p\<in>set ps. length (data (snd p)) = 1 \<Longrightarrow>
   traverse (\<lambda>p. nd_item (snd p)) ps = Inr (map (\<lambda>p. data (snd p) ! 0) ps)"
  by (induction ps) (simp_all add: nd_item_single)

lemma add_all_scalars:
  assumes a: "add_all x xs = Inr acc"
    and s: "\<forall>y\<in>set (x # xs). shape y = [] \<and> length (data y) = 1"
  shows "nd_item acc = Inr (sum_list (map (\<lambda>y. data y ! 0) (x # xs)))"
proof -
  from s have s': "\<forall>y\<in>set xs. shape y = shape x \<and> length (data y) = length (data x)"
    and lx: "length (data x) = 1" by simp_all
  from add_all_elementwise[OF a s'] lx
  have "data acc = [data x ! 0 + sum_list (map (\<lambda>y. data y ! 0) xs)]" by simp
  then show ?thesis by (simp add: nd_item_def)
qed


lemma matching_pairs_blocks:
  "(a, b) \<in> set (matching_pairs c as bs) \<Longrightarrow> a \<in> set as \<and> b \<in> set bs"
  by (auto simp: matching_pairs_def)

lemma ctx_legs:
  "idxa (contract_ctx_of qadd is_fermion flips listed spta sptb ia ib) = normalize_legs (st_rank spta) ia"
  "idxb (contract_ctx_of qadd is_fermion flips listed spta sptb ia ib) = normalize_legs (st_rank sptb) ib"
  "out_idx_a (contract_ctx_of qadd is_fermion flips listed spta sptb ia ib)
     = out_legs listed (st_rank spta) (normalize_legs (st_rank spta) ia)"
  "out_idx_b (contract_ctx_of qadd is_fermion flips listed spta sptb ia ib)
     = out_legs listed (st_rank sptb) (normalize_legs (st_rank sptb) ib)"
  by (simp_all add: contract_ctx_of_def Let_def)

lemma labels_at_in_range:
  assumes "legs_in_range rank idx" "length (q_labels a) = rank"
  shows "\<exists>l. labels_at a (normalize_legs rank idx) = Inr l"
proof -
  have "\<And>xs. \<forall>x\<in>set xs. - int (length (q_labels a)) \<le> x \<and> x < int (length (q_labels a)) \<Longrightarrow>
        \<exists>l. traverse (py_index (q_labels a)) xs = Inr l"
  proof -
    fix xs show "\<forall>x\<in>set xs. - int (length (q_labels a)) \<le> x \<and> x < int (length (q_labels a)) \<Longrightarrow>
        \<exists>l. traverse (py_index (q_labels a)) xs = Inr l"
      by (induction xs) (auto simp: py_index_def)
  qed
  moreover have "\<forall>x\<in>set (normalize_legs rank idx). - int rank \<le> x \<and> x < int rank"
    using assms(1) by (auto simp: legs_in_range_def normalize_legs_def)
  ultimately show ?thesis using assms(2) by (simp add: labels_at_def)
qed

lemma full_contraction_sum:
  assumes ls: "listed [] = []"
    and ca: "covers_all_legs (st_rank spta) ia"
    and cb: "covers_all_legs (st_rank sptb) ib"
    and ra: "\<forall>a\<in>set (blocks spta). ndim (reduced a) = st_rank spta"
    and rb: "\<forall>b\<in>set (blocks sptb). ndim (reduced b) = st_rank sptb"
    and ret: "contract qadd is_fermion flips listed spta sptb ia ib = Inr r"
  shows "\<exists>ps xs. traverse (pair_result (contract_ctx_of qadd is_fermion flips listed spta sptb ia ib))
               (matching_pairs (contract_ctx_of qadd is_fermion flips listed spta sptb ia ib) (blocks spta) (blocks sptb)) = Inr ps
           \<and> (\<forall>p\<in>set ps. fst p = [] \<and> shape (snd p) = [])
           \<and> traverse (\<lambda>p. nd_item (snd p)) ps = Inr xs
           \<and> r = ScalarResult (sum_list xs)"
proof -
  let ?c = "(contract_ctx_of qadd is_fermion flips listed spta sptb ia ib)"
  let ?pairs = "matching_pairs ?c (blocks spta) (blocks sptb)"
  have oa: "out_idx_a ?c = []" unfolding ctx_legs using ls ca by (rule covers_no_out_legs)
  have ob: "out_idx_b ?c = []" unfolding ctx_legs using ls cb by (rule covers_no_out_legs)
  from oa ob have no_out: "length (out_idx_a ?c) + length (out_idx_b ?c) = 0" by simp
  note fr = full_contraction_returned[OF no_out ret]
  show ?thesis
  proof (cases "?pairs = []")
    case True
    with fr have "r = ScalarResult 0" by blast
    with True have "traverse (pair_result ?c) ?pairs = Inr []
           \<and> (\<forall>p\<in>set []. fst p = [] \<and> shape (snd p) = [])
           \<and> traverse (\<lambda>p. nd_item (snd p)) ([] :: ('a list \<times> ndarray) list) = Inr []
           \<and> r = ScalarResult (sum_list [])" by simp
    then show ?thesis by (intro exI)
  next
    case False
    from fr[THEN conjunct2, THEN conjunct2, rule_format, OF False]
    obtain ps x xs acc v where ps: "traverse (pair_result ?c) ?pairs = Inr ps"
      and xs: "map snd ps = x # xs" and ad: "add_all x xs = Inr acc"
      and it: "nd_item acc = Inr v" and rv: "r = ScalarResult v" by (elim exE conjE)
    have each: "\<forall>p\<in>set ps. fst p = [] \<and> shape (snd p) = [] \<and> length (data (snd p)) = 1"
    proof
      fix p assume "p \<in> set ps"
      with traverse_set[OF ps] obtain ab where ab: "ab \<in> set ?pairs" and pr: "pair_result ?c ab = Inr p"
        by blast
      obtain a b where abp: "ab = (a, b)" by (cases ab)
      from ab abp matching_pairs_blocks have ia: "a \<in> set (blocks spta)" and ib: "b \<in> set (blocks sptb)"
        by blast+
      have c1: "\<And>k. k < ndim (reduced a) \<Longrightarrow> int k \<in> set (idxa ?c)"
        unfolding ctx_legs using covers_normalized[OF ca] ra ia by simp
      have c2: "\<And>k. k < ndim (reduced b) \<Longrightarrow> int k \<in> set (idxb ?c)"
        unfolding ctx_legs using covers_normalized[OF cb] rb ib by simp
      from pr have pr': "pair_result ?c (a, b) = Inr p" unfolding abp .
      from full_contribution_scalar[OF pr' c1 c2] pair_result_no_out_legs[OF oa ob pr]
      show "fst p = [] \<and> shape (snd p) = [] \<and> length (data (snd p)) = 1" by simp
    qed
    then have l1: "\<forall>p\<in>set ps. length (data (snd p)) = 1" by simp
    have "\<forall>y\<in>set (map snd ps). shape y = [] \<and> length (data y) = 1" using each by simp
    then have "\<forall>y\<in>set (x # xs). shape y = [] \<and> length (data y) = 1" unfolding xs .
    from add_all_scalars[OF ad this] it
    have "v = sum_list (map (\<lambda>y. data y ! 0) (x # xs))" by simp
    also have "\<dots> = sum_list (map (\<lambda>y. data y ! 0) (map snd ps))" unfolding xs ..
    also have "\<dots> = sum_list (map (\<lambda>p. data (snd p) ! 0) ps)" by (simp add: comp_def)
    finally have v: "v = sum_list (map (\<lambda>p. data (snd p) ! 0) ps)" .
    from ps each traverse_items[OF l1] rv v
    have "traverse (pair_result ?c) ?pairs = Inr ps
           \<and> (\<forall>p\<in>set ps. fst p = [] \<and> shape (snd p) = [])
           \<and> traverse (\<lambda>p. nd_item (snd p)) ps = Inr (map (\<lambda>p. data (snd p) ! 0) ps)
           \<and> r = ScalarResult (sum_list (map (\<lambda>p. data (snd p) ! 0) ps))" by simp
    then show ?thesis by (intro exI)
  qed
qed


text \<open>
  C5. When the leg lists of a call of \<open>contract\<close> cover all legs of both operands
  (every position of an operand occurs in its list, as itself or counted from the end),
  the blocks of each operand being of the rank of the operand, a call that returns,
  returns a number and never a collection: every matching pair of blocks contributes an
  array without legs, of one element, and the number returned is the sum of these elements
  over all matching pairs; it is 0 when no pair of blocks matches on the contracted
  labels. When moreover the two leg lists have one length, each leg is a position of its
  operand, every block has one label for each leg and no pair matches, the call does
  return, with 0.
\<close>

theorem full_contraction_scalar:
  assumes ls: "listed [] = []"
    and ca: "covers_all_legs (st_rank spta) ia"
    and cb: "covers_all_legs (st_rank sptb) ib"
    and ra: "\<forall>a\<in>set (blocks spta). ndim (reduced a) = st_rank spta"
    and rb: "\<forall>b\<in>set (blocks sptb). ndim (reduced b) = st_rank sptb"
  shows "(\<forall>r. contract qadd is_fermion flips listed spta sptb ia ib = Inr r \<longrightarrow>
      (\<exists>ps xs. traverse (pair_result (contract_ctx_of qadd is_fermion flips listed spta sptb ia ib))
               (matching_pairs (contract_ctx_of qadd is_fermion flips listed spta sptb ia ib) (blocks spta) (blocks sptb)) = Inr ps
           \<and> (\<forall>p\<in>set ps. fst p = [] \<and> shape (snd p) = [])
           \<and> traverse (\<lambda>p. nd_item (snd p)) ps = Inr xs
           \<and> r = ScalarResult (sum_list xs))
      \<and> (matching_pairs (contract_ctx_of qadd is_fermion flips listed spta sptb ia ib) (blocks spta) (blocks sptb) = [] \<longrightarrow> r = ScalarResult 0))
    \<and> (length ia = length ib
        \<and> legs_in_range (st_rank spta) ia \<and> legs_in_range (st_rank sptb) ib
        \<and> (\<forall>a\<in>set (blocks spta). length (q_labels a) = st_rank spta)
        \<and> (\<forall>b\<in>set (blocks sptb). length (q_labels b) = st_rank sptb)
        \<and> matching_pairs (contract_ctx_of qadd is_fermion flips listed spta sptb ia ib) (blocks spta) (blocks sptb) = [] \<longrightarrow>
        contract qadd is_fermion flips listed spta sptb ia ib = Inr (ScalarResult 0))"
proof -
  let ?c = "(contract_ctx_of qadd is_fermion flips listed spta sptb ia ib)"
  have oa: "out_idx_a ?c = []" unfolding ctx_legs using ls ca by (rule covers_no_out_legs)
  have ob: "out_idx_b ?c = []" unfolding ctx_legs using ls cb by (rule covers_no_out_legs)
  from oa ob have no_out: "length (out_idx_a ?c) + length (out_idx_b ?c) = 0" by simp
  have p1: "\<forall>r. contract qadd is_fermion flips listed spta sptb ia ib = Inr r \<longrightarrow>
      (\<exists>ps xs. traverse (pair_result ?c) (matching_pairs ?c (blocks spta) (blocks sptb)) = Inr ps
           \<and> (\<forall>p\<in>set ps. fst p = [] \<and> shape (snd p) = [])
           \<and> traverse (\<lambda>p. nd_item (snd p)) ps = Inr xs
           \<and> r = ScalarResult (sum_list xs))
      \<and> (matching_pairs ?c (blocks spta) (blocks sptb) = [] \<longrightarrow> r = ScalarResult 0)"
  proof (intro allI impI conjI)
    fix r assume ret: "contract qadd is_fermion flips listed spta sptb ia ib = Inr r"
    from full_contraction_sum[OF ls ca cb ra rb ret]
    show "\<exists>ps xs. traverse (pair_result ?c) (matching_pairs ?c (blocks spta) (blocks sptb)) = Inr ps
           \<and> (\<forall>p\<in>set ps. fst p = [] \<and> shape (snd p) = [])
           \<and> traverse (\<lambda>p. nd_item (snd p)) ps = Inr xs
           \<and> r = ScalarResult (sum_list xs)" .
    assume "matching_pairs ?c (blocks spta) (blocks sptb) = []"
    with full_contraction_returned[OF no_out ret] show "r = ScalarResult 0" by blast
  qed
  have p2: "length ia = length ib
        \<and> legs_in_range (st_rank spta) ia \<and> legs_in_range (st_rank sptb) ib
        \<and> (\<forall>a\<in>set (blocks spta). length (q_labels a) = st_rank spta)
        \<and> (\<forall>b\<in>set (blocks sptb). length (q_labels b) = st_rank sptb)
        \<and> matching_pairs ?c (blocks spta) (blocks sptb) = [] \<longrightarrow>
        contract qadd is_fermion flips listed spta sptb ia ib = Inr (ScalarResult 0)"
  proof
    assume h: "length ia = length ib
        \<and> legs_in_range (st_rank spta) ia \<and> legs_in_range (st_rank sptb) ib
        \<and> (\<forall>a\<in>set (blocks spta). length (q_labels a) = st_rank spta)
        \<and> (\<forall>b\<in>set (blocks sptb). length (q_labels b) = st_rank sptb)
        \<and> matching_pairs ?c (blocks spta) (blocks sptb) = []"
    then have len: "length ia = length ib" and nm: "matching_pairs ?c (blocks spta) (blocks sptb) = []"
      by simp_all
    have la: "\<forall>a\<in>set (blocks spta). \<exists>l. labels_at a (idxa ?c) = Inr l"
      unfolding ctx_legs using h labels_at_in_range by blast
    have lb: "\<forall>b\<in>set (blocks sptb). \<exists>l. labels_at b (idxb ?c) = Inr l"
      unfolding ctx_legs using h labels_at_in_range by blast
    from contract_no_match[OF len no_out la lb nm]
    show "contract qadd is_fermion flips listed spta sptb ia ib = Inr (ScalarResult 0)" .
  qed
  from p1 p2 show ?thesis by (rule conjI)
qed

lemma scalar_example:
  "contract (+) odd (\<lambda>f. f) (\<lambda>xs. xs)
     \<lparr>blocks = [\<lparr>q_labels = [0, 1 :: int], reduced = \<lparr>shape = [1, 2], data = [1, 2]\<rparr>\<rparr>,
                \<lparr>q_labels = [0, 2], reduced = \<lparr>shape = [1, 1], data = [5]\<rparr>\<rparr>],
      ftype = LeftFusedMPSTensor, delta_quantum = None\<rparr>
     \<lparr>blocks = [\<lparr>q_labels = [0, 1 :: int], reduced = \<lparr>shape = [1, 2], data = [3, 4]\<rparr>\<rparr>,
                \<lparr>q_labels = [0, 2], reduced = \<lparr>shape = [1, 1], data = [7]\<rparr>\<rparr>],
      ftype = LeftFusedMPSTensor, delta_quantum = None\<rparr> [0, - 1] [- 2, 1]
   = Inr (ScalarResult 46)"
  by code_simp

lemma scalar_example_pairs:
  "traverse (pair_result (contract_ctx_of (+) odd (\<lambda>f. f) (\<lambda>xs. xs)
     \<lparr>blocks = [\<lparr>q_labels = [0, 1 :: int], reduced = \<lparr>shape = [1, 2], data = [1, 2]\<rparr>\<rparr>,
                \<lparr>q_labels = [0, 2], reduced = \<lparr>shape = [1, 1], data = [5]\<rparr>\<rparr>],
      ftype = LeftFusedMPSTensor, delta_quantum = None\<rparr>
     \<lparr>blocks = [\<lparr>q_labels = [0, 1 :: int], reduced = \<lparr>shape = [1, 2], data = [3, 4]\<rparr>\<rparr>,
                \<lparr>q_labels = [0, 2], reduced = \<lparr>shape = [1, 1], data = [7]\<rparr>\<rparr>],
      ftype = LeftFusedMPSTensor, delta_quantum = None\<rparr> [0, - 1] [- 2, 1]))
     (matching_pairs (contract_ctx_of (+) odd (\<lambda>f. f) (\<lambda>xs. xs)
     \<lparr>blocks = [\<lparr>q_labels = [0, 1 :: int], reduced = \<lparr>shape = [1, 2], data = [1, 2]\<rparr>\<rparr>,
                \<lparr>q_labels = [0, 2], reduced = \<lparr>shape = [1, 1], data = [5]\<rparr>\<rparr>],
      ftype = LeftFusedMPSTensor, delta_quantum = None\<rparr>
     \<lparr>blocks = [\<lparr>q_labels = [0, 1 :: int], reduced = \<lparr>shape = [1, 2], data = [3, 4]\<rparr>\<rparr>,
                \<lparr>q_labels = [0, 2], reduced = \<lparr>shape = [1, 1], data = [7]\<rparr>\<rparr>],
      ftype = LeftFusedMPSTensor, delta_quantum = None\<rparr> [0, - 1] [- 2, 1])
       (blocks \<lparr>blocks = [\<lparr>q_labels = [0, 1 :: int], reduced = \<lparr>shape = [1, 2], data = [1, 2]\<rparr>\<rparr>,
                \<lparr>q_labels = [0, 2], reduced = \<lparr>shape = [1, 1], data = [5]\<rparr>\<rparr>],
      ftype = LeftFusedMPSTensor, delta_quantum = None\<rparr>)
       (blocks \<lparr>blocks = [\<lparr>q_labels = [0, 1 :: int], reduced = \<lparr>shape = [1, 2], data = [3, 4]\<rparr>\<rparr>,
                \<lparr>q_labels = [0, 2], reduced = \<lparr>shape = [1, 1], data = [7]\<rparr>\<rparr>],
      ftype = LeftFusedMPSTensor, delta_quantum = None\<rparr>))
   = Inr [([], \<lparr>shape = [], data = [11]\<rparr>), ([], \<lparr>shape = [], data = [35]\<rparr>)]"
  by code_simp

lemma scalar_example_covers:
  "covers_all_legs (st_rank \<lparr>blocks = [\<lparr>q_labels = [0, 1 :: int], reduced = \<lparr>shape = [1, 2], data = [1, 2]\<rparr>\<rparr>,
                \<lparr>q_labels = [0, 2], reduced = \<lparr>shape = [1, 1], data = [5]\<rparr>\<rparr>],
      ftype = LeftFusedMPSTensor, delta_quantum = None\<rparr>) [0, - 1]"
  "covers_all_legs (st_rank \<lparr>blocks = [\<lparr>q_labels = [0, 1 :: int], reduced = \<lparr>shape = [1, 2], data = [3, 4]\<rparr>\<rparr>,
                \<lparr>q_labels = [0, 2], reduced = \<lparr>shape = [1, 1], data = [7]\<rparr>\<rparr>],
      ftype = LeftFusedMPSTensor, delta_quantum = None\<rparr>) [- 2, 1]"
  "covers_all_legs (st_rank \<lparr>blocks = [\<lparr>q_labels = [1, 1 :: int], reduced = \<lparr>shape = [1, 2], data = [3, 4]\<rparr>\<rparr>,
                \<lparr>q_labels = [1, 2], reduced = \<lparr>shape = [1, 1], data = [7]\<rparr>\<rparr>],
      ftype = LeftFusedMPSTensor, delta_quantum = None\<rparr>) [- 2, 1]"
  "legs_in_range (st_rank \<lparr>blocks = [\<lparr>q_labels = [0, 1 :: int], reduced = \<lparr>shape = [1, 2], data = [1, 2]\<rparr>\<rparr>,
                \<lparr>q_labels = [0, 2], reduced = \<lparr>shape = [1, 1], data = [5]\<rparr>\<rparr>],
      ftype = LeftFusedMPSTensor, delta_quantum = None\<rparr>) [0, - 1]"
  "legs_in_range (st_rank \<lparr>blocks = [\<lparr>q_labels = [1, 1 :: int], reduced = \<lparr>shape = [1, 2], data = [3, 4]\<rparr>\<rparr>,
                \<lparr>q_labels = [1, 2], reduced = \<lparr>shape = [1, 1], data = [7]\<rparr>\<rparr>],
      ftype = LeftFusedMPSTensor, delta_quantum = None\<rparr>) [- 2, 1]"
  "matching_pairs (contract_ctx_of (+) odd (\<lambda>f. f) (\<lambda>xs. xs)
     \<lparr>blocks = [\<lparr>q_labels = [0, 1 :: int], reduced = \<lparr>shape = [1, 2], data = [1, 2]\<rparr>\<rparr>,
                \<lparr>q_labels = [0, 2], reduced = \<lparr>shape = [1, 1], data = [5]\<rparr>\<rparr>],
      ftype = LeftFusedMPSTensor, delta_quantum = None\<rparr>
     \<lparr>blocks = [\<lparr>q_labels = [1, 1 :: int], reduced = \<lparr>shape = [1, 2], data = [3, 4]\<rparr>\<rparr>,
                \<lparr>q_labels = [1, 2], reduced = \<lparr>shape = [1, 1], data = [7]\<rparr>\<rparr>],
      ftype = LeftFusedMPSTensor, delta_quantum = None\<rparr> [0, - 1] [- 2, 1])
       (blocks \<lparr>blocks = [\<lparr>q_labels = [0, 1 :: int], reduced = \<lparr>shape = [1, 2], data = [1, 2]\<rparr>\<rparr>,
                \<lparr>q_labels = [0, 2], reduced = \<lparr>shape = [1, 1], data = [5]\<rparr>\<rparr>],
      ftype = LeftFusedMPSTensor, delta_quantum = None\<rparr>)
       (blocks \<lparr>blocks = [\<lparr>q_labels = [1, 1 :: int], reduced = \<lparr>shape = [1, 2], data = [3, 4]\<rparr>\<rparr>,
                \<lparr>q_labels = [1, 2], reduced = \<lparr>shape = [1, 1], data = [7]\<rparr>\<rparr>],
      ftype = LeftFusedMPSTensor, delta_quantum = None\<rparr>) = []"
  by code_simp+


lemma scalar_example_ranks:
  "\<forall>a\<in>set (blocks \<lparr>blocks = [\<lparr>q_labels = [0, 1 :: int], reduced = \<lparr>shape = [1, 2], data = [1, 2]\<rparr>\<rparr>,
                \<lparr>q_labels = [0, 2], reduced = \<lparr>shape = [1, 1], data = [5]\<rparr>\<rparr>],
      ftype = LeftFusedMPSTensor, delta_quantum = None\<rparr>). ndim (reduced a) = st_rank \<lparr>blocks = [\<lparr>q_labels = [0, 1 :: int], reduced = \<lparr>shape = [1, 2], data = [1, 2]\<rparr>\<rparr>,
                \<lparr>q_labels = [0, 2], reduced = \<lparr>shape = [1, 1], data = [5]\<rparr>\<rparr>],
      ftype = LeftFusedMPSTensor, delta_quantum = None\<rparr>"
  "\<forall>a\<in>set (blocks \<lparr>blocks = [\<lparr>q_labels = [0, 1 :: int], reduced = \<lparr>shape = [1, 2], data = [3, 4]\<rparr>\<rparr>,
                \<lparr>q_labels = [0, 2], reduced = \<lparr>shape = [1, 1], data = [7]\<rparr>\<rparr>],
      ftype = LeftFusedMPSTensor, delta_quantum = None\<rparr>). ndim (reduced a) = st_rank \<lparr>blocks = [\<lparr>q_labels = [0, 1 :: int], reduced = \<lparr>shape = [1, 2], data = [3, 4]\<rparr>\<rparr>,
                \<lparr>q_labels = [0, 2], reduced = \<lparr>shape = [1, 1], data = [7]\<rparr>\<rparr>],
      ftype = LeftFusedMPSTensor, delta_quantum = None\<rparr>"
  "\<forall>a\<in>set (blocks \<lparr>blocks = [\<lparr>q_labels = [1, 1 :: int], reduced = \<lparr>shape = [1, 2], data = [3, 4]\<rparr>\<rparr>,
                \<lparr>q_labels = [1, 2], reduced = \<lparr>shape = [1, 1], data = [7]\<rparr>\<rparr>],
      ftype = LeftFusedMPSTensor, delta_quantum = None\<rparr>). ndim (reduced a) = st_rank \<lparr>blocks = [\<lparr>q_labels = [1, 1 :: int], reduced = \<lparr>shape = [1, 2], data = [3, 4]\<rparr>\<rparr>,
                \<lparr>q_labels = [1, 2], reduced = \<lparr>shape = [1, 1], data = [7]\<rparr>\<rparr>],
      ftype = LeftFusedMPSTensor, delta_quantum = None\<rparr>"
  "\<forall>a\<in>set (blocks \<lparr>blocks = [\<lparr>q_labels = [0, 1 :: int], reduced = \<lparr>shape = [1, 2], data = [1, 2]\<rparr>\<rparr>,
                \<lparr>q_labels = [0, 2], reduced = \<lparr>shape = [1, 1], data = [5]\<rparr>\<rparr>],
      ftype = LeftFusedMPSTensor, delta_quantum = None\<rparr>). length (q_labels a) = st_rank \<lparr>blocks = [\<lparr>q_labels = [0, 1 :: int], reduced = \<lparr>shape = [1, 2], data = [1, 2]\<rparr>\<rparr>,
                \<lparr>q_labels = [0, 2], reduced = \<lparr>shape = [1, 1], data = [5]\<rparr>\<rparr>],
      ftype = LeftFusedMPSTensor, delta_quantum = None\<rparr>"
  "\<forall>a\<in>set (blocks \<lparr>blocks = [\<lparr>q_labels = [1, 1 :: int], reduced = \<lparr>shape = [1, 2], data = [3, 4]\<rparr>\<rparr>,
                \<lparr>q_labels = [1, 2], reduced = \<lparr>shape = [1, 1], data = [7]\<rparr>\<rparr>],
      ftype = LeftFusedMPSTensor, delta_quantum = None\<rparr>). length (q_labels a) = st_rank \<lparr>blocks = [\<lparr>q_labels = [1, 1 :: int], reduced = \<lparr>shape = [1, 2], data = [3, 4]\<rparr>\<rparr>,
                \<lparr>q_labels = [1, 2], reduced = \<lparr>shape = [1, 1], data = [7]\<rparr>\<rparr>],
      ftype = LeftFusedMPSTensor, delta_quantum = None\<rparr>"
  by code_simp+

theorem full_contraction_scalar_witness:
  "contract (+) odd (\<lambda>f. f) (\<lambda>xs. xs)
     \<lparr>blocks = [\<lparr>q_labels = [0, 1 :: int], reduced = \<lparr>shape = [1, 2], data = [1, 2]\<rparr>\<rparr>,
                \<lparr>q_labels = [0, 2], reduced = \<lparr>shape = [1, 1], data = [5]\<rparr>\<rparr>],
      ftype = LeftFusedMPSTensor, delta_quantum = None\<rparr>
     \<lparr>blocks = [\<lparr>q_labels = [0, 1 :: int], reduced = \<lparr>shape = [1, 2], data = [3, 4]\<rparr>\<rparr>,
                \<lparr>q_labels = [0, 2], reduced = \<lparr>shape = [1, 1], data = [7]\<rparr>\<rparr>],
      ftype = LeftFusedMPSTensor, delta_quantum = None\<rparr> [0, - 1] [- 2, 1]
   = Inr (ScalarResult (sum_list [11, 35]))
   \<and> traverse (pair_result (contract_ctx_of (+) odd (\<lambda>f. f) (\<lambda>xs. xs)
     \<lparr>blocks = [\<lparr>q_labels = [0, 1 :: int], reduced = \<lparr>shape = [1, 2], data = [1, 2]\<rparr>\<rparr>,
                \<lparr>q_labels = [0, 2], reduced = \<lparr>shape = [1, 1], data = [5]\<rparr>\<rparr>],
      ftype = LeftFusedMPSTensor, delta_quantum = None\<rparr>
     \<lparr>blocks = [\<lparr>q_labels = [0, 1 :: int], reduced = \<lparr>shape = [1, 2], data = [3, 4]\<rparr>\<rparr>,
                \<lparr>q_labels = [0, 2], reduced = \<lparr>shape = [1, 1], data = [7]\<rparr>\<rparr>],
      ftype = LeftFusedMPSTensor, delta_quantum = None\<rparr> [0, - 1] [- 2, 1]))
     (matching_pairs (contract_ctx_of (+) odd (\<lambda>f. f) (\<lambda>xs. xs)
     \<lparr>blocks = [\<lparr>q_labels = [0, 1 :: int], reduced = \<lparr>shape = [1, 2], data = [1, 2]\<rparr>\<rparr>,
                \<lparr>q_labels = [0, 2], reduced = \<lparr>shape = [1, 1], data = [5]\<rparr>\<rparr>],
      ftype = LeftFusedMPSTensor, delta_quantum = None\<rparr>
     \<lparr>blocks = [\<lparr>q_labels = [0, 1 :: int], reduced = \<lparr>shape = [1, 2], data = [3, 4]\<rparr>\<rparr>,
                \<lparr>q_labels = [0, 2], reduced = \<lparr>shape = [1, 1], data = [7]\<rparr>\<rparr>],
      ftype = LeftFusedMPSTensor, delta_quantum = None\<rparr> [0, - 1] [- 2, 1])
       (blocks \<lparr>blocks = [\<lparr>q_labels = [0, 1 :: int], reduced = \<lparr>shape = [1, 2], data = [1, 2]\<rparr>\<rparr>,
                \<lparr>q_labels = [0, 2], reduced = \<lparr>shape = [1, 1], data = [5]\<rparr>\<rparr>],
      ftype = LeftFusedMPSTensor, delta_quantum = None\<rparr>)
       (blocks \<lparr>blocks = [\<lparr>q_labels = [0, 1 :: int], reduced = \<lparr>shape = [1, 2], data = [3, 4]\<rparr>\<rparr>,
                \<lparr>q_labels = [0, 2], reduced = \<lparr>shape = [1, 1], data = [7]\<rparr>\<rparr>],
      ftype = LeftFusedMPSTensor, delta_quantum = None\<rparr>))
     = Inr [([], \<lparr>shape = [], data = [11]\<rparr>), ([], \<lparr>shape = [], data = [35]\<rparr>)]
   \<and> contract (+) odd (\<lambda>f. f) (\<lambda>xs. xs)
     \<lparr>blocks = [\<lparr>q_labels = [0, 1 :: int], reduced = \<lparr>shape = [1, 2], data = [1, 2]\<rparr>\<rparr>,
                \<lparr>q_labels = [0, 2], reduced = \<lparr>shape = [1, 1], data = [5]\<rparr>\<rparr>],
      ftype = LeftFusedMPSTensor, delta_quantum = None\<rparr>
     \<lparr>blocks = [\<lparr>q_labels = [1, 1 :: int], reduced = \<lparr>shape = [1, 2], data = [3, 4]\<rparr>\<rparr>,
                \<lparr>q_labels = [1, 2], reduced = \<lparr>shape = [1, 1], data = [7]\<rparr>\<rparr>],
      ftype = LeftFusedMPSTensor, delta_quantum = None\<rparr> [0, - 1] [- 2, 1]
   = Inr (ScalarResult 0)"
proof -
  from full_contraction_scalar[where listed = "\<lambda>xs. xs" and qadd = "(+)" and is_fermion = odd
      and flips = "\<lambda>f. f", OF refl scalar_example_covers(1,2) scalar_example_ranks(1,2),
      THEN conjunct1, rule_format, OF scalar_example, THEN conjunct1]
  obtain ps xs where ps: "traverse (pair_result (contract_ctx_of (+) odd (\<lambda>f. f) (\<lambda>xs. xs)
     \<lparr>blocks = [\<lparr>q_labels = [0, 1 :: int], reduced = \<lparr>shape = [1, 2], data = [1, 2]\<rparr>\<rparr>,
                \<lparr>q_labels = [0, 2], reduced = \<lparr>shape = [1, 1], data = [5]\<rparr>\<rparr>],
      ftype = LeftFusedMPSTensor, delta_quantum = None\<rparr>
     \<lparr>blocks = [\<lparr>q_labels = [0, 1 :: int], reduced = \<lparr>shape = [1, 2], data = [3, 4]\<rparr>\<rparr>,
                \<lparr>q_labels = [0, 2], reduced = \<lparr>shape = [1, 1], data = [7]\<rparr>\<rparr>],
      ftype = LeftFusedMPSTensor, delta_quantum = None\<rparr> [0, - 1] [- 2, 1]))
     (matching_pairs (contract_ctx_of (+) odd (\<lambda>f. f) (\<lambda>xs. xs)
     \<lparr>blocks = [\<lparr>q_labels = [0, 1 :: int], reduced = \<lparr>shape = [1, 2], data = [1, 2]\<rparr>\<rparr>,
                \<lparr>q_labels = [0, 2], reduced = \<lparr>shape = [1, 1], data = [5]\<rparr>\<rparr>],
      ftype = LeftFusedMPSTensor, delta_quantum = None\<rparr>
     \<lparr>blocks = [\<lparr>q_labels = [0, 1 :: int], reduced = \<lparr>shape = [1, 2], data = [3, 4]\<rparr>\<rparr>,
                \<lparr>q_labels = [0, 2], reduced = \<lparr>shape = [1, 1], data = [7]\<rparr>\<rparr>],
      ftype = LeftFusedMPSTensor, delta_quantum = None\<rparr> [0, - 1] [- 2, 1])
       (blocks \<lparr>blocks = [\<lparr>q_labels = [0, 1 :: int], reduced = \<lparr>shape = [1, 2], data = [1, 2]\<rparr>\<rparr>,
                \<lparr>q_labels = [0, 2], reduced = \<lparr>shape = [1, 1], data = [5]\<rparr>\<rparr>],
      ftype = LeftFusedMPSTensor, delta_quantum = None\<rparr>)
       (blocks \<lparr>blocks = [\<lparr>q_labels = [0, 1 :: int], reduced = \<lparr>shape = [1, 2], data = [3, 4]\<rparr>\<rparr>,
                \<lparr>q_labels = [0, 2], reduced = \<lparr>shape = [1, 1], data = [7]\<rparr>\<rparr>],
      ftype = LeftFusedMPSTensor, delta_quantum = None\<rparr>)) = Inr ps"
    and xs: "traverse (\<lambda>p. nd_item (snd p)) ps = Inr xs"
    and r: "(ScalarResult 46 :: int contract_result) = ScalarResult (sum_list xs)"
    by (elim exE conjE)
  from ps have pv: "ps = [([], \<lparr>shape = [], data = [11]\<rparr>), ([], \<lparr>shape = [], data = [35]\<rparr>)]"
    unfolding scalar_example_pairs by simp
  from xs have "xs = [11, 35]" unfolding pv by (simp add: nd_item_def)
  with r have s: "(ScalarResult 46 :: int contract_result) = ScalarResult (sum_list [11, 35])" by simp
  have c1: "contract (+) odd (\<lambda>f. f) (\<lambda>xs. xs)
     \<lparr>blocks = [\<lparr>q_labels = [0, 1 :: int], reduced = \<lparr>shape = [1, 2], data = [1, 2]\<rparr>\<rparr>,
                \<lparr>q_labels = [0, 2], reduced = \<lparr>shape = [1, 1], data = [5]\<rparr>\<rparr>],
      ftype = LeftFusedMPSTensor, delta_quantum = None\<rparr>
     \<lparr>blocks = [\<lparr>q_labels = [0, 1 :: int], reduced = \<lparr>shape = [1, 2], data = [3, 4]\<rparr>\<rparr>,
                \<lparr>q_labels = [0, 2], reduced = \<lparr>shape = [1, 1], data = [7]\<rparr>\<rparr>],
      ftype = LeftFusedMPSTensor, delta_quantum = None\<rparr> [0, - 1] [- 2, 1]
   = Inr (ScalarResult (sum_list [11, 35]))"
    using scalar_example unfolding s .
  have l: "length [0, - 1 :: int] = length [- 2, 1 :: int]" by simp
  have c3: "contract (+) odd (\<lambda>f. f) (\<lambda>xs. xs)
     \<lparr>blocks = [\<lparr>q_labels = [0, 1 :: int], reduced = \<lparr>shape = [1, 2], data = [1, 2]\<rparr>\<rparr>,
                \<lparr>q_labels = [0, 2], reduced = \<lparr>shape = [1, 1], data = [5]\<rparr>\<rparr>],
      ftype = LeftFusedMPSTensor, delta_quantum = None\<rparr>
     \<lparr>blocks = [\<lparr>q_labels = [1, 1 :: int], reduced = \<lparr>shape = [1, 2], data = [3, 4]\<rparr>\<rparr>,
                \<lparr>q_labels = [1, 2], reduced = \<lparr>shape = [1, 1], data = [7]\<rparr>\<rparr>],
      ftype = LeftFusedMPSTensor, delta_quantum = None\<rparr> [0, - 1] [- 2, 1]
   = Inr (ScalarResult 0)"
    by (rule full_contraction_scalar[where listed = "\<lambda>xs. xs" and qadd = "(+)" and is_fermion = odd
      and flips = "\<lambda>f. f", OF refl scalar_example_covers(1,3) scalar_example_ranks(1,3),
      THEN conjunct2, rule_format])
      (intro conjI l scalar_example_covers(4,5,6) scalar_example_ranks(4,5))
  from c1 scalar_example_pairs c3 show ?thesis by (intro conjI)
qed

section \<open>Applying a carry matrix\<close>

lemma py_index_first: "py_index xs 0 = Inr q \<Longrightarrow> xs \<noteq> [] \<and> q = hd xs"
  by (cases xs) (auto simp: py_index_def split: if_splits)

lemma py_index_last: "py_index xs (- 1) = Inr q \<Longrightarrow> xs \<noteq> [] \<and> q = last xs"
  by (cases xs rule: rev_cases) (auto simp: py_index_def nth_append split: if_splits)

lemma left_multiply_block_cases:
  assumes "left_multiply_block mats b = Inr bs"
  shows "q_labels b \<noteq> []
    \<and> (if hd (q_labels b) \<in> dom mats then \<exists>b'. bs = [b'] \<and> left_product mats b b' else bs = [])"
proof -
  from assms obtain q where q: "py_index (q_labels b) 0 = Inr q"
    by (auto simp: left_multiply_block_def split: sum.splits)
  from py_index_first[OF q] have ne: "q_labels b \<noteq> []" and qh: "q = hd (q_labels b)" by simp_all
  show ?thesis
  proof (cases "mats q")
    case None
    with assms q qh ne show ?thesis by (auto simp: left_multiply_block_def)
  next
    case (Some r)
    with assms q obtain mat where "tensordot r (reduced b) [1] [0] = Inr mat"
      "bs = [\<lparr>q_labels = q_labels b, reduced = mat\<rparr>]"
      by (auto simp: left_multiply_block_def SubTensor_init_def split: sum.splits if_splits)
    with Some qh ne show ?thesis by (auto simp: left_product_def)
  qed
qed

lemma right_multiply_block_cases:
  assumes "right_multiply_block mats b = Inr bs"
  shows "q_labels b \<noteq> []
    \<and> (if last (q_labels b) \<in> dom mats then \<exists>b'. bs = [b'] \<and> right_product mats b b' else bs = [])"
proof -
  from assms obtain q where q: "py_index (q_labels b) (- 1) = Inr q"
    by (auto simp: right_multiply_block_def split: sum.splits)
  from py_index_last[OF q] have ne: "q_labels b \<noteq> []" and qh: "q = last (q_labels b)" by simp_all
  show ?thesis
  proof (cases "mats q")
    case None
    with assms q qh ne show ?thesis by (auto simp: right_multiply_block_def)
  next
    case (Some l)
    with assms q obtain mat where
      "tensordot (reduced b) l [int (block_rank b) - 1] [0] = Inr mat"
      "bs = [\<lparr>q_labels = q_labels b, reduced = mat\<rparr>]"
      by (auto simp: right_multiply_block_def SubTensor_init_def split: sum.splits if_splits)
    with Some qh ne show ?thesis by (auto simp: right_product_def block_rank_def)
  qed
qed

lemma traverse_left_multiply:
  "traverse (left_multiply_block mats) bs = Inr bss \<Longrightarrow>
   (\<forall>b\<in>set bs. q_labels b \<noteq> [])
   \<and> list_all2 (left_product mats) (filter (\<lambda>b. hd (q_labels b) \<in> dom mats) bs) (concat bss)"
proof (induction bs arbitrary: bss)
  case Nil
  then show ?case by simp
next
  case (Cons b bs)
  from Cons.prems obtain cs css where c: "left_multiply_block mats b = Inr cs"
    and t: "traverse (left_multiply_block mats) bs = Inr css" and e: "bss = cs # css"
    by (auto split: sum.splits)
  from left_multiply_block_cases[OF c] Cons.IH[OF t] e show ?case
    by (auto split: if_splits)
qed

lemma traverse_right_multiply:
  "traverse (right_multiply_block mats) bs = Inr bss \<Longrightarrow>
   (\<forall>b\<in>set bs. q_labels b \<noteq> [])
   \<and> list_all2 (right_product mats) (filter (\<lambda>b. last (q_labels b) \<in> dom mats) bs) (concat bss)"
proof (induction bs arbitrary: bss)
  case Nil
  then show ?case by simp
next
  case (Cons b bs)
  from Cons.prems obtain cs css where c: "right_multiply_block mats b = Inr cs"
    and t: "traverse (right_multiply_block mats) bs = Inr css" and e: "bss = cs # css"
    by (auto split: sum.splits)
  from right_multiply_block_cases[OF c] Cons.IH[OF t] e show ?case
    by (auto split: if_splits)
qed

text \<open>
  C7. When \<open>left_multiply\<close> gets through its loop, the blocks of the collection are, in
  their order, those of the old blocks whose first label is a key of the map of carry
  matrices, each with its labels and with the dense product
  \<open>np.tensordot(mats[q], block.reduced, axes=([1], [0]))\<close> of the carry matrix and the
  block, contracted on the first leg of the block, as its array; a block whose first label
  is not a key is gone. \<open>right_multiply\<close> does the same on the last label, with the
  product \<open>np.tensordot(block.reduced, mats[q], axes=([rank - 1], [0]))\<close>. The tag and
  \<open>delta_quantum\<close> stay.
\<close>

theorem multiply_replaces_and_drops:
  "(left_multiply t mats = Inr t' \<longrightarrow>
      list_all2 (left_product mats)
        (filter (\<lambda>b. hd (q_labels b) \<in> dom mats) (blocks t)) (blocks t')
      \<and> ftype t' = ftype t \<and> delta_quantum t' = delta_quantum t)
   \<and> (right_multiply t mats = Inr t' \<longrightarrow>
      list_all2 (right_product mats)
        (filter (\<lambda>b. last (q_labels b) \<in> dom mats) (blocks t)) (blocks t')
      \<and> ftype t' = ftype t \<and> delta_quantum t' = delta_quantum t)"
proof (intro conjI impI)
  assume "left_multiply t mats = Inr t'"
  then obtain bss where b: "traverse (left_multiply_block mats) (blocks t) = Inr bss"
    and t': "t' = t\<lparr>blocks := concat bss\<rparr>"
    by (auto simp: left_multiply_def split: sum.splits)
  from traverse_left_multiply[OF b] t'
  show "list_all2 (left_product mats)
        (filter (\<lambda>b. hd (q_labels b) \<in> dom mats) (blocks t)) (blocks t')"
    "ftype t' = ftype t" "delta_quantum t' = delta_quantum t" by simp_all
next
  assume "right_multiply t mats = Inr t'"
  then obtain bss where b: "traverse (right_multiply_block mats) (blocks t) = Inr bss"
    and t': "t' = t\<lparr>blocks := concat bss\<rparr>"
    by (auto simp: right_multiply_def split: sum.splits)
  from traverse_right_multiply[OF b] t'
  show "list_all2 (right_product mats)
        (filter (\<lambda>b. last (q_labels b) \<in> dom mats) (blocks t)) (blocks t')"
    "ftype t' = ftype t" "delta_quantum t' = delta_quantum t" by simp_all
qed


lemma left_multiply_example:
  "left_multiply
     \<lparr>blocks = [\<lparr>q_labels = [0, 1 :: int], reduced = \<lparr>shape = [2, 1], data = [1, 2]\<rparr>\<rparr>,
                \<lparr>q_labels = [5, 1], reduced = \<lparr>shape = [1, 1], data = [7]\<rparr>\<rparr>],
      ftype = LeftFusedMPSTensor, delta_quantum = None\<rparr>
     [0 \<mapsto> \<lparr>shape = [2, 2], data = [0, 1, 1, 0]\<rparr>]
   = Inr \<lparr>blocks = [\<lparr>q_labels = [0, 1], reduced = \<lparr>shape = [2, 1], data = [2, 1]\<rparr>\<rparr>],
          ftype = LeftFusedMPSTensor, delta_quantum = None\<rparr>"
  by code_simp

lemma right_multiply_example:
  "right_multiply
     \<lparr>blocks = [\<lparr>q_labels = [1, 0 :: int], reduced = \<lparr>shape = [1, 2], data = [1, 2]\<rparr>\<rparr>,
                \<lparr>q_labels = [1, 5], reduced = \<lparr>shape = [1, 1], data = [7]\<rparr>\<rparr>],
      ftype = LeftFusedMPSTensor, delta_quantum = None\<rparr>
     [0 \<mapsto> \<lparr>shape = [2, 2], data = [0, 1, 3, 0]\<rparr>]
   = Inr \<lparr>blocks = [\<lparr>q_labels = [1, 0], reduced = \<lparr>shape = [1, 2], data = [6, 1]\<rparr>\<rparr>],
          ftype = LeftFusedMPSTensor, delta_quantum = None\<rparr>"
  by code_simp

theorem multiply_replaces_and_drops_witness:
  "left_multiply
     \<lparr>blocks = [\<lparr>q_labels = [0, 1 :: int], reduced = \<lparr>shape = [2, 1], data = [1, 2]\<rparr>\<rparr>,
                \<lparr>q_labels = [5, 1], reduced = \<lparr>shape = [1, 1], data = [7]\<rparr>\<rparr>],
      ftype = LeftFusedMPSTensor, delta_quantum = None\<rparr>
     [0 \<mapsto> \<lparr>shape = [2, 2], data = [0, 1, 1, 0]\<rparr>]
   = Inr \<lparr>blocks = [\<lparr>q_labels = [0, 1], reduced = \<lparr>shape = [2, 1], data = [2, 1]\<rparr>\<rparr>],
          ftype = LeftFusedMPSTensor, delta_quantum = None\<rparr>
   \<and> list_all2 (left_product [0 \<mapsto> \<lparr>shape = [2, 2], data = [0, 1, 1, 0]\<rparr>])
        [\<lparr>q_labels = [0, 1 :: int], reduced = \<lparr>shape = [2, 1], data = [1, 2]\<rparr>\<rparr>]
        [\<lparr>q_labels = [0, 1], reduced = \<lparr>shape = [2, 1], data = [2, 1]\<rparr>\<rparr>]
   \<and> right_multiply
     \<lparr>blocks = [\<lparr>q_labels = [1, 0 :: int], reduced = \<lparr>shape = [1, 2], data = [1, 2]\<rparr>\<rparr>,
                \<lparr>q_labels = [1, 5], reduced = \<lparr>shape = [1, 1], data = [7]\<rparr>\<rparr>],
      ftype = LeftFusedMPSTensor, delta_quantum = None\<rparr>
     [0 \<mapsto> \<lparr>shape = [2, 2], data = [0, 1, 3, 0]\<rparr>]
   = Inr \<lparr>blocks = [\<lparr>q_labels = [1, 0], reduced = \<lparr>shape = [1, 2], data = [6, 1]\<rparr>\<rparr>],
          ftype = LeftFusedMPSTensor, delta_quantum = None\<rparr>
   \<and> list_all2 (right_product [0 \<mapsto> \<lparr>shape = [2, 2], data = [0, 1, 3, 0]\<rparr>])
        [\<lparr>q_labels = [1, 0 :: int], reduced = \<lparr>shape = [1, 2], data = [1, 2]\<rparr>\<rparr>]
        [\<lparr>q_labels = [1, 0], reduced = \<lparr>shape = [1, 2], data = [6, 1]\<rparr>\<rparr>]"
proof -
  have l: "list_all2 (left_product [0 \<mapsto> \<lparr>shape = [2, 2], data = [0, 1, 1, 0]\<rparr>])
        [\<lparr>q_labels = [0, 1 :: int], reduced = \<lparr>shape = [2, 1], data = [1, 2]\<rparr>\<rparr>]
        [\<lparr>q_labels = [0, 1], reduced = \<lparr>shape = [2, 1], data = [2, 1]\<rparr>\<rparr>]"
    using multiply_replaces_and_drops[THEN conjunct1, rule_format, OF left_multiply_example]
    by simp
  have r: "list_all2 (right_product [0 \<mapsto> \<lparr>shape = [2, 2], data = [0, 1, 3, 0]\<rparr>])
        [\<lparr>q_labels = [1, 0 :: int], reduced = \<lparr>shape = [1, 2], data = [1, 2]\<rparr>\<rparr>]
        [\<lparr>q_labels = [1, 0], reduced = \<lparr>shape = [1, 2], data = [6, 1]\<rparr>\<rparr>]"
    using multiply_replaces_and_drops[THEN conjunct2, rule_format, OF right_multiply_example]
    by simp
  from left_multiply_example l right_multiply_example r show ?thesis by (intro conjI)
qed

end
